theory Spec2Isabelle
  imports Main
begin

section \<open>The element type and the events that can fail\<close>

text \<open>
  \<^verbatim>\<open>vector.h\<close> is a class template over an element type \<open>T\<close>. The code asks three
  questions about \<open>T\<close> (\<open>std::is_nothrow_move_constructible_v\<close>,
  \<open>std::is_copy_constructible_v\<close>, \<open>std::is_nothrow_move_assignable_v\<close>); a model of
  \<open>T\<close> answers them, says what a moved-from object holds and what value-initialisation
  yields. Element values are of type \<open>'a\<close>.

  Two operations of \<open>T\<close> are not determined by the values alone and are fields too.
  \<open>list_init T x\<close> is the value of the expression \<open>T({x})\<close>: list-initialisation prefers
  a constructor taking a \<open>std::initializer_list\<close>, so the object need not be a copy of
  \<open>x\<close>; for a type without such a constructor it is \<open>x\<close>. \<open>move_assigned T d s\<close> is the
  pair of values the destination and the source hold after \<open>d = std::move(s)\<close>: for most
  types \<open>(s, moved_from T s)\<close>, but a move assignment is free to do otherwise. The move
  assignment of \<open>Vector\<close> itself leaves both objects as they are when the capacity of the
  destination suffices.
\<close>

record 'a elem_type =
  nothrow_move_constructible :: bool
  copy_constructible :: bool
  nothrow_move_assignable :: bool
  moved_from :: "'a \<Rightarrow> 'a"
  value_init :: 'a
  list_init :: "'a \<Rightarrow> 'a"
  move_assigned :: "'a \<Rightarrow> 'a \<Rightarrow> 'a \<times> 'a"

text \<open>
  The operations that may throw: \<open>operator new\<close> and the special member functions of
  \<open>T\<close>. A budget \<open>Some k\<close> for an event lets the next \<open>k\<close> occurrences succeed and makes
  the one after them throw (once); \<open>None\<close> never throws.
\<close>

datatype event = Alloc | CopyCtor | MoveCtor | ArgsCtor | ValueCtor | CopyAssign | MoveAssign

datatype exn = BadAlloc | ElemThrow

text \<open>
  An operation returns normally with a result and the new state, leaves by an exception
  with the state the caller then sees, or has no defined behaviour (a failed \<open>assert\<close>,
  an access outside a live object).
\<close>

datatype ('r, 's) outcome = Returned 'r 's | Threw exn 's | Undefined

section \<open>The free store\<close>

type_synonym addr = nat

text \<open>
  Address \<open>0\<close> is \<open>nullptr\<close>; address \<open>Suc i\<close> is the \<open>i\<close>-th block ever allocated. A cell
  of a block is raw (\<open>None\<close>) or holds a live object (\<open>Some x\<close>). A pointer is a block
  address and an offset in cells; a range of length zero at \<open>nullptr\<close> is a valid range, a
  range at a freed block is not.

  The store holds objects of one element type and knows \<open>sizeof(T)\<close>, the number of bytes
  of a cell. \<open>size_t\<close> is taken to be 64 bits wide: \<open>size_max\<close> is the number of its values,
  and arithmetic in \<open>size_t\<close> is arithmetic modulo \<open>size_max\<close>.
\<close>

datatype 'a block = Freed | Block "'a option list"

record 'a world =
  heap :: "'a block list"
  budget :: "event \<Rightarrow> nat option"
  sizeof_T :: nat

definition size_max :: nat where
  "size_max = 2 ^ 64"

datatype ptr = Ptr (base: addr) (off: nat)

definition ptr_add :: "ptr \<Rightarrow> nat \<Rightarrow> ptr" where
  "ptr_add p k = Ptr (base p) (off p + k)"

definition distance :: "ptr \<Rightarrow> ptr \<Rightarrow> nat option" where
  \<comment> \<open>\<open>std::distance(p, q)\<close>: defined for pointers into one array, \<open>p\<close> not after \<open>q\<close>\<close>
  "distance p q =
     (if base p = base q \<and> off p \<le> off q then Some (off q - off p) else None)"

definition tick :: "event \<Rightarrow> 'a world \<Rightarrow> bool \<times> 'a world" where
  "tick e w =
     (case budget w e of
        None \<Rightarrow> (True, w)
      | Some k \<Rightarrow>
          (case k of
             0 \<Rightarrow> (False, w\<lparr>budget := (budget w)(e := None)\<rparr>)
           | Suc j \<Rightarrow> (True, w\<lparr>budget := (budget w)(e := Some j)\<rparr>)))"

fun ticks :: "event \<Rightarrow> nat \<Rightarrow> 'a world \<Rightarrow> nat \<times> 'a world" where
  \<comment> \<open>\<open>n\<close> occurrences in a row: how many succeeded before the first throw\<close>
  "ticks e 0 w = (0, w)"
| "ticks e (Suc n) w =
     (case tick e w of
        (False, w') \<Rightarrow> (0, w')
      | (True, w') \<Rightarrow> (case ticks e n w' of (k, w'') \<Rightarrow> (Suc k, w'')))"

definition can_throw :: "'a elem_type \<Rightarrow> event \<Rightarrow> bool" where
  "can_throw T e =
     (case e of
        MoveCtor \<Rightarrow> \<not> nothrow_move_constructible T
      | MoveAssign \<Rightarrow> \<not> nothrow_move_assignable T
      | _ \<Rightarrow> True)"

definition elem_ticks :: "'a elem_type \<Rightarrow> event \<Rightarrow> nat \<Rightarrow> 'a world \<Rightarrow> nat \<times> 'a world" where
  "elem_ticks T e n w = (if can_throw T e then ticks e n w else (n, w))"

definition cells_at :: "addr \<Rightarrow> 'a world \<Rightarrow> 'a option list option" where
  \<comment> \<open>the array an address points to; \<open>nullptr\<close> points to an array of no cells\<close>
  "cells_at a w =
     (if a = 0 then Some []
      else if length (heap w) < a then None
      else (case heap w ! (a - 1) of Freed \<Rightarrow> None | Block cs \<Rightarrow> Some cs))"

definition set_cells :: "addr \<Rightarrow> 'a option list \<Rightarrow> 'a world \<Rightarrow> 'a world" where
  "set_cells a cs w = (if a = 0 then w else w\<lparr>heap := (heap w)[a - 1 := Block cs]\<rparr>)"

definition load_n :: "ptr \<Rightarrow> nat \<Rightarrow> 'a world \<Rightarrow> 'a list option" where
  \<comment> \<open>the values of the \<open>n\<close> live objects at \<open>p\<close>\<close>
  "load_n p n w =
     (case cells_at (base p) w of
        None \<Rightarrow> None
      | Some cs \<Rightarrow>
          (if off p + n \<le> length cs \<and> list_all (\<lambda>c. c \<noteq> None) (take n (drop (off p) cs))
           then Some (map the (take n (drop (off p) cs)))
           else None))"

definition store_n :: "ptr \<Rightarrow> 'a option list \<Rightarrow> 'a world \<Rightarrow> 'a world option" where
  \<comment> \<open>overwrite the cells at \<open>p\<close>, inside the array \<open>p\<close> points into\<close>
  "store_n p xs w =
     (case cells_at (base p) w of
        None \<Rightarrow> None
      | Some cs \<Rightarrow>
          (if off p + length xs \<le> length cs
           then Some (set_cells (base p) (take (off p) cs @ xs @ drop (off p + length xs) cs) w)
           else None))"

section \<open>Library primitives on uninitialised and live storage\<close>

text \<open>
  The standard algorithms the source calls, by their contracts. The
  \<open>uninitialized_*\<close> family destroys what it has constructed before it lets an
  exception escape, so the destination is raw again when it throws. A move leaves its source
  live, holding \<open>moved_from\<close> of the old value.
\<close>

definition uninitialized_copy_n ::
  "'a elem_type \<Rightarrow> ptr \<Rightarrow> nat \<Rightarrow> ptr \<Rightarrow> 'a world \<Rightarrow> (unit, 'a world) outcome" where
  "uninitialized_copy_n T src n dst w =
     (case load_n src n w of
        None \<Rightarrow> Undefined
      | Some xs \<Rightarrow>
          (case store_n dst (map Some xs) w of
             None \<Rightarrow> Undefined
           | Some ws \<Rightarrow>
               (case elem_ticks T CopyCtor n w of
                  (k, w') \<Rightarrow>
                    if k < n then Threw ElemThrow w'
                    else Returned () (ws\<lparr>budget := budget w'\<rparr>))))"

definition uninitialized_move_n ::
  "'a elem_type \<Rightarrow> ptr \<Rightarrow> nat \<Rightarrow> ptr \<Rightarrow> 'a world \<Rightarrow> (unit, 'a world) outcome" where
  "uninitialized_move_n T src n dst w =
     (case load_n src n w of
        None \<Rightarrow> Undefined
      | Some xs \<Rightarrow>
          (case elem_ticks T MoveCtor n w of
             (k, w') \<Rightarrow>
               (case store_n src (map (\<lambda>x. Some (moved_from T x)) (take k xs)) w' of
                  None \<Rightarrow> Undefined
                | Some w1 \<Rightarrow>
                    (case store_n dst (map Some xs) w1 of
                       None \<Rightarrow> Undefined
                     | Some w2 \<Rightarrow> if k < n then Threw ElemThrow w1 else Returned () w2))))"

definition uninitialized_value_construct_n ::
  "'a elem_type \<Rightarrow> ptr \<Rightarrow> nat \<Rightarrow> 'a world \<Rightarrow> (unit, 'a world) outcome" where
  "uninitialized_value_construct_n T p n w =
     (case store_n p (replicate n (Some (value_init T))) w of
        None \<Rightarrow> Undefined
      | Some ws \<Rightarrow>
          (case elem_ticks T ValueCtor n w of
             (k, w') \<Rightarrow>
               if k < n then Threw ElemThrow w'
               else Returned () (ws\<lparr>budget := budget w'\<rparr>)))"

definition destroy_n :: "ptr \<Rightarrow> nat \<Rightarrow> 'a world \<Rightarrow> 'a world option" where
  \<comment> \<open>destructors are taken not to throw; the \<open>n\<close> objects must be live\<close>
  "destroy_n p n w =
     (case load_n p n w of
        None \<Rightarrow> None
      | Some _ \<Rightarrow> store_n p (replicate n None) w)"

text \<open>
  The arguments a \<open>T\<close> is constructed from: an lvalue of type \<open>T\<close> (copy constructor), an
  rvalue of type \<open>T\<close> (move constructor), the braced list \<open>{x}\<close> of one lvalue of type
  \<open>T\<close>, or anything else building the given value. Building \<open>T({x})\<close> copies \<open>x\<close> once
  (by the copy constructor, or into the array behind the \<open>std::initializer_list\<close>), so it
  counts as a copy construction.
\<close>

datatype 'a args = CopyOf 'a | MoveOf 'a | ListOf 'a | Args 'a

fun arg_value :: "'a elem_type \<Rightarrow> 'a args \<Rightarrow> 'a" where
  "arg_value T (CopyOf x) = x"
| "arg_value T (MoveOf x) = x"
| "arg_value T (ListOf x) = list_init T x"
| "arg_value T (Args x) = x"

fun arg_event :: "'a args \<Rightarrow> event" where
  "arg_event (CopyOf x) = CopyCtor"
| "arg_event (MoveOf x) = MoveCtor"
| "arg_event (ListOf x) = CopyCtor"
| "arg_event (Args x) = ArgsCtor"

definition construct :: "'a elem_type \<Rightarrow> 'a args \<Rightarrow> 'a world \<Rightarrow> ('a, 'a world) outcome" where
  \<comment> \<open>\<open>T(std::forward<Args>(args)...)\<close>\<close>
  "construct T a w =
     (case elem_ticks T (arg_event a) 1 w of
        (k, w') \<Rightarrow> if k < 1 then Threw ElemThrow w' else Returned (arg_value T a) w')"

definition construct_at ::
  "'a elem_type \<Rightarrow> ptr \<Rightarrow> 'a args \<Rightarrow> 'a world \<Rightarrow> (unit, 'a world) outcome" where
  \<comment> \<open>placement new: \<open>new (p) T(args...)\<close>\<close>
  "construct_at T p a w =
     (case store_n p [Some (arg_value T a)] w of
        None \<Rightarrow> Undefined
      | Some ws \<Rightarrow>
          (case construct T a w of
             Returned x w' \<Rightarrow> Returned () (ws\<lparr>budget := budget w'\<rparr>)
           | Threw e w' \<Rightarrow> Threw e w'
           | Undefined \<Rightarrow> Undefined))"

definition move_assign_elem ::
  "'a elem_type \<Rightarrow> ptr \<Rightarrow> ptr \<Rightarrow> 'a world \<Rightarrow> (unit, 'a world) outcome" where
  \<comment> \<open>\<open>*dst = std::move(*src)\<close>; a throwing assignment is taken to change nothing\<close>
  "move_assign_elem T dst src w =
     (case load_n src 1 w of
        None \<Rightarrow> Undefined
      | Some xs \<Rightarrow>
          (case load_n dst 1 w of
             None \<Rightarrow> Undefined
           | Some ds \<Rightarrow>
               (case elem_ticks T MoveAssign 1 w of
                  (k, w') \<Rightarrow>
                    if k < 1 then Threw ElemThrow w'
                    else
                      (case store_n dst [Some (fst (move_assigned T (hd ds) (hd xs)))] w' of
                         None \<Rightarrow> Undefined
                       | Some w1 \<Rightarrow>
                           (case store_n src [Some (snd (move_assigned T (hd ds) (hd xs)))] w1 of
                              None \<Rightarrow> Undefined
                            | Some w2 \<Rightarrow> Returned () w2)))))"

definition assign_value ::
  "'a elem_type \<Rightarrow> ptr \<Rightarrow> 'a \<Rightarrow> 'a world \<Rightarrow> (unit, 'a world) outcome" where
  \<comment> \<open>\<open>*dst = std::move(x)\<close> for a local object \<open>x\<close>\<close>
  "assign_value T dst x w =
     (case load_n dst 1 w of
        None \<Rightarrow> Undefined
      | Some ds \<Rightarrow>
          (case elem_ticks T MoveAssign 1 w of
             (k, w') \<Rightarrow>
               if k < 1 then Threw ElemThrow w'
               else (case store_n dst [Some (fst (move_assigned T (hd ds) x))] w' of
                       None \<Rightarrow> Undefined
                     | Some w1 \<Rightarrow> Returned () w1)))"

definition copy_assign_elem ::
  "'a elem_type \<Rightarrow> ptr \<Rightarrow> ptr \<Rightarrow> 'a world \<Rightarrow> (unit, 'a world) outcome" where
  \<comment> \<open>\<open>*dst = *src\<close>; a throwing assignment is taken to change nothing\<close>
  "copy_assign_elem T dst src w =
     (case load_n src 1 w of
        None \<Rightarrow> Undefined
      | Some xs \<Rightarrow>
          (case load_n dst 1 w of
             None \<Rightarrow> Undefined
           | Some _ \<Rightarrow>
               (case elem_ticks T CopyAssign 1 w of
                  (k, w') \<Rightarrow>
                    if k < 1 then Threw ElemThrow w'
                    else (case store_n dst (map Some xs) w' of
                            None \<Rightarrow> Undefined
                          | Some w1 \<Rightarrow> Returned () w1))))"

fun move_n :: "'a elem_type \<Rightarrow> ptr \<Rightarrow> ptr \<Rightarrow> nat \<Rightarrow> 'a world \<Rightarrow> (unit, 'a world) outcome" where
  \<comment> \<open>\<open>for (; n > 0; --n) *d++ = std::move(*s++);\<close>\<close>
  "move_n T s d 0 w = Returned () w"
| "move_n T s d (Suc n) w =
     (case move_assign_elem T d s w of
        Returned _ w' \<Rightarrow> move_n T (ptr_add s 1) (ptr_add d 1) n w'
      | Threw e w' \<Rightarrow> Threw e w'
      | Undefined \<Rightarrow> Undefined)"

definition std_move :: "'a elem_type \<Rightarrow> ptr \<Rightarrow> ptr \<Rightarrow> ptr \<Rightarrow> 'a world \<Rightarrow> (unit, 'a world) outcome" where
  \<comment> \<open>the algorithm \<open>std::move(first, last, d_first)\<close>; \<open>[first, last)\<close> must be a range\<close>
  "std_move T first lst d_first w =
     (case distance first lst of
        None \<Rightarrow> Undefined
      | Some n \<Rightarrow> move_n T first d_first n w)"

fun move_backward_n ::
  "'a elem_type \<Rightarrow> ptr \<Rightarrow> ptr \<Rightarrow> nat \<Rightarrow> 'a world \<Rightarrow> (unit, 'a world) outcome" where
  \<comment> \<open>\<open>for (; n > 0; --n) *--d = std::move(*--s);\<close>\<close>
  "move_backward_n T s d 0 w = Returned () w"
| "move_backward_n T s d (Suc n) w =
     (if off s = 0 \<or> off d = 0 then Undefined
      else
        (case move_assign_elem T (Ptr (base d) (off d - 1)) (Ptr (base s) (off s - 1)) w of
           Returned _ w' \<Rightarrow>
             move_backward_n T (Ptr (base s) (off s - 1)) (Ptr (base d) (off d - 1)) n w'
         | Threw e w' \<Rightarrow> Threw e w'
         | Undefined \<Rightarrow> Undefined))"

definition std_move_backward ::
  "'a elem_type \<Rightarrow> ptr \<Rightarrow> ptr \<Rightarrow> ptr \<Rightarrow> 'a world \<Rightarrow> (unit, 'a world) outcome" where
  \<comment> \<open>\<open>std::move_backward(first, last, d_last)\<close>; \<open>[first, last)\<close> must be a range\<close>
  "std_move_backward T first lst d_last w =
     (case distance first lst of
        None \<Rightarrow> Undefined
      | Some n \<Rightarrow> move_backward_n T lst d_last n w)"

section \<open>\<open>RawMemory\<close>\<close>

text \<open>
  The members \<open>buffer_\<close> and \<open>capacity_\<close> of the source are the fields \<open>buffer_m\<close> and
  \<open>capacity_m\<close> here (a name cannot end in an underscore); likewise \<open>data_m\<close> and
  \<open>size_m\<close> for the members of \<open>Vector\<close>.
\<close>

record RawMemory =
  buffer_m :: addr
  capacity_m :: nat

text \<open>
  \<open>Allocate\<close> multiplies in \<open>size_t\<close>: \<open>operator new\<close> is asked for
  \<open>n * sizeof(T) mod size_max\<close> bytes, throws or provides a new block of that many bytes,
  which has room for the quotient of the bytes by \<open>sizeof(T)\<close> cells. When the product does
  not wrap these are \<open>n\<close> cells; when it wraps they are fewer than the capacity the caller
  then records.
\<close>

definition new_cells :: "nat \<Rightarrow> 'a world \<Rightarrow> nat" where
  \<comment> \<open>the number of cells in the block \<open>operator new(n * sizeof(T))\<close> provides\<close>
  "new_cells n w = (n * sizeof_T w mod size_max) div sizeof_T w"

definition Allocate :: "nat \<Rightarrow> 'a world \<Rightarrow> (addr, 'a world) outcome" where
  \<comment> \<open>\<open>n != 0 ? operator new(n * sizeof(T)) : nullptr\<close>\<close>
  "Allocate n w =
     (if n \<noteq> 0
      then (case tick Alloc w of
              (False, w') \<Rightarrow> Threw BadAlloc w'
            | (True, w') \<Rightarrow>
                Returned (Suc (length (heap w')))
                  (w'\<lparr>heap := heap w' @ [Block (replicate (new_cells n w) None)]\<rparr>))
      else Returned 0 w)"

definition Deallocate :: "addr \<Rightarrow> 'a world \<Rightarrow> 'a world" where
  \<comment> \<open>\<open>operator delete(buf)\<close>, which ignores \<open>nullptr\<close>\<close>
  "Deallocate buf w = (if buf = 0 then w else w\<lparr>heap := (heap w)[buf - 1 := Freed]\<rparr>)"

definition RawMemory_default :: RawMemory where
  "RawMemory_default = \<lparr>buffer_m = 0, capacity_m = 0\<rparr>"

definition RawMemory_ctor :: "nat \<Rightarrow> 'a world \<Rightarrow> (RawMemory, 'a world) outcome" where
  "RawMemory_ctor capacity w =
     (case Allocate capacity w of
        Returned a w' \<Rightarrow> Returned \<lparr>buffer_m = a, capacity_m = capacity\<rparr> w'
      | Threw e w' \<Rightarrow> Threw e w'
      | Undefined \<Rightarrow> Undefined)"

definition RawMemory_dtor :: "RawMemory \<Rightarrow> 'a world \<Rightarrow> 'a world" where
  "RawMemory_dtor m w = Deallocate (buffer_m m) w"

definition RawMemory_Swap :: "RawMemory \<Rightarrow> RawMemory \<Rightarrow> RawMemory \<times> RawMemory" where
  \<comment> \<open>the pair is (\<open>*this\<close>, \<open>other\<close>) after the two \<open>std::swap\<close>s\<close>
  "RawMemory_Swap this other =
     (this\<lparr>buffer_m := buffer_m other, capacity_m := capacity_m other\<rparr>,
      other\<lparr>buffer_m := buffer_m this, capacity_m := capacity_m this\<rparr>)"

definition RawMemory_move_ctor :: "RawMemory \<Rightarrow> RawMemory \<times> RawMemory" where
  \<comment> \<open>the members start as \<open>nullptr\<close> and \<open>0\<close>, then \<open>this->Swap(other)\<close>\<close>
  "RawMemory_move_ctor other = RawMemory_Swap RawMemory_default other"

definition RawMemory_plus :: "RawMemory \<Rightarrow> nat \<Rightarrow> ptr option" where
  \<comment> \<open>\<open>operator+\<close>, with its \<open>assert(offset <= capacity_)\<close>\<close>
  "RawMemory_plus m offset = (if offset \<le> capacity_m m then Some (Ptr (buffer_m m) offset) else None)"

definition RawMemory_index :: "RawMemory \<Rightarrow> nat \<Rightarrow> ptr option" where
  \<comment> \<open>\<open>operator[]\<close>, with its \<open>assert(index < capacity_)\<close>; the reference is the cell's address\<close>
  "RawMemory_index m index = (if index < capacity_m m then Some (Ptr (buffer_m m) index) else None)"

definition GetAddress :: "RawMemory \<Rightarrow> ptr" where
  "GetAddress m = Ptr (buffer_m m) 0"

section \<open>\<open>Vector\<close>\<close>

record Vector =
  data_m :: RawMemory
  size_m :: nat

definition Vector_default :: Vector where
  "Vector_default = \<lparr>data_m = RawMemory_default, size_m = 0\<rparr>"

definition Size :: "Vector \<Rightarrow> nat" where
  "Size v = size_m v"

definition Capacity :: "Vector \<Rightarrow> nat" where
  "Capacity v = capacity_m (data_m v)"

definition Vector_begin :: "Vector \<Rightarrow> ptr" where
  "Vector_begin v = GetAddress (data_m v)"

definition Vector_end :: "Vector \<Rightarrow> ptr" where
  "Vector_end v = ptr_add (GetAddress (data_m v)) (size_m v)"

definition Vector_index :: "Vector \<Rightarrow> nat \<Rightarrow> ptr option" where
  \<comment> \<open>\<open>operator[]\<close>, with its \<open>assert(index < size_)\<close>\<close>
  "Vector_index v index = (if index < size_m v then RawMemory_index (data_m v) index else None)"

definition Vector_move_ctor :: "Vector \<Rightarrow> Vector \<times> Vector" where
  \<comment> \<open>the pair is (the new vector, \<open>other\<close> afterwards)\<close>
  "Vector_move_ctor other =
     (case RawMemory_move_ctor (data_m other) of
        (d, od) \<Rightarrow> (\<lparr>data_m = d, size_m = size_m other\<rparr>, other\<lparr>data_m := od, size_m := 0\<rparr>))"

definition Vector_Swap :: "Vector \<Rightarrow> Vector \<Rightarrow> Vector \<times> Vector" where
  "Vector_Swap this other =
     (case RawMemory_Swap (data_m this) (data_m other) of
        (d, od) \<Rightarrow> (this\<lparr>data_m := d, size_m := size_m other\<rparr>,
                    other\<lparr>data_m := od, size_m := size_m this\<rparr>))"

definition Vector_sized :: "'a elem_type \<Rightarrow> nat \<Rightarrow> 'a world \<Rightarrow> (Vector, 'a world) outcome" where
  "Vector_sized T sz w =
     (case RawMemory_ctor sz w of
        Undefined \<Rightarrow> Undefined
      | Threw e w1 \<Rightarrow> Threw e w1
      | Returned d w1 \<Rightarrow>
          (case uninitialized_value_construct_n T (GetAddress d) sz w1 of
             Undefined \<Rightarrow> Undefined
           | Threw e w2 \<Rightarrow> Threw e (RawMemory_dtor d w2)
           | Returned _ w2 \<Rightarrow> Returned \<lparr>data_m = d, size_m = sz\<rparr> w2))"

definition Vector_copy_ctor :: "'a elem_type \<Rightarrow> Vector \<Rightarrow> 'a world \<Rightarrow> (Vector, 'a world) outcome" where
  "Vector_copy_ctor T other w =
     (case RawMemory_ctor (size_m other) w of
        Undefined \<Rightarrow> Undefined
      | Threw e w1 \<Rightarrow> Threw e w1
      | Returned d w1 \<Rightarrow>
          (case uninitialized_copy_n T (GetAddress (data_m other)) (size_m other) (GetAddress d) w1 of
             Undefined \<Rightarrow> Undefined
           | Threw e w2 \<Rightarrow> Threw e (RawMemory_dtor d w2)
           | Returned _ w2 \<Rightarrow> Returned \<lparr>data_m = d, size_m = size_m other\<rparr> w2))"

definition Vector_dtor :: "Vector \<Rightarrow> 'a world \<Rightarrow> 'a world option" where
  "Vector_dtor v w =
     (case destroy_n (GetAddress (data_m v)) (size_m v) w of
        None \<Rightarrow> None
      | Some w1 \<Rightarrow> Some (RawMemory_dtor (data_m v) w1))"

function assign_loop ::
  "'a elem_type \<Rightarrow> RawMemory \<Rightarrow> RawMemory \<Rightarrow> nat \<Rightarrow> nat \<Rightarrow> 'a world \<Rightarrow> (unit, 'a world) outcome" where
  \<comment> \<open>\<open>for (; i < n; ++i) data_[i] = rhs.data_[i];\<close>\<close>
  "assign_loop T d r i n w =
     (if i < n
      then (case RawMemory_index d i of
              None \<Rightarrow> Undefined
            | Some p \<Rightarrow>
                (case RawMemory_index r i of
                   None \<Rightarrow> Undefined
                 | Some q \<Rightarrow>
                     (case copy_assign_elem T p q w of
                        Returned _ w' \<Rightarrow> assign_loop T d r (Suc i) n w'
                      | Threw e w' \<Rightarrow> Threw e w'
                      | Undefined \<Rightarrow> Undefined)))
      else Returned () w)"
  by pat_completeness auto
termination
  by (relation "measure (\<lambda>(T, d, r, i, n, w). n - i)") auto

declare assign_loop.simps [simp del]

text \<open>
  The two assignment operators and \<open>Swap\<close> act on two vector objects. \<open>same\<close> says that
  \<open>rhs\<close> is \<open>*this\<close> (the test \<open>this != &rhs\<close> fails); otherwise the two are distinct
  objects, given as \<open>this\<close> and \<open>rhs\<close>.
\<close>

fun copy_assign ::
  "'a elem_type \<Rightarrow> bool \<Rightarrow> Vector \<times> Vector \<times> 'a world \<Rightarrow> (unit, Vector \<times> Vector \<times> 'a world) outcome" where
  "copy_assign T same (this, rhs, w) =
     (if \<not> same then
        (if size_m rhs > capacity_m (data_m this) then
           (case Vector_copy_ctor T rhs w of
              Undefined \<Rightarrow> Undefined
            | Threw e w1 \<Rightarrow> Threw e (this, rhs, w1)
            | Returned rhs_copy w1 \<Rightarrow>
                (case Vector_Swap this rhs_copy of
                   (this', rhs_copy') \<Rightarrow>
                     (case Vector_dtor rhs_copy' w1 of
                        None \<Rightarrow> Undefined
                      | Some w2 \<Rightarrow> Returned () (this', rhs, w2))))
         else if size_m this > size_m rhs then
           (case assign_loop T (data_m this) (data_m rhs) 0 (size_m rhs) w of
              Undefined \<Rightarrow> Undefined
            | Threw e w1 \<Rightarrow> Threw e (this, rhs, w1)
            | Returned _ w1 \<Rightarrow>
                (case destroy_n (ptr_add (GetAddress (data_m this)) (size_m rhs))
                        (size_m this - size_m rhs) w1 of
                   None \<Rightarrow> Undefined
                 | Some w2 \<Rightarrow> Returned () (this\<lparr>size_m := size_m rhs\<rparr>, rhs, w2)))
         else
           (case assign_loop T (data_m this) (data_m rhs) 0 (size_m this) w of
              Undefined \<Rightarrow> Undefined
            | Threw e w1 \<Rightarrow> Threw e (this, rhs, w1)
            | Returned _ w1 \<Rightarrow>
                (case uninitialized_copy_n T (ptr_add (GetAddress (data_m rhs)) (size_m this))
                        (size_m rhs - size_m this)
                        (ptr_add (GetAddress (data_m this)) (size_m this)) w1 of
                   Undefined \<Rightarrow> Undefined
                 | Threw e w2 \<Rightarrow> Threw e (this, rhs, w2)
                 | Returned _ w2 \<Rightarrow> Returned () (this\<lparr>size_m := size_m rhs\<rparr>, rhs, w2))))
      else Returned () (this, rhs, w))"

fun move_assign ::
  "bool \<Rightarrow> Vector \<times> Vector \<times> 'a world \<Rightarrow> (unit, Vector \<times> Vector \<times> 'a world) outcome" where
  "move_assign same (this, rhs, w) =
     (if \<not> same then
        (if size_m rhs > capacity_m (data_m this) then
           (case Vector_move_ctor rhs of
              (rhs_copy, rhs') \<Rightarrow>
                (case Vector_Swap this rhs_copy of
                   (this', rhs_copy') \<Rightarrow>
                     (case Vector_dtor rhs_copy' w of
                        None \<Rightarrow> Undefined
                      | Some w1 \<Rightarrow> Returned () (this', rhs', w1))))
         else Returned () (this, rhs, w))
      else Returned () (this, rhs, w))"

fun Reserve :: "'a elem_type \<Rightarrow> nat \<Rightarrow> Vector \<times> 'a world \<Rightarrow> (unit, Vector \<times> 'a world) outcome" where
  "Reserve T new_capacity (v, w) =
     (if new_capacity \<le> capacity_m (data_m v) then Returned () (v, w)
      else
        (case RawMemory_ctor new_capacity w of
           Undefined \<Rightarrow> Undefined
         | Threw e w1 \<Rightarrow> Threw e (v, w1)
         | Returned new_data w1 \<Rightarrow>
             (case (if nothrow_move_constructible T \<or> \<not> copy_constructible T
                    then uninitialized_move_n T (GetAddress (data_m v)) (size_m v)
                           (GetAddress new_data) w1
                    else uninitialized_copy_n T (GetAddress (data_m v)) (size_m v)
                           (GetAddress new_data) w1) of
                Undefined \<Rightarrow> Undefined
              | Threw e w2 \<Rightarrow> Threw e (v, RawMemory_dtor new_data w2)
              | Returned _ w2 \<Rightarrow>
                  (case destroy_n (GetAddress (data_m v)) (size_m v) w2 of
                     None \<Rightarrow> Undefined
                   | Some w3 \<Rightarrow>
                       (case RawMemory_Swap (data_m v) new_data of
                          (d, nd) \<Rightarrow> Returned () (v\<lparr>data_m := d\<rparr>, RawMemory_dtor nd w3))))))"

fun Resize :: "'a elem_type \<Rightarrow> nat \<Rightarrow> Vector \<times> 'a world \<Rightarrow> (unit, Vector \<times> 'a world) outcome" where
  "Resize T new_size (v, w) =
     (case (if new_size < size_m v
            then (case destroy_n (ptr_add (GetAddress (data_m v)) new_size)
                         (size_m v - new_size) w of
                    None \<Rightarrow> None
                  | Some w1 \<Rightarrow> Some (v\<lparr>size_m := new_size\<rparr>, w1))
            else Some (v, w)) of
        None \<Rightarrow> Undefined
      | Some (v1, w1) \<Rightarrow>
          (if new_size > size_m v1 then
             (case Reserve T new_size (v1, w1) of
                Undefined \<Rightarrow> Undefined
              | Threw e s \<Rightarrow> Threw e s
              | Returned _ (v2, w2) \<Rightarrow>
                  (case uninitialized_value_construct_n T
                          (ptr_add (GetAddress (data_m v2)) (size_m v2))
                          (new_size - size_m v2) w2 of
                     Undefined \<Rightarrow> Undefined
                   | Threw e w3 \<Rightarrow> Threw e (v2, w3)
                   | Returned _ w3 \<Rightarrow> Returned () (v2\<lparr>size_m := new_size\<rparr>, w3)))
           else Returned () (v1, w1)))"

text \<open>
  The three appending members have the same body and differ in what the new element is
  constructed from. The new element is constructed in the new block before the old elements
  are migrated. When the migration throws, the destructor of the local \<open>new_data\<close> frees
  the new block and the vector has not been touched. The doubled capacity \<open>size_ * 2\<close> is
  computed in \<open>size_t\<close>. The sums \<open>size_ + 1\<close> stay exact: they are reached only after an
  access at index \<open>size_\<close> of an array has succeeded.
\<close>

fun PushBack ::
  "'a elem_type \<Rightarrow> 'a \<Rightarrow> Vector \<times> 'a world \<Rightarrow> (unit, Vector \<times> 'a world) outcome" where
  \<comment> \<open>\<open>PushBack(const T& value)\<close>: \<open>T({value})\<close> when it grows, \<open>T(value)\<close> when it does not\<close>
  "PushBack T val (v, w) =
     (if size_m v = Capacity v then
        (case RawMemory_ctor (if size_m v = 0 then 1 else size_m v * 2 mod size_max) w of
           Undefined \<Rightarrow> Undefined
         | Threw e w1 \<Rightarrow> Threw e (v, w1)
         | Returned new_data w1 \<Rightarrow>
             (case RawMemory_plus new_data (size_m v) of
                None \<Rightarrow> Undefined
              | Some p \<Rightarrow>
                  (case construct_at T p (ListOf val) w1 of
                     Undefined \<Rightarrow> Undefined
                   | Threw e w2 \<Rightarrow> Threw e (v, RawMemory_dtor new_data w2)
                   | Returned _ w2 \<Rightarrow>
                       (case (if nothrow_move_constructible T \<or> \<not> copy_constructible T
                              then uninitialized_move_n T (GetAddress (data_m v)) (size_m v)
                                     (GetAddress new_data) w2
                              else uninitialized_copy_n T (GetAddress (data_m v)) (size_m v)
                                     (GetAddress new_data) w2) of
                          Undefined \<Rightarrow> Undefined
                        | Threw e w3 \<Rightarrow> Threw e (v, RawMemory_dtor new_data w3)
                        | Returned _ w3 \<Rightarrow>
                            (case destroy_n (GetAddress (data_m v)) (size_m v) w3 of
                               None \<Rightarrow> Undefined
                             | Some w4 \<Rightarrow>
                                 (case RawMemory_Swap (data_m v) new_data of
                                    (d, nd) \<Rightarrow>
                                      Returned ()
                                        (v\<lparr>data_m := d, size_m := size_m v + 1\<rparr>,
                                         RawMemory_dtor nd w4)))))))
      else
        (case RawMemory_plus (data_m v) (size_m v) of
           None \<Rightarrow> Undefined
         | Some p \<Rightarrow>
             (case construct_at T p (CopyOf val) w of
                Undefined \<Rightarrow> Undefined
              | Threw e w1 \<Rightarrow> Threw e (v, w1)
              | Returned _ w1 \<Rightarrow>
                  Returned () (v\<lparr>size_m := size_m v + 1\<rparr>, w1))))"

fun PushBack_rv ::
  "'a elem_type \<Rightarrow> 'a \<Rightarrow> Vector \<times> 'a world \<Rightarrow> (unit, Vector \<times> 'a world) outcome" where
  \<comment> \<open>\<open>PushBack(T&& value)\<close>\<close>
  "PushBack_rv T val (v, w) =
     (if size_m v = Capacity v then
        (case RawMemory_ctor (if size_m v = 0 then 1 else size_m v * 2 mod size_max) w of
           Undefined \<Rightarrow> Undefined
         | Threw e w1 \<Rightarrow> Threw e (v, w1)
         | Returned new_data w1 \<Rightarrow>
             (case RawMemory_plus new_data (size_m v) of
                None \<Rightarrow> Undefined
              | Some p \<Rightarrow>
                  (case construct_at T p (MoveOf val) w1 of
                     Undefined \<Rightarrow> Undefined
                   | Threw e w2 \<Rightarrow> Threw e (v, RawMemory_dtor new_data w2)
                   | Returned _ w2 \<Rightarrow>
                       (case (if nothrow_move_constructible T \<or> \<not> copy_constructible T
                              then uninitialized_move_n T (GetAddress (data_m v)) (size_m v)
                                     (GetAddress new_data) w2
                              else uninitialized_copy_n T (GetAddress (data_m v)) (size_m v)
                                     (GetAddress new_data) w2) of
                          Undefined \<Rightarrow> Undefined
                        | Threw e w3 \<Rightarrow> Threw e (v, RawMemory_dtor new_data w3)
                        | Returned _ w3 \<Rightarrow>
                            (case destroy_n (GetAddress (data_m v)) (size_m v) w3 of
                               None \<Rightarrow> Undefined
                             | Some w4 \<Rightarrow>
                                 (case RawMemory_Swap (data_m v) new_data of
                                    (d, nd) \<Rightarrow>
                                      Returned ()
                                        (v\<lparr>data_m := d, size_m := size_m v + 1\<rparr>,
                                         RawMemory_dtor nd w4)))))))
      else
        (case RawMemory_plus (data_m v) (size_m v) of
           None \<Rightarrow> Undefined
         | Some p \<Rightarrow>
             (case construct_at T p (MoveOf val) w of
                Undefined \<Rightarrow> Undefined
              | Threw e w1 \<Rightarrow> Threw e (v, w1)
              | Returned _ w1 \<Rightarrow>
                  Returned () (v\<lparr>size_m := size_m v + 1\<rparr>, w1))))"

fun EmplaceBack ::
  "'a elem_type \<Rightarrow> 'a args \<Rightarrow> Vector \<times> 'a world \<Rightarrow> (ptr, Vector \<times> 'a world) outcome" where
  \<comment> \<open>the result is the address of \<open>data_[size_ - 1]\<close>\<close>
  "EmplaceBack T a (v, w) =
     (if size_m v = Capacity v then
        (case RawMemory_ctor (if size_m v = 0 then 1 else size_m v * 2 mod size_max) w of
           Undefined \<Rightarrow> Undefined
         | Threw e w1 \<Rightarrow> Threw e (v, w1)
         | Returned new_data w1 \<Rightarrow>
             (case RawMemory_plus new_data (size_m v) of
                None \<Rightarrow> Undefined
              | Some p \<Rightarrow>
                  (case construct_at T p a w1 of
                     Undefined \<Rightarrow> Undefined
                   | Threw e w2 \<Rightarrow> Threw e (v, RawMemory_dtor new_data w2)
                   | Returned _ w2 \<Rightarrow>
                       (case (if nothrow_move_constructible T \<or> \<not> copy_constructible T
                              then uninitialized_move_n T (GetAddress (data_m v)) (size_m v)
                                     (GetAddress new_data) w2
                              else uninitialized_copy_n T (GetAddress (data_m v)) (size_m v)
                                     (GetAddress new_data) w2) of
                          Undefined \<Rightarrow> Undefined
                        | Threw e w3 \<Rightarrow> Threw e (v, RawMemory_dtor new_data w3)
                        | Returned _ w3 \<Rightarrow>
                            (case destroy_n (GetAddress (data_m v)) (size_m v) w3 of
                               None \<Rightarrow> Undefined
                             | Some w4 \<Rightarrow>
                                 (case RawMemory_Swap (data_m v) new_data of
                                    (d, nd) \<Rightarrow>
                                      (case RawMemory_index d (size_m v + 1 - 1) of
                                         None \<Rightarrow> Undefined
                                       | Some r \<Rightarrow>
                                           Returned r
                                             (v\<lparr>data_m := d, size_m := size_m v + 1\<rparr>,
                                              RawMemory_dtor nd w4))))))))
      else
        (case RawMemory_plus (data_m v) (size_m v) of
           None \<Rightarrow> Undefined
         | Some p \<Rightarrow>
             (case construct_at T p a w of
                Undefined \<Rightarrow> Undefined
              | Threw e w1 \<Rightarrow> Threw e (v, w1)
              | Returned _ w1 \<Rightarrow>
                  (case RawMemory_index (data_m v) (size_m v + 1 - 1) of
                     None \<Rightarrow> Undefined
                   | Some r \<Rightarrow> Returned r (v\<lparr>size_m := size_m v + 1\<rparr>, w1)))))"

fun PopBack :: "Vector \<times> 'a world \<Rightarrow> (unit, Vector \<times> 'a world) outcome" where
  "PopBack (v, w) =
     (if size_m v > 0 then
        (case destroy_n (ptr_add (GetAddress (data_m v)) (size_m v - 1)) 1 w of
           None \<Rightarrow> Undefined
         | Some w1 \<Rightarrow> Returned () (v\<lparr>size_m := size_m v - 1\<rparr>, w1))
      else Returned () (v, w))"

fun Erase :: "'a elem_type \<Rightarrow> ptr \<Rightarrow> Vector \<times> 'a world \<Rightarrow> (ptr, Vector \<times> 'a world) outcome" where
  \<comment> \<open>\<open>noexcept\<close>: an exception inside would end the program\<close>
  "Erase T pos (v, w) =
     (if size_m v > 0 then
        (case distance (Vector_begin v) pos of
           None \<Rightarrow> Undefined
         | Some index_position \<Rightarrow>
             (case (if nothrow_move_assignable T
                    then std_move T (ptr_add (Vector_begin v) (index_position + 1)) (Vector_end v)
                           (ptr_add (Vector_begin v) index_position) w
                    else Returned () w) of
                Undefined \<Rightarrow> Undefined
              | Threw e w1 \<Rightarrow> Undefined
              | Returned _ w1 \<Rightarrow>
                  (case destroy_n (Ptr (base (Vector_end v)) (off (Vector_end v) - 1)) 1 w1 of
                     None \<Rightarrow> Undefined
                   | Some w2 \<Rightarrow>
                       (if size_m v - 1 > 0
                        then Returned (ptr_add (Vector_begin (v\<lparr>size_m := size_m v - 1\<rparr>)) index_position)
                               (v\<lparr>size_m := size_m v - 1\<rparr>, w2)
                        else Returned (Vector_end (v\<lparr>size_m := size_m v - 1\<rparr>))
                               (v\<lparr>size_m := size_m v - 1\<rparr>, w2)))))
      else Returned (Vector_end v) (v, w))"

fun Emplace ::
  "'a elem_type \<Rightarrow> ptr \<Rightarrow> 'a args \<Rightarrow> Vector \<times> 'a world \<Rightarrow> (ptr, Vector \<times> 'a world) outcome" where
  \<comment> \<open>in the first branch \<open>size_ - index_position\<close> is unsigned: \<open>pos\<close> past the end is undefined\<close>
  "Emplace T pos a (v, w) =
     (if size_m v = Capacity v \<and> size_m v > 0 then
        (case RawMemory_ctor (size_m v * 2 mod size_max) w of
           Undefined \<Rightarrow> Undefined
         | Threw e w1 \<Rightarrow> Threw e (v, w1)
         | Returned new_data w1 \<Rightarrow>
             (case distance (Vector_begin v) pos of
                None \<Rightarrow> Undefined
              | Some index_position \<Rightarrow>
                  (case RawMemory_plus new_data index_position of
                     None \<Rightarrow> Undefined
                   | Some p \<Rightarrow>
                       (case construct_at T p a w1 of
                          Undefined \<Rightarrow> Undefined
                        | Threw e w2 \<Rightarrow> Threw e (v, RawMemory_dtor new_data w2)
                        | Returned _ w2 \<Rightarrow>
                            (case (if nothrow_move_constructible T \<or> \<not> copy_constructible T
                                   then uninitialized_move_n T (GetAddress (data_m v)) index_position
                                          (GetAddress new_data) w2
                                   else uninitialized_copy_n T (GetAddress (data_m v)) index_position
                                          (GetAddress new_data) w2) of
                               Undefined \<Rightarrow> Undefined
                             | Threw e w3 \<Rightarrow> Threw e (v, RawMemory_dtor new_data w3)
                             | Returned _ w3 \<Rightarrow>
                                 (if size_m v < index_position then Undefined
                                  else
                                    (case (if nothrow_move_constructible T \<or> \<not> copy_constructible T
                                           then uninitialized_move_n T
                                                  (ptr_add (GetAddress (data_m v)) index_position)
                                                  (size_m v - index_position)
                                                  (ptr_add (GetAddress new_data) (index_position + 1)) w3
                                           else uninitialized_copy_n T
                                                  (ptr_add (GetAddress (data_m v)) index_position)
                                                  (size_m v - index_position)
                                                  (ptr_add (GetAddress new_data) (index_position + 1)) w3) of
                                       Undefined \<Rightarrow> Undefined
                                     | Threw e w4 \<Rightarrow> Threw e (v, RawMemory_dtor new_data w4)
                                     | Returned _ w4 \<Rightarrow>
                                         (case destroy_n (GetAddress (data_m v)) (size_m v) w4 of
                                            None \<Rightarrow> Undefined
                                          | Some w5 \<Rightarrow>
                                              (case RawMemory_Swap (data_m v) new_data of
                                                 (d, nd) \<Rightarrow>
                                                   Returned
                                                     (ptr_add (Vector_begin (v\<lparr>data_m := d\<rparr>))
                                                        index_position)
                                                     (v\<lparr>data_m := d, size_m := size_m v + 1\<rparr>,
                                                      RawMemory_dtor nd w5))))))))))
      else if size_m v > 0 then
        (case distance (Vector_begin v) pos of
           None \<Rightarrow> Undefined
         | Some index_position \<Rightarrow>
             (case construct T a w of
                Undefined \<Rightarrow> Undefined
              | Threw e w1 \<Rightarrow> Threw e (v, w1)
              | Returned copy_elem w1 \<Rightarrow>
                  (case RawMemory_plus (data_m v) (size_m v) of
                     None \<Rightarrow> Undefined
                   | Some p \<Rightarrow>
                       (case RawMemory_index (data_m v) (size_m v - 1) of
                          None \<Rightarrow> Undefined
                        | Some q \<Rightarrow>
                            (case uninitialized_move_n T q 1 p w1 of
                               Undefined \<Rightarrow> Undefined
                             | Threw e w2 \<Rightarrow> Threw e (v, w2)
                             | Returned _ w2 \<Rightarrow>
                                 (case std_move_backward T
                                         (ptr_add (Vector_begin v) index_position)
                                         (Ptr (base (Vector_end v)) (off (Vector_end v) - 1))
                                         (Vector_end v) w2 of
                                    Undefined \<Rightarrow> Undefined
                                  | Threw e w3 \<Rightarrow> Threw e (v, w3)
                                  | Returned _ w3 \<Rightarrow>
                                      (case RawMemory_index (data_m v) index_position of
                                         None \<Rightarrow> Undefined
                                       | Some r \<Rightarrow>
                                           (case assign_value T r copy_elem w3 of
                                              Undefined \<Rightarrow> Undefined
                                            | Threw e w4 \<Rightarrow> Threw e (v, w4)
                                            | Returned _ w4 \<Rightarrow>
                                                Returned
                                                  (ptr_add (Vector_begin v) index_position)
                                                  (v\<lparr>size_m := size_m v + 1\<rparr>, w4)))))))))
      else
        (case EmplaceBack T a (v, w) of
           Undefined \<Rightarrow> Undefined
         | Threw e s \<Rightarrow> Threw e s
         | Returned _ (v', w') \<Rightarrow> Returned (GetAddress (data_m v')) (v', w')))"

definition Insert ::
  "'a elem_type \<Rightarrow> ptr \<Rightarrow> 'a \<Rightarrow> Vector \<times> 'a world \<Rightarrow> (ptr, Vector \<times> 'a world) outcome" where
  \<comment> \<open>\<open>Insert(pos, const T&)\<close>: \<open>std::move\<close> of a const lvalue still selects the copy constructor\<close>
  "Insert T pos val s = Emplace T pos (CopyOf val) s"

definition Insert_rv ::
  "'a elem_type \<Rightarrow> ptr \<Rightarrow> 'a \<Rightarrow> Vector \<times> 'a world \<Rightarrow> (ptr, Vector \<times> 'a world) outcome" where
  \<comment> \<open>\<open>Insert(pos, T&&)\<close>\<close>
  "Insert_rv T pos val s = Emplace T pos (MoveOf val) s"

declare Reserve.simps [simp del] Resize.simps [simp del] PushBack.simps [simp del]
  PushBack_rv.simps [simp del] EmplaceBack.simps [simp del] PopBack.simps [simp del]
  Erase.simps [simp del] Emplace.simps [simp del] copy_assign.simps [simp del]
  move_assign.simps [simp del]

section \<open>Invariant, contents and notions used in the statements\<close>

text \<open>
  \<open>fits n w\<close>: an array of \<open>n\<close> cells has a size in bytes that is a value of \<open>size_t\<close>,
  so that \<open>n * sizeof(T)\<close> does not wrap. For \<open>n = 0\<close> nothing is asked of \<open>sizeof(T)\<close>;
  otherwise it is positive, as it is for every object type.

  A vector is well formed in a world when \<open>size_ \<le> capacity_\<close>, its buffer points to an
  array of \<open>capacity_\<close> cells, which is an array that \<open>operator new\<close> can have provided (its
  size in bytes is a value of \<open>size_t\<close>), and the first \<open>size_\<close> cells hold live objects.
  Its contents are the values of these objects, in index order.
\<close>

definition fits :: "nat \<Rightarrow> 'a world \<Rightarrow> bool" where
  "fits n w = (n = 0 \<or> 0 < sizeof_T w \<and> n * sizeof_T w < size_max)"

definition wf :: "Vector \<Rightarrow> 'a world \<Rightarrow> bool" where
  "wf v w =
     (size_m v \<le> capacity_m (data_m v) \<and>
      fits (capacity_m (data_m v)) w \<and>
      (case cells_at (buffer_m (data_m v)) w of
         None \<Rightarrow> False
       | Some cs \<Rightarrow>
           length cs = capacity_m (data_m v) \<and>
           list_all (\<lambda>c. c \<noteq> None) (take (size_m v) cs)))"

definition elems :: "Vector \<Rightarrow> 'a world \<Rightarrow> 'a list" where
  "elems v w =
     (case cells_at (buffer_m (data_m v)) w of
        None \<Rightarrow> []
      | Some cs \<Rightarrow> map the (take (size_m v) cs))"

text \<open>
  \<open>fails T e n w\<close>: one of the next \<open>n\<close> occurrences of \<open>e\<close> throws. \<open>no_faults w\<close>:
  nothing is scheduled to throw. \<open>old_storage_kept w w'\<close>: every array that existed in \<open>w\<close>
  is the same in \<open>w'\<close>, a store of the same element type.
\<close>

definition fails :: "'a elem_type \<Rightarrow> event \<Rightarrow> nat \<Rightarrow> 'a world \<Rightarrow> bool" where
  "fails T e n w =
     (can_throw T e \<and> (case budget w e of None \<Rightarrow> False | Some k \<Rightarrow> k < n))"

definition no_faults :: "'a world \<Rightarrow> bool" where
  "no_faults w = (budget w = (\<lambda>e. None))"

definition old_storage_kept :: "'a world \<Rightarrow> 'a world \<Rightarrow> bool" where
  "old_storage_kept w w' =
     (sizeof_T w' = sizeof_T w \<and> (\<forall>a. a \<le> length (heap w) \<longrightarrow> cells_at a w' = cells_at a w))"

definition reloc_event :: "'a elem_type \<Rightarrow> event" where
  \<comment> \<open>the constructor the \<open>if constexpr\<close> of the growing members selects\<close>
  "reloc_event T =
     (if nothrow_move_constructible T \<or> \<not> copy_constructible T then MoveCtor else CopyCtor)"

text \<open>
  The growing members share their tail: migrate the elements, destroy the old ones, swap
  the buffers. \<open>migrate_k\<close> is that tail with what follows it as a parameter, and
  \<open>append_k\<close> the body of the three appending members with their two results as
  parameters. Both serve the proofs only; the members are shown to be instances of them.
\<close>

definition migrate_k ::
  "'a elem_type \<Rightarrow> Vector \<Rightarrow> RawMemory \<Rightarrow> 'a world \<Rightarrow>
   (RawMemory \<Rightarrow> RawMemory \<Rightarrow> 'a world \<Rightarrow> ('r, Vector \<times> 'a world) outcome) \<Rightarrow>
   ('r, Vector \<times> 'a world) outcome" where
  "migrate_k T v new_data w2 K =
     (case (if nothrow_move_constructible T \<or> \<not> copy_constructible T
            then uninitialized_move_n T (GetAddress (data_m v)) (size_m v)
                   (GetAddress new_data) w2
            else uninitialized_copy_n T (GetAddress (data_m v)) (size_m v)
                   (GetAddress new_data) w2) of
        Undefined \<Rightarrow> Undefined
      | Threw e w3 \<Rightarrow> Threw e (v, RawMemory_dtor new_data w3)
      | Returned _ w3 \<Rightarrow>
          (case destroy_n (GetAddress (data_m v)) (size_m v) w3 of
             None \<Rightarrow> Undefined
           | Some w4 \<Rightarrow>
               (case RawMemory_Swap (data_m v) new_data of
                  (d, nd) \<Rightarrow> K d nd w4)))"

definition append_k ::
  "'a elem_type \<Rightarrow> 'a args \<Rightarrow> Vector \<Rightarrow> 'a world \<Rightarrow>
   (RawMemory \<Rightarrow> RawMemory \<Rightarrow> 'a world \<Rightarrow> ('r, Vector \<times> 'a world) outcome) \<Rightarrow>
   ('a world \<Rightarrow> ('r, Vector \<times> 'a world) outcome) \<Rightarrow>
   ('r, Vector \<times> 'a world) outcome" where
  "append_k T a v w K1 K2 =
     (if size_m v = Capacity v then
        (case RawMemory_ctor (if size_m v = 0 then 1 else size_m v * 2 mod size_max) w of
           Undefined \<Rightarrow> Undefined
         | Threw e w1 \<Rightarrow> Threw e (v, w1)
         | Returned new_data w1 \<Rightarrow>
             (case RawMemory_plus new_data (size_m v) of
                None \<Rightarrow> Undefined
              | Some p \<Rightarrow>
                  (case construct_at T p a w1 of
                     Undefined \<Rightarrow> Undefined
                   | Threw e w2 \<Rightarrow> Threw e (v, RawMemory_dtor new_data w2)
                   | Returned _ w2 \<Rightarrow> migrate_k T v new_data w2 K1)))
      else
        (case RawMemory_plus (data_m v) (size_m v) of
           None \<Rightarrow> Undefined
         | Some p \<Rightarrow>
             (case construct_at T p a w of
                Undefined \<Rightarrow> Undefined
              | Threw e w1 \<Rightarrow> Threw e (v, w1)
              | Returned _ w1 \<Rightarrow> K2 w1)))"

definition appended :: "Vector \<Rightarrow> 'a world \<Rightarrow> Vector" where
  \<comment> \<open>the vector an appending member leaves when it returns\<close>
  "appended v w =
     (if size_m v = capacity_m (data_m v)
      then v\<lparr>data_m := \<lparr>buffer_m = Suc (length (heap w)),
                         capacity_m = (if size_m v = 0 then 1 else size_m v * 2)\<rparr>,
             size_m := size_m v + 1\<rparr>
      else v\<lparr>size_m := size_m v + 1\<rparr>)"

section \<open>Concrete element types, vectors and worlds\<close>

text \<open>
  \<open>T_int\<close> behaves like \<open>int\<close>: nothing throws and a moved-from object keeps its value.
  \<open>T_throwing\<close> is a copyable class whose copy and move operations may throw.
  \<open>T_listed\<close> is a class holding an \<open>int\<close> with a constructor from
  \<open>std::initializer_list\<close> that adds \<open>100\<close> to the element it is given. \<open>T_vector\<close> is
  \<open>Vector<int>\<close> as an element type, each value an array whose capacity is its size: its
  move constructor takes the array of the source, and its move assignment does so only
  when the source has more elements than the destination has room for. The stores of the
  examples have cells of four bytes, and of \<open>24\<close> bytes where the cells hold vectors.
\<close>

definition T_int :: "int elem_type" where
  "T_int = \<lparr>nothrow_move_constructible = True, copy_constructible = True,
            nothrow_move_assignable = True, moved_from = (\<lambda>x. x), value_init = 0,
            list_init = (\<lambda>x. x), move_assigned = (\<lambda>d s. (s, s))\<rparr>"

definition T_throwing :: "int elem_type" where
  "T_throwing = \<lparr>nothrow_move_constructible = False, copy_constructible = True,
                 nothrow_move_assignable = False, moved_from = (\<lambda>x. x), value_init = 0,
                 list_init = (\<lambda>x. x), move_assigned = (\<lambda>d s. (s, s))\<rparr>"

definition T_listed :: "int elem_type" where
  "T_listed = \<lparr>nothrow_move_constructible = True, copy_constructible = True,
               nothrow_move_assignable = True, moved_from = (\<lambda>x. x), value_init = 0,
               list_init = (\<lambda>x. x + 100), move_assigned = (\<lambda>d s. (s, s))\<rparr>"

definition T_vector :: "int list elem_type" where
  "T_vector = \<lparr>nothrow_move_constructible = True, copy_constructible = True,
               nothrow_move_assignable = True, moved_from = (\<lambda>x. []), value_init = [],
               list_init = (\<lambda>x. x),
               move_assigned = (\<lambda>d s. if length d < length s then (s, []) else (d, s))\<rparr>"

definition quiet :: "'a block list \<Rightarrow> 'a world" where
  \<comment> \<open>a store in which nothing is scheduled to throw\<close>
  "quiet h = \<lparr>heap = h, budget = (\<lambda>e. None), sizeof_T = 4\<rparr>"

definition faulty :: "'a block list \<Rightarrow> event \<Rightarrow> nat \<Rightarrow> 'a world" where
  \<comment> \<open>a store in which the occurrence of \<open>e\<close> after the next \<open>k\<close> ones throws\<close>
  "faulty h e k = \<lparr>heap = h, budget = (\<lambda>e'. None)(e := Some k), sizeof_T = 4\<rparr>"

definition vec :: "addr \<Rightarrow> nat \<Rightarrow> nat \<Rightarrow> Vector" where
  \<comment> \<open>the vector object with the given buffer, capacity and size\<close>
  "vec b c n = \<lparr>data_m = \<lparr>buffer_m = b, capacity_m = c\<rparr>, size_m = n\<rparr>"

datatype 'a op = Push 'a | PushRv 'a | Pop

fun run :: "'a elem_type \<Rightarrow> 'a op list \<Rightarrow> Vector \<times> 'a world \<Rightarrow> (unit, Vector \<times> 'a world) outcome" where
  \<comment> \<open>the calls one after the other; the first exception ends the sequence\<close>
  "run T [] s = Returned () s"
| "run T (Push x # ops) s =
     (case PushBack T x s of
        Returned _ s' \<Rightarrow> run T ops s'
      | Threw e s' \<Rightarrow> Threw e s'
      | Undefined \<Rightarrow> Undefined)"
| "run T (PushRv x # ops) s =
     (case PushBack_rv T x s of
        Returned _ s' \<Rightarrow> run T ops s'
      | Threw e s' \<Rightarrow> Threw e s'
      | Undefined \<Rightarrow> Undefined)"
| "run T (Pop # ops) s =
     (case PopBack s of
        Returned _ s' \<Rightarrow> run T ops s'
      | Threw e s' \<Rightarrow> Threw e s'
      | Undefined \<Rightarrow> Undefined)"

fun model :: "'a op list \<Rightarrow> 'a list \<Rightarrow> 'a list" where
  \<comment> \<open>the sequence of values the calls describe: a pop of the empty sequence does nothing\<close>
  "model [] xs = xs"
| "model (Push x # ops) xs = model ops (xs @ [x])"
| "model (PushRv x # ops) xs = model ops (xs @ [x])"
| "model (Pop # ops) xs = model ops (butlast xs)"

fun pushes :: "'a op list \<Rightarrow> nat" where
  "pushes [] = 0"
| "pushes (Push x # ops) = Suc (pushes ops)"
| "pushes (PushRv x # ops) = Suc (pushes ops)"
| "pushes (Pop # ops) = pushes ops"

fun pops :: "'a op list \<Rightarrow> nat" where
  "pops [] = 0"
| "pops (Push x # ops) = pops ops"
| "pops (PushRv x # ops) = pops ops"
| "pops (Pop # ops) = Suc (pops ops)"

fun never_underflows :: "'a op list \<Rightarrow> nat \<Rightarrow> bool" where
  \<comment> \<open>no \<open>Pop\<close> meets an empty sequence, starting from \<open>n\<close> elements\<close>
  "never_underflows [] n = True"
| "never_underflows (Push x # ops) n = never_underflows ops (Suc n)"
| "never_underflows (PushRv x # ops) n = never_underflows ops (Suc n)"
| "never_underflows (Pop # ops) n = (0 < n \<and> never_underflows ops (n - 1))"

fun after :: "('r, 's) outcome \<Rightarrow> 's option" where
  \<comment> \<open>the state the caller sees after a call that returned or threw\<close>
  "after (Returned r s) = Some s"
| "after (Threw e s) = Some s"
| "after Undefined = None"

definition forget :: "('r, 's) outcome \<Rightarrow> (unit, 's) outcome" where
  \<comment> \<open>the call with its result dropped\<close>
  "forget r = (case r of Returned _ s \<Rightarrow> Returned () s | Threw e s \<Rightarrow> Threw e s | Undefined \<Rightarrow> Undefined)"

datatype 'a call =
    CReserve nat | CResize nat | CPushBack 'a | CPushBack_rv 'a | CEmplaceBack "'a args"
  | CPopBack | CEmplace ptr "'a args" | CInsert ptr 'a | CInsert_rv ptr 'a | CErase ptr

fun perform ::
  "'a elem_type \<Rightarrow> 'a call \<Rightarrow> Vector \<times> 'a world \<Rightarrow> (unit, Vector \<times> 'a world) outcome" where
  \<comment> \<open>a call of a member that acts on one vector\<close>
  "perform T (CReserve n) s = Reserve T n s"
| "perform T (CResize n) s = Resize T n s"
| "perform T (CPushBack x) s = PushBack T x s"
| "perform T (CPushBack_rv x) s = PushBack_rv T x s"
| "perform T (CEmplaceBack a) s = forget (EmplaceBack T a s)"
| "perform T CPopBack s = PopBack s"
| "perform T (CEmplace pos a) s = forget (Emplace T pos a s)"
| "perform T (CInsert pos x) s = forget (Insert T pos x s)"
| "perform T (CInsert_rv pos x) s = forget (Insert_rv T pos x s)"
| "perform T (CErase pos) s = forget (Erase T pos s)"

definition spent :: "nat option \<Rightarrow> nat \<Rightarrow> nat option" where
  \<comment> \<open>the budget left after \<open>n\<close> occurrences that did not throw\<close>
  "spent b n = (case b of None \<Rightarrow> None | Some k \<Rightarrow> Some (k - n))"

section \<open>Lemmas about the store and the primitives\<close>

lemma cells_at_0 [simp]: "cells_at 0 w = Some []"
  by (simp add: cells_at_def)

lemma cells_at_budget [simp]: "cells_at a (w\<lparr>budget := b\<rparr>) = cells_at a w"
  by (simp add: cells_at_def)

lemma cells_at_bound: "cells_at a w = Some cs \<Longrightarrow> a \<le> length (heap w)"
  by (simp add: cells_at_def split: if_splits)

lemma cells_at_heap_eq: "heap w' = heap w \<Longrightarrow> cells_at a w' = cells_at a w"
  by (simp add: cells_at_def)

lemma budget_set_cells [simp]: "budget (set_cells a cs w) = budget w"
  by (simp add: set_cells_def)

lemma sizeof_set_cells [simp]: "sizeof_T (set_cells a cs w) = sizeof_T w"
  by (simp add: set_cells_def)

lemma sizeof_tick [simp]: "sizeof_T (snd (tick e w)) = sizeof_T w"
  by (simp add: tick_def split: option.splits nat.splits)

lemma sizeof_ticks [simp]: "sizeof_T (snd (ticks e n w)) = sizeof_T w"
proof (induction n arbitrary: w)
  case 0
  show ?case by simp
next
  case (Suc n)
  obtain b w1 where t: "tick e w = (b, w1)" by (cases "tick e w")
  have h1: "sizeof_T w1 = sizeof_T w" using sizeof_tick [of e w] t by simp
  obtain k w2 where r: "ticks e n w1 = (k, w2)" by (cases "ticks e n w1")
  have h2: "sizeof_T w2 = sizeof_T w1" using Suc.IH [of w1] r by simp
  show ?case using t r h1 h2 by (cases b) simp_all
qed

lemma sizeof_elem_ticks [simp]: "sizeof_T (snd (elem_ticks T e n w)) = sizeof_T w"
  by (simp add: elem_ticks_def)

lemma sizeof_Deallocate [simp]: "sizeof_T (Deallocate b w) = sizeof_T w"
  by (simp add: Deallocate_def)

lemma sizeof_RawMemory_dtor [simp]: "sizeof_T (RawMemory_dtor m w) = sizeof_T w"
  by (simp add: RawMemory_dtor_def)

lemma fits_sizeof: "sizeof_T w' = sizeof_T w \<Longrightarrow> fits n w' = fits n w"
  by (simp add: fits_def)

lemma size_max_pos: "0 < size_max"
  by (simp add: size_max_def)

lemma fits_0 [simp]: "fits 0 w"
  by (simp add: fits_def)

lemma fits_pos:
  "fits n w \<Longrightarrow> 0 < n \<Longrightarrow> 0 < sizeof_T w \<and> n * sizeof_T w < size_max"
  by (simp add: fits_def)

lemma fits_mono: "fits n w \<Longrightarrow> m \<le> n \<Longrightarrow> fits m w"
proof (cases "m = 0")
  case True
  then show ?thesis by simp
next
  case False
  assume f: "fits n w" and le: "m \<le> n"
  from False le have "0 < n" by simp
  with f have p: "0 < sizeof_T w" and b: "n * sizeof_T w < size_max"
    by (simp_all add: fits_def)
  have "m * sizeof_T w \<le> n * sizeof_T w" using le by simp
  then have "m * sizeof_T w < size_max" using b by (rule le_less_trans)
  then show ?thesis using p by (simp add: fits_def)
qed

lemma fits_lt: "fits n w \<Longrightarrow> n < size_max"
proof (cases "n = 0")
  case True
  then show ?thesis by (simp add: size_max_pos)
next
  case False
  assume f: "fits n w"
  with False have p: "1 \<le> sizeof_T w" and b: "n * sizeof_T w < size_max"
    by (simp_all add: fits_def)
  from p have "n * 1 \<le> n * sizeof_T w" by (rule mult_le_mono2)
  then have "n * 1 < size_max" using b by (rule le_less_trans)
  then show ?thesis by simp
qed

lemma fits_1: "fits n w \<Longrightarrow> 0 < n \<Longrightarrow> fits 1 w"
proof -
  assume f: "fits n w" and "0 < n"
  then have "1 \<le> n" by simp
  with f show ?thesis by (rule fits_mono)
qed

lemma new_cells_fits: "fits n w \<Longrightarrow> new_cells n w = n"
  by (auto simp: fits_def new_cells_def)

lemma new_cells_le: "new_cells n w \<le> n"
proof (cases "sizeof_T w = 0")
  case True
  then show ?thesis by (simp add: new_cells_def)
next
  case False
  have "n * sizeof_T w mod size_max \<le> n * sizeof_T w" by simp
  then have "(n * sizeof_T w mod size_max) div sizeof_T w \<le> (n * sizeof_T w) div sizeof_T w"
    by (rule div_le_mono)
  then show ?thesis using False by (simp add: new_cells_def)
qed

lemma length_heap_set_cells [simp]: "length (heap (set_cells a cs w)) = length (heap w)"
  by (simp add: set_cells_def)

lemma cells_at_set_cells:
  "cells_at b w = Some c0 \<Longrightarrow>
   cells_at a (set_cells b cs w) = (if a = b \<and> b \<noteq> 0 then Some cs else cells_at a w)"
  by (auto simp: cells_at_def set_cells_def nth_list_update split: if_splits block.splits)

lemma tick_heap [simp]: "heap (snd (tick e w)) = heap w"
  by (simp add: tick_def split: option.splits nat.splits)

lemma ticks_heap [simp]: "heap (snd (ticks e n w)) = heap w"
proof (induction n arbitrary: w)
  case 0
  show ?case by simp
next
  case (Suc n)
  obtain b w1 where t: "tick e w = (b, w1)" by (cases "tick e w")
  have h1: "heap w1 = heap w" using tick_heap [of e w] t by simp
  obtain k w2 where r: "ticks e n w1 = (k, w2)" by (cases "ticks e n w1")
  have h2: "heap w2 = heap w1" using Suc.IH [of w1] r by simp
  show ?case using t r h1 h2 by (cases b) simp_all
qed

lemma ticks_le: "fst (ticks e n w) \<le> n"
proof (induction n arbitrary: w)
  case 0
  show ?case by simp
next
  case (Suc n)
  obtain b w1 where t: "tick e w = (b, w1)" by (cases "tick e w")
  obtain k w2 where r: "ticks e n w1 = (k, w2)" by (cases "ticks e n w1")
  show ?case using t r Suc.IH [of w1] by (cases b) simp_all
qed

lemma tick_None: "budget w e = None \<Longrightarrow> tick e w = (True, w)"
  by (simp add: tick_def)

lemma ticks_None: "budget w e = None \<Longrightarrow> ticks e n w = (n, w)"
  by (induction n) (simp_all add: tick_None)

lemma tick_other: "e' \<noteq> e \<Longrightarrow> budget (snd (tick e w)) e' = budget w e'"
  by (simp add: tick_def split: option.splits nat.splits)

lemma ticks_other: "e' \<noteq> e \<Longrightarrow> budget (snd (ticks e n w)) e' = budget w e'"
proof (induction n arbitrary: w)
  case 0
  show ?case by simp
next
  case (Suc n)
  obtain b w1 where t: "tick e w = (b, w1)" by (cases "tick e w")
  have h1: "budget w1 e' = budget w e'" using tick_other [OF Suc.prems, of w] t by simp
  obtain k w2 where r: "ticks e n w1 = (k, w2)" by (cases "ticks e n w1")
  have h2: "budget w2 e' = budget w1 e'" using Suc.IH [OF Suc.prems, of w1] r by simp
  show ?case using t r h1 h2 by (cases b) simp_all
qed

lemma ticks_Some:
  "budget w e = Some k \<Longrightarrow>
   ticks e n w =
     (if n \<le> k then (n, w\<lparr>budget := (budget w)(e := Some (k - n))\<rparr>)
      else (k, w\<lparr>budget := (budget w)(e := None)\<rparr>))"
proof (induction n arbitrary: w k)
  case 0
  then show ?case by (simp add: fun_upd_idem)
next
  case (Suc n)
  show ?case
  proof (cases k)
    case 0
    then show ?thesis using Suc.prems by (simp add: tick_def)
  next
    case (Suc j)
    let ?w1 = "w\<lparr>budget := (budget w)(e := Some j)\<rparr>"
    have t: "tick e w = (True, ?w1)" using Suc.prems Suc by (simp add: tick_def)
    have b1: "budget ?w1 e = Some j" by simp
    have r: "ticks e n ?w1 =
        (if n \<le> j then (n, w\<lparr>budget := (budget w)(e := Some (j - n))\<rparr>)
         else (j, w\<lparr>budget := (budget w)(e := None)\<rparr>))"
      using Suc.IH [OF b1] by simp
    have "ticks e (Suc n) w = (case ticks e n ?w1 of (k, w'') \<Rightarrow> (Suc k, w''))"
      using t by simp
    then show ?thesis using r Suc by (simp add: fun_upd_def [symmetric])
  qed
qed

lemma ticks_fst: "fst (ticks e n w) = (case budget w e of None \<Rightarrow> n | Some k \<Rightarrow> min n k)"
  by (cases "budget w e") (simp_all add: ticks_None ticks_Some)

lemma ticks_budget:
  "budget (snd (ticks e n w)) =
     (budget w)(e := (case budget w e of None \<Rightarrow> None
                      | Some k \<Rightarrow> if n \<le> k then Some (k - n) else None))"
  by (cases "budget w e") (simp_all add: ticks_None ticks_Some fun_upd_idem)

lemma tick_ticks: "tick e w = (fst (ticks e 1 w) = 1, snd (ticks e 1 w))"
  by (cases "tick e w"; cases "fst (tick e w)") auto

lemma elem_ticks_lt: "fst (elem_ticks T e n w) < n \<longleftrightarrow> fails T e n w"
  by (auto simp: elem_ticks_def fails_def ticks_fst split: option.splits)

lemma elem_ticks_fst:
  "fst (elem_ticks T e n w) =
     (if can_throw T e then (case budget w e of None \<Rightarrow> n | Some k \<Rightarrow> min n k) else n)"
  by (simp add: elem_ticks_def ticks_fst)

lemma elem_ticks_budget:
  "budget (snd (elem_ticks T e n w)) =
     (if can_throw T e
      then (budget w)(e := (case budget w e of None \<Rightarrow> None
                            | Some k \<Rightarrow> if n \<le> k then Some (k - n) else None))
      else budget w)"
  by (simp add: elem_ticks_def ticks_budget)

lemma tick_fst: "fst (tick e w) \<longleftrightarrow> budget w e \<noteq> Some 0"
  by (simp add: tick_def split: option.splits nat.splits)

lemma tick_budget:
  "budget (snd (tick e w)) =
     (budget w)(e := (case budget w e of None \<Rightarrow> None
                      | Some k \<Rightarrow> if 1 \<le> k then Some (k - 1) else None))"
  by (auto simp: tick_def fun_upd_idem split: option.splits nat.splits)

lemma fails_budget_eq: "budget w' e = budget w e \<Longrightarrow> fails T e n w' = fails T e n w"
  by (simp add: fails_def)

lemma cells_at_set_cells' [simp]:
  "cells_at b w \<noteq> None \<Longrightarrow>
   cells_at a (set_cells b cs w) = (if a = b \<and> b \<noteq> 0 then Some cs else cells_at a w)"
  using cells_at_set_cells [of b w _ a cs] by (cases "cells_at b w") auto

lemma cells_at_Deallocate [simp]:
  "cells_at a (Deallocate b w) = (if a = b \<and> b \<noteq> 0 then None else cells_at a w)"
  by (auto simp: cells_at_def Deallocate_def nth_list_update)

lemma length_heap_Deallocate [simp]: "length (heap (Deallocate b w)) = length (heap w)"
  by (simp add: Deallocate_def)

lemma budget_Deallocate [simp]: "budget (Deallocate b w) = budget w"
  by (simp add: Deallocate_def)

lemma cells_at_ticks [simp]: "cells_at a (snd (ticks e n w)) = cells_at a w"
  by (rule cells_at_heap_eq) simp

lemma heap_elem_ticks [simp]: "heap (snd (elem_ticks T e n w)) = heap w"
  by (simp add: elem_ticks_def)

lemma cells_at_elem_ticks [simp]: "cells_at a (snd (elem_ticks T e n w)) = cells_at a w"
  by (rule cells_at_heap_eq) simp

lemma elem_ticks_le: "fst (elem_ticks T e n w) \<le> n"
  by (simp add: elem_ticks_def ticks_le)

lemma length_heap_budget [simp]: "length (heap (w\<lparr>budget := b\<rparr>)) = length (heap w)"
  by simp

lemma set_cells_budget: "set_cells a cs (w\<lparr>budget := b\<rparr>) = (set_cells a cs w)\<lparr>budget := b\<rparr>"
  by (simp add: set_cells_def)

lemma load_n_Some_length: "load_n p n w = Some xs \<Longrightarrow> length xs = n"
  by (auto simp: load_n_def split: option.splits if_splits)

lemma load_n_heap_eq: "heap w' = heap w \<Longrightarrow> load_n p n w' = load_n p n w"
  by (simp add: load_n_def cells_at_heap_eq [of w' w])

lemma load_n_cells:
  "cells_at (base p) w = Some cs \<Longrightarrow>
   load_n p n w =
     (if off p + n \<le> length cs \<and> list_all (\<lambda>c. c \<noteq> None) (take n (drop (off p) cs))
      then Some (map the (take n (drop (off p) cs))) else None)"
  by (simp add: load_n_def)

lemma store_n_cells:
  "cells_at (base p) w = Some cs \<Longrightarrow>
   store_n p xs w =
     (if off p + length xs \<le> length cs
      then Some (set_cells (base p) (take (off p) cs @ xs @ drop (off p + length xs) cs) w)
      else None)"
  by (simp add: store_n_def)

lemma map_Some_the: "list_all (\<lambda>c. c \<noteq> None) cs \<Longrightarrow> map Some (map the cs) = cs"
  by (induction cs) auto

lemma uninitialized_copy_n_eq:
  assumes "load_n src n w = Some xs"
    and "cells_at (base dst) w = Some ds"
    and "off dst + n \<le> length ds"
  shows "uninitialized_copy_n T src n dst w =
     (if fst (elem_ticks T CopyCtor n w) < n
      then Threw ElemThrow (snd (elem_ticks T CopyCtor n w))
      else Returned ()
             ((set_cells (base dst) (take (off dst) ds @ map Some xs @ drop (off dst + n) ds) w)
                \<lparr>budget := budget (snd (elem_ticks T CopyCtor n w))\<rparr>))"
  using assms load_n_Some_length [OF assms(1)]
  by (simp add: uninitialized_copy_n_def store_n_cells case_prod_beta)

lemma uninitialized_move_n_eq:
  assumes "load_n src n w = Some xs"
    and "cells_at (base src) w = Some cs"
    and "cells_at (base dst) w = Some ds"
    and "off dst + n \<le> length ds"
    and "base dst \<noteq> base src"
  shows "uninitialized_move_n T src n dst w =
     (if fst (elem_ticks T MoveCtor n w) < n
      then Threw ElemThrow
             (set_cells (base src)
                (take (off src) cs
                 @ map (\<lambda>x. Some (moved_from T x)) (take (fst (elem_ticks T MoveCtor n w)) xs)
                 @ drop (off src + fst (elem_ticks T MoveCtor n w)) cs)
                (snd (elem_ticks T MoveCtor n w)))
      else Returned ()
             (set_cells (base dst) (take (off dst) ds @ map Some xs @ drop (off dst + n) ds)
               (set_cells (base src)
                 (take (off src) cs @ map (\<lambda>x. Some (moved_from T x)) xs @ drop (off src + n) cs)
                 (snd (elem_ticks T MoveCtor n w)))))"
proof -
  have len: "length xs = n" by (rule load_n_Some_length [OF assms(1)])
  have bound: "off src + n \<le> length cs"
    using assms(1,2) by (simp add: load_n_cells split: if_splits)
  have k: "fst (elem_ticks T MoveCtor n w) \<le> n" by (rule elem_ticks_le)
  show ?thesis
    using assms len bound k
    by (simp add: uninitialized_move_n_def store_n_cells case_prod_beta min_absorb2)
qed

lemma destroy_n_eq:
  assumes "cells_at (base p) w = Some cs"
    and "off p + n \<le> length cs"
    and "list_all (\<lambda>c. c \<noteq> None) (take n (drop (off p) cs))"
  shows "destroy_n p n w =
     Some (set_cells (base p) (take (off p) cs @ replicate n None @ drop (off p + n) cs) w)"
  using assms by (simp add: destroy_n_def load_n_cells store_n_cells)

lemma wf_cells:
  assumes "wf v w"
  obtains cs where "cells_at (buffer_m (data_m v)) w = Some cs"
    and "length cs = capacity_m (data_m v)"
    and "list_all (\<lambda>c. c \<noteq> None) (take (size_m v) cs)"
    and "size_m v \<le> capacity_m (data_m v)"
    and "elems v w = map the (take (size_m v) cs)"
  using assms by (auto simp: wf_def elems_def split: option.splits)

lemma wf_bound: "wf v w \<Longrightarrow> buffer_m (data_m v) \<le> length (heap w)"
  by (erule wf_cells) (rule cells_at_bound)

lemma wf_fits: "wf v w \<Longrightarrow> fits (capacity_m (data_m v)) w"
  by (simp add: wf_def)

lemma RawMemory_Swap_eq [simp]: "RawMemory_Swap a b = (b, a)"
  by (simp add: RawMemory_Swap_def)

lemma migrate_result_aux:
  assumes wf: "wf v w"
    and ds: "cells_at (buffer_m nd) w = Some ds"
    and room: "size_m v \<le> length ds"
    and fresh: "buffer_m nd \<noteq> buffer_m (data_m v)"
    and nz: "buffer_m nd \<noteq> 0"
  shows "if fst (elem_ticks T (if nothrow_move_constructible T \<or> \<not> copy_constructible T
                              then MoveCtor else CopyCtor) (size_m v) w) < size_m v
         then (\<exists>w'. migrate_k T v nd w K = Threw ElemThrow (v, w') \<and>
                 cells_at (buffer_m nd) w' = None \<and>
                 (copy_constructible T \<longrightarrow>
                    (\<forall>a. a \<noteq> buffer_m nd \<longrightarrow> cells_at a w' = cells_at a w)) \<and>
                 length (heap w') = length (heap w) \<and> sizeof_T w' = sizeof_T w)
         else (\<exists>w4. migrate_k T v nd w K = K nd (data_m v) w4 \<and>
                 cells_at (buffer_m nd) w4 = Some (map Some (elems v w) @ drop (size_m v) ds) \<and>
                 (\<forall>a. a \<noteq> buffer_m nd \<and> a \<noteq> buffer_m (data_m v) \<longrightarrow>
                    cells_at a w4 = cells_at a w) \<and>
                 cells_at (buffer_m (data_m v)) w4 \<noteq> None \<and>
                 length (heap w4) = length (heap w) \<and>
                 budget w4 =
                   budget (snd (elem_ticks T (if nothrow_move_constructible T \<or> \<not> copy_constructible T
                                              then MoveCtor else CopyCtor) (size_m v) w)) \<and>
                 sizeof_T w4 = sizeof_T w)"
proof -
  obtain cs where cs: "cells_at (buffer_m (data_m v)) w = Some cs"
    and len: "length cs = capacity_m (data_m v)"
    and live: "list_all (\<lambda>c. c \<noteq> None) (take (size_m v) cs)"
    and sz: "size_m v \<le> capacity_m (data_m v)"
    and el: "elems v w = map the (take (size_m v) cs)"
    using wf by (rule wf_cells)
  let ?src = "GetAddress (data_m v)" and ?dst = "GetAddress nd"
  have ld: "load_n ?src (size_m v) w = Some (elems v w)"
    using cs len live sz el by (simp add: load_n_cells GetAddress_def)
  have lenx: "length (elems v w) = size_m v"
    using len sz el by simp
  show ?thesis
  proof (cases "nothrow_move_constructible T \<or> \<not> copy_constructible T")
    case False
    have cp: "uninitialized_copy_n T ?src (size_m v) ?dst w =
       (if fst (elem_ticks T CopyCtor (size_m v) w) < size_m v
        then Threw ElemThrow (snd (elem_ticks T CopyCtor (size_m v) w))
        else Returned ()
               ((set_cells (buffer_m nd) (map Some (elems v w) @ drop (size_m v) ds) w)
                  \<lparr>budget := budget (snd (elem_ticks T CopyCtor (size_m v) w))\<rparr>))"
      using uninitialized_copy_n_eq [OF ld, of ?dst ds T] ds room
      by (simp add: GetAddress_def)
    show ?thesis
    proof (cases "fst (elem_ticks T CopyCtor (size_m v) w) < size_m v")
      case True
      then show ?thesis
        using False cp ds nz
        by (simp add: migrate_k_def RawMemory_dtor_def)
    next
      case ok: False
      let ?w3 = "(set_cells (buffer_m nd) (map Some (elems v w) @ drop (size_m v) ds) w)
                  \<lparr>budget := budget (snd (elem_ticks T CopyCtor (size_m v) w))\<rparr>"
      have c3: "cells_at (buffer_m (data_m v)) ?w3 = Some cs"
        using cs ds fresh by simp
      have d: "destroy_n ?src (size_m v) ?w3 =
          Some (set_cells (buffer_m (data_m v)) (replicate (size_m v) None @ drop (size_m v) cs) ?w3)"
        using destroy_n_eq [of ?src ?w3 cs "size_m v"] c3 len sz live
        by (simp add: GetAddress_def)
      let ?w4 = "set_cells (buffer_m (data_m v)) (replicate (size_m v) None @ drop (size_m v) cs) ?w3"
      have e: "migrate_k T v nd w K = K nd (data_m v) ?w4"
        using False cp ok d by (simp add: migrate_k_def)
      have p: "cells_at (buffer_m nd) ?w4 = Some (map Some (elems v w) @ drop (size_m v) ds) \<and>
          (\<forall>a. a \<noteq> buffer_m nd \<and> a \<noteq> buffer_m (data_m v) \<longrightarrow> cells_at a ?w4 = cells_at a w) \<and>
          cells_at (buffer_m (data_m v)) ?w4 \<noteq> None \<and>
          length (heap ?w4) = length (heap w) \<and>
          budget ?w4 = budget (snd (elem_ticks T CopyCtor (size_m v) w)) \<and>
          sizeof_T ?w4 = sizeof_T w"
        using ds cs fresh nz c3 by simp
      show ?thesis
        using False ok e p by (simp del: cells_at_set_cells') (rule exI [of _ ?w4], simp)
    qed
  next
    case True
    let ?k = "fst (elem_ticks T MoveCtor (size_m v) w)"
    let ?wt = "snd (elem_ticks T MoveCtor (size_m v) w)"
    have mv: "uninitialized_move_n T ?src (size_m v) ?dst w =
       (if ?k < size_m v
        then Threw ElemThrow
               (set_cells (buffer_m (data_m v))
                  (map (\<lambda>x. Some (moved_from T x)) (take ?k (elems v w)) @ drop ?k cs) ?wt)
        else Returned ()
               (set_cells (buffer_m nd) (map Some (elems v w) @ drop (size_m v) ds)
                 (set_cells (buffer_m (data_m v))
                   (map (\<lambda>x. Some (moved_from T x)) (elems v w) @ drop (size_m v) cs) ?wt)))"
      using uninitialized_move_n_eq [OF ld, of cs ?dst ds T] ds cs room fresh
      by (simp add: GetAddress_def)
    show ?thesis
    proof (cases "?k < size_m v")
      case thr: True
      have "\<not> nothrow_move_constructible T"
        using thr by (auto simp: elem_ticks_def can_throw_def)
      then have "\<not> copy_constructible T" using True by simp
      then show ?thesis
        using True mv thr ds cs nz fresh
        by (simp add: migrate_k_def RawMemory_dtor_def)
    next
      case ok: False
      let ?w1 = "set_cells (buffer_m (data_m v))
                   (map (\<lambda>x. Some (moved_from T x)) (elems v w) @ drop (size_m v) cs) ?wt"
      let ?w3 = "set_cells (buffer_m nd) (map Some (elems v w) @ drop (size_m v) ds) ?w1"
      have c1: "cells_at (buffer_m nd) ?w1 = Some ds"
        using cs ds fresh by simp
      have c3: "cells_at (buffer_m (data_m v)) ?w3 =
          Some (if buffer_m (data_m v) = 0 then cs
                else map (\<lambda>x. Some (moved_from T x)) (elems v w) @ drop (size_m v) cs)"
        using cs ds fresh c1 by auto
      have e0: "buffer_m (data_m v) = 0 \<Longrightarrow> size_m v = 0"
        using cs len sz by simp
      have d: "destroy_n ?src (size_m v) ?w3 =
          Some (set_cells (buffer_m (data_m v)) (replicate (size_m v) None @ drop (size_m v) cs) ?w3)"
      proof (cases "buffer_m (data_m v) = 0")
        case True
        then show ?thesis
          using destroy_n_eq [of ?src ?w3 cs "size_m v"] c3 e0 by (simp add: GetAddress_def)
      next
        case False
        then show ?thesis
          using destroy_n_eq [of ?src ?w3 _ "size_m v"] c3 len sz lenx
          by (simp add: GetAddress_def list_all_iff)
      qed
      let ?w4 = "set_cells (buffer_m (data_m v)) (replicate (size_m v) None @ drop (size_m v) cs) ?w3"
      have e: "migrate_k T v nd w K = K nd (data_m v) ?w4"
        using True mv ok d by (simp add: migrate_k_def)
      have p: "cells_at (buffer_m nd) ?w4 = Some (map Some (elems v w) @ drop (size_m v) ds) \<and>
          (\<forall>a. a \<noteq> buffer_m nd \<and> a \<noteq> buffer_m (data_m v) \<longrightarrow> cells_at a ?w4 = cells_at a w) \<and>
          cells_at (buffer_m (data_m v)) ?w4 \<noteq> None \<and>
          length (heap ?w4) = length (heap w) \<and>
          budget ?w4 = budget (snd (elem_ticks T MoveCtor (size_m v) w)) \<and>
          sizeof_T ?w4 = sizeof_T w"
        using ds cs fresh nz c1 c3 by simp
      show ?thesis
        using True ok e p by (simp del: cells_at_set_cells') (rule exI [of _ ?w4], simp)
    qed
  qed
qed

lemmas migrate_result = migrate_result_aux [unfolded elem_ticks_lt]

lemma tick_cells [simp]: "cells_at a (snd (tick e w)) = cells_at a w"
  by (rule cells_at_heap_eq) simp

lemma cells_at_append:
  "cells_at a (w\<lparr>heap := heap w @ [Block cs]\<rparr>) =
     (if a = Suc (length (heap w)) then Some cs else cells_at a w)"
  by (auto simp: cells_at_def nth_append)

lemma RawMemory_ctor_result:
  assumes "n \<noteq> 0"
  shows "if fst (tick Alloc w)
         then (\<exists>w1. RawMemory_ctor n w =
                   Returned \<lparr>buffer_m = Suc (length (heap w)), capacity_m = n\<rparr> w1 \<and>
                 (\<forall>a. cells_at a w1 =
                    (if a = Suc (length (heap w)) then Some (replicate (new_cells n w) None)
                     else cells_at a w)) \<and>
                 length (heap w1) = Suc (length (heap w)) \<and>
                 budget w1 = budget (snd (tick Alloc w)) \<and>
                 sizeof_T w1 = sizeof_T w)
         else RawMemory_ctor n w = Threw BadAlloc (snd (tick Alloc w))"
proof -
  obtain b wt where t: "tick Alloc w = (b, wt)" by (cases "tick Alloc w")
  have h: "heap wt = heap w" using tick_heap [of Alloc w] t by simp
  have z: "sizeof_T wt = sizeof_T w" using sizeof_tick [of Alloc w] t by simp
  have c: "\<And>a. cells_at a wt = cells_at a w" using h by (rule cells_at_heap_eq)
  show ?thesis
    using assms t h z c cells_at_append [of _ wt]
    by (cases b) (simp_all add: RawMemory_ctor_def Allocate_def)
qed

lemma RawMemory_ctor_0 [simp]:
  "RawMemory_ctor 0 w = Returned \<lparr>buffer_m = 0, capacity_m = 0\<rparr> w"
  by (simp add: RawMemory_ctor_def Allocate_def)

lemma wf_cong:
  "cells_at (buffer_m (data_m v)) w' = cells_at (buffer_m (data_m v)) w \<Longrightarrow>
   sizeof_T w' = sizeof_T w \<Longrightarrow> wf v w' = wf v w"
  by (simp add: wf_def fits_def)

lemma wf_same_cells:
  "wf v w \<Longrightarrow> cells_at (buffer_m (data_m v)) w' = cells_at (buffer_m (data_m v)) w \<Longrightarrow>
   sizeof_T w' = sizeof_T w \<Longrightarrow> wf v w'"
  using wf_cong [of v w' w] by simp

lemma elems_cong:
  "cells_at (buffer_m (data_m v)) w' = cells_at (buffer_m (data_m v)) w \<Longrightarrow> elems v w' = elems v w"
  by (simp add: elems_def)

lemma length_elems: "wf v w \<Longrightarrow> length (elems v w) = size_m v"
  by (erule wf_cells) simp

lemma Reserve_migrate:
  "Reserve T n (v, w) =
     (if n \<le> capacity_m (data_m v) then Returned () (v, w)
      else (case RawMemory_ctor n w of
              Undefined \<Rightarrow> Undefined
            | Threw e w1 \<Rightarrow> Threw e (v, w1)
            | Returned new_data w1 \<Rightarrow>
                migrate_k T v new_data w1
                  (\<lambda>d nd w3. Returned () (v\<lparr>data_m := d\<rparr>, RawMemory_dtor nd w3))))"
  by (simp only: Reserve.simps migrate_k_def)

text \<open>
  What the constructor of \<open>RawMemory\<close> does for \<open>n \<noteq> 0\<close>: the block it provides has
  \<open>new_cells n w\<close> cells, which are \<open>n\<close> cells when \<open>n\<close> fits.
\<close>

lemma RawMemory_ctor_cases_gen [consumes 1, case_names bad_alloc ok]:
  assumes "n \<noteq> 0"
  obtains (bad_alloc) wt where "budget w Alloc = Some 0"
      and "RawMemory_ctor n w = Threw BadAlloc wt" and "heap wt = heap w"
      and "sizeof_T wt = sizeof_T w"
    | (ok) w1 where "budget w Alloc \<noteq> Some 0"
      and "RawMemory_ctor n w = Returned \<lparr>buffer_m = Suc (length (heap w)), capacity_m = n\<rparr> w1"
      and "\<And>a. cells_at a w1 =
             (if a = Suc (length (heap w)) then Some (replicate (new_cells n w) None)
              else cells_at a w)"
      and "length (heap w1) = Suc (length (heap w))"
      and "budget w1 = budget (snd (tick Alloc w))"
      and "\<And>e. e \<noteq> Alloc \<Longrightarrow> budget w1 e = budget w e"
      and "sizeof_T w1 = sizeof_T w"
proof (cases "fst (tick Alloc w)")
  case True
  then obtain w1 where r: "RawMemory_ctor n w =
        Returned \<lparr>buffer_m = Suc (length (heap w)), capacity_m = n\<rparr> w1"
    and c: "\<And>a. cells_at a w1 =
           (if a = Suc (length (heap w)) then Some (replicate (new_cells n w) None)
            else cells_at a w)"
    and l: "length (heap w1) = Suc (length (heap w))"
    and b: "budget w1 = budget (snd (tick Alloc w))"
    and z: "sizeof_T w1 = sizeof_T w"
    using RawMemory_ctor_result [OF assms, of w] by auto
  have nz: "budget w Alloc \<noteq> Some 0" using True by (simp add: tick_fst)
  have o: "\<And>e. e \<noteq> Alloc \<Longrightarrow> budget w1 e = budget w e"
    using b by (simp add: tick_other)
  show ?thesis by (rule ok [OF nz r c l b o z])
next
  case False
  then have "RawMemory_ctor n w = Threw BadAlloc (snd (tick Alloc w))"
    using RawMemory_ctor_result [OF assms, of w] by simp
  moreover have "budget w Alloc = Some 0" using False by (simp add: tick_fst)
  ultimately show ?thesis using bad_alloc [of "snd (tick Alloc w)"] by simp
qed

lemma RawMemory_ctor_cases [consumes 2, case_names bad_alloc ok]:
  assumes "n \<noteq> 0" and "fits n w"
  obtains (bad_alloc) wt where "budget w Alloc = Some 0"
      and "RawMemory_ctor n w = Threw BadAlloc wt" and "heap wt = heap w"
      and "sizeof_T wt = sizeof_T w"
    | (ok) w1 where "budget w Alloc \<noteq> Some 0"
      and "RawMemory_ctor n w = Returned \<lparr>buffer_m = Suc (length (heap w)), capacity_m = n\<rparr> w1"
      and "\<And>a. cells_at a w1 =
             (if a = Suc (length (heap w)) then Some (replicate n None) else cells_at a w)"
      and "length (heap w1) = Suc (length (heap w))"
      and "budget w1 = budget (snd (tick Alloc w))"
      and "\<And>e. e \<noteq> Alloc \<Longrightarrow> budget w1 e = budget w e"
      and "sizeof_T w1 = sizeof_T w"
  using assms(1)
proof (cases rule: RawMemory_ctor_cases_gen [where w = w])
  case (bad_alloc wt)
  then show ?thesis by (rule that(1))
next
  case (ok w1)
  show ?thesis
    using ok new_cells_fits [OF assms(2)] by (intro that(2) [of w1]) simp_all
qed

lemma reloc_event_neq [simp]: "reloc_event T \<noteq> Alloc"
  by (simp add: reloc_event_def)

lemmas migrate_result' = migrate_result [folded reloc_event_def]





lemma PushBack_append:
  "PushBack T x (v, w) =
     append_k T (if size_m v = Capacity v then ListOf x else CopyOf x) v w
       (\<lambda>d nd w4. Returned () (v\<lparr>data_m := d, size_m := size_m v + 1\<rparr>, RawMemory_dtor nd w4))
       (\<lambda>w1. Returned () (v\<lparr>size_m := size_m v + 1\<rparr>, w1))"
proof (cases "size_m v = Capacity v")
  case True
  then show ?thesis
    by (simp only: PushBack.simps append_k_def migrate_k_def if_True simp_thms)
next
  case False
  then show ?thesis
    by (simp only: PushBack.simps append_k_def migrate_k_def if_False simp_thms)
qed

lemma PushBack_rv_append:
  "PushBack_rv T x (v, w) =
     append_k T (MoveOf x) v w
       (\<lambda>d nd w4. Returned () (v\<lparr>data_m := d, size_m := size_m v + 1\<rparr>, RawMemory_dtor nd w4))
       (\<lambda>w1. Returned () (v\<lparr>size_m := size_m v + 1\<rparr>, w1))"
  by (simp only: PushBack_rv.simps append_k_def migrate_k_def)

lemma EmplaceBack_append:
  "EmplaceBack T a (v, w) =
     append_k T a v w
       (\<lambda>d nd w4. case RawMemory_index d (size_m v + 1 - 1) of
                     None \<Rightarrow> Undefined
                   | Some r \<Rightarrow>
                       Returned r (v\<lparr>data_m := d, size_m := size_m v + 1\<rparr>, RawMemory_dtor nd w4))
       (\<lambda>w1. case RawMemory_index (data_m v) (size_m v + 1 - 1) of
                None \<Rightarrow> Undefined
              | Some r \<Rightarrow> Returned r (v\<lparr>size_m := size_m v + 1\<rparr>, w1))"
  by (simp only: EmplaceBack.simps append_k_def migrate_k_def)

lemma construct_eq:
  "construct T a w =
     (if fails T (arg_event a) 1 w
      then Threw ElemThrow (snd (elem_ticks T (arg_event a) 1 w))
      else Returned (arg_value T a) (snd (elem_ticks T (arg_event a) 1 w)))"
  using elem_ticks_lt [of T "arg_event a" 1 w]
  by (simp add: construct_def case_prod_beta del: One_nat_def)

lemma construct_at_eq:
  assumes "cells_at (base p) w = Some cs" and "off p < length cs"
  shows "construct_at T p a w =
     (if fails T (arg_event a) 1 w
      then Threw ElemThrow (snd (elem_ticks T (arg_event a) 1 w))
      else Returned ()
             ((set_cells (base p) (cs[off p := Some (arg_value T a)]) w)
                \<lparr>budget := budget (snd (elem_ticks T (arg_event a) 1 w))\<rparr>))"
  using assms
  by (simp add: construct_at_def construct_eq store_n_cells upd_conv_take_nth_drop del: One_nat_def)

lemma drop_replicate_update:
  "i < n \<Longrightarrow> drop i ((replicate n y)[i := x]) = x # replicate (n - Suc i) y"
  by (simp add: upd_conv_take_nth_drop min_absorb2)

lemma append_k_cases [consumes 2,
    case_names bad_alloc ctor_throw_grow reloc_throw grown ctor_throw plain]:
  assumes wf: "wf v w"
    and fits: "size_m v = capacity_m (data_m v) \<longrightarrow>
                 fits (if size_m v = 0 then 1 else size_m v * 2) w"
  obtains
    (bad_alloc) wt where "size_m v = capacity_m (data_m v)" and "budget w Alloc = Some 0"
      and "append_k T a v w K1 K2 = Threw BadAlloc (v, wt)" and "heap wt = heap w"
      and "sizeof_T wt = sizeof_T w"
  | (ctor_throw_grow) w' where "size_m v = capacity_m (data_m v)" and "budget w Alloc \<noteq> Some 0"
      and "fails T (arg_event a) 1 w"
      and "append_k T a v w K1 K2 = Threw ElemThrow (v, w')"
      and "\<And>b. b \<noteq> Suc (length (heap w)) \<Longrightarrow> cells_at b w' = cells_at b w"
      and "length (heap w') = Suc (length (heap w))"
      and "sizeof_T w' = sizeof_T w"
  | (reloc_throw) w2 w' where "size_m v = capacity_m (data_m v)" and "budget w Alloc \<noteq> Some 0"
      and "\<not> fails T (arg_event a) 1 w"
      and "budget w2 = budget (snd (elem_ticks T (arg_event a) 1 (snd (tick Alloc w))))"
      and "fails T (reloc_event T) (size_m v) w2"
      and "append_k T a v w K1 K2 = Threw ElemThrow (v, w')"
      and "copy_constructible T \<Longrightarrow>
             (\<And>b. b \<noteq> Suc (length (heap w)) \<Longrightarrow> cells_at b w' = cells_at b w)"
      and "length (heap w') = Suc (length (heap w))"
      and "sizeof_T w' = sizeof_T w"
  | (grown) w2 w4 where "size_m v = capacity_m (data_m v)" and "budget w Alloc \<noteq> Some 0"
      and "\<not> fails T (arg_event a) 1 w"
      and "budget w2 = budget (snd (elem_ticks T (arg_event a) 1 (snd (tick Alloc w))))"
      and "\<not> fails T (reloc_event T) (size_m v) w2"
      and "append_k T a v w K1 K2 =
             K1 \<lparr>buffer_m = Suc (length (heap w)),
                 capacity_m = (if size_m v = 0 then 1 else size_m v * 2)\<rparr> (data_m v) w4"
      and "cells_at (Suc (length (heap w))) w4 =
             Some (map Some (elems v w) @ Some (arg_value T a) #
                   replicate ((if size_m v = 0 then 1 else size_m v * 2) - Suc (size_m v)) None)"
      and "\<And>b. b \<noteq> Suc (length (heap w)) \<Longrightarrow> b \<noteq> buffer_m (data_m v) \<Longrightarrow>
             cells_at b w4 = cells_at b w"
      and "cells_at (buffer_m (data_m v)) w4 \<noteq> None"
      and "length (heap w4) = Suc (length (heap w))"
      and "budget w4 = budget (snd (elem_ticks T (reloc_event T) (size_m v) w2))"
      and "sizeof_T w4 = sizeof_T w"
  | (ctor_throw) w' where "size_m v < capacity_m (data_m v)"
      and "fails T (arg_event a) 1 w"
      and "append_k T a v w K1 K2 = Threw ElemThrow (v, w')" and "heap w' = heap w"
      and "sizeof_T w' = sizeof_T w"
  | (plain) w1 cs where "size_m v < capacity_m (data_m v)"
      and "\<not> fails T (arg_event a) 1 w"
      and "append_k T a v w K1 K2 = K2 w1"
      and "cells_at (buffer_m (data_m v)) w = Some cs"
      and "cells_at (buffer_m (data_m v)) w1 = Some (cs[size_m v := Some (arg_value T a)])"
      and "\<And>b. b \<noteq> buffer_m (data_m v) \<Longrightarrow> cells_at b w1 = cells_at b w"
      and "length (heap w1) = length (heap w)"
      and "budget w1 = budget (snd (elem_ticks T (arg_event a) 1 w))"
      and "sizeof_T w1 = sizeof_T w"
proof -
  obtain cs where cs: "cells_at (buffer_m (data_m v)) w = Some cs"
    and len: "length cs = capacity_m (data_m v)"
    and sz: "size_m v \<le> capacity_m (data_m v)"
    using wf by (rule wf_cells)
  show ?thesis
  proof (cases "size_m v = capacity_m (data_m v)")
    case False
    then have lt: "size_m v < capacity_m (data_m v)" using sz by simp
    let ?p = "Ptr (buffer_m (data_m v)) (size_m v)"
    have c: "construct_at T ?p a w =
       (if fails T (arg_event a) 1 w
        then Threw ElemThrow (snd (elem_ticks T (arg_event a) 1 w))
        else Returned ()
               ((set_cells (buffer_m (data_m v)) (cs[size_m v := Some (arg_value T a)]) w)
                  \<lparr>budget := budget (snd (elem_ticks T (arg_event a) 1 w))\<rparr>))"
      using construct_at_eq [of ?p w cs T a] cs len lt by simp
    have bz: "buffer_m (data_m v) \<noteq> 0"
    proof
      assume "buffer_m (data_m v) = 0"
      then have "cs = []" using cs by simp
      then show False using len lt by simp
    qed
    show ?thesis
    proof (cases "fails T (arg_event a) 1 w")
      case True
      show ?thesis
        using True lt c False
        by (intro ctor_throw [of "snd (elem_ticks T (arg_event a) 1 w)"])
          (simp_all add: append_k_def Capacity_def RawMemory_plus_def)
    next
      case nf: False
      show ?thesis
        using nf lt c False cs bz
        by (intro plain [of "(set_cells (buffer_m (data_m v)) (cs[size_m v := Some (arg_value T a)]) w)
                  \<lparr>budget := budget (snd (elem_ticks T (arg_event a) 1 w))\<rparr>" cs])
          (simp_all add: append_k_def Capacity_def RawMemory_plus_def)
    qed
  next
    case True
    let ?n = "if size_m v = 0 then 1 else size_m v * 2"
    let ?nd = "\<lparr>buffer_m = Suc (length (heap w)), capacity_m = ?n\<rparr>"
    have n0: "?n \<noteq> 0" by simp
    have room: "size_m v < ?n" by simp
    have fn: "fits ?n w" using fits True by simp
    have "?n < size_max" using fn by (rule fits_lt)
    then have md: "size_m v * 2 mod size_max = size_m v * 2"
      by (cases "size_m v = 0") simp_all
    have nn: "(if size_m v = 0 then 1 else size_m v * 2 mod size_max) = ?n"
      using md by simp
    have ak: "append_k T a v w K1 K2 =
        (case RawMemory_ctor ?n w of
           Undefined \<Rightarrow> Undefined
         | Threw e w1 \<Rightarrow> Threw e (v, w1)
         | Returned new_data w1 \<Rightarrow>
             (case RawMemory_plus new_data (size_m v) of
                None \<Rightarrow> Undefined
              | Some p \<Rightarrow>
                  (case construct_at T p a w1 of
                     Undefined \<Rightarrow> Undefined
                   | Threw e w2 \<Rightarrow> Threw e (v, RawMemory_dtor new_data w2)
                   | Returned u w2 \<Rightarrow> migrate_k T v new_data w2 K1)))"
      unfolding append_k_def Capacity_def nn using True by (simp only: if_True simp_thms)
    from n0 fn show ?thesis
    proof (cases rule: RawMemory_ctor_cases [where w = w])
      case (bad_alloc wt)
      show ?thesis
        using bad_alloc True ak
        by (intro that(1) [of wt]) simp_all
    next
      case (ok w1)
      have bb: "buffer_m (data_m v) \<le> length (heap w)" using wf by (rule wf_bound)
      have same: "cells_at (buffer_m (data_m v)) w1 = cells_at (buffer_m (data_m v)) w"
        using ok(3) bb by simp
      let ?p = "Ptr (Suc (length (heap w))) (size_m v)"
      let ?ds = "(replicate ?n None)[size_m v := Some (arg_value T a)]"
      let ?wt = "snd (elem_ticks T (arg_event a) 1 w1)"
      have c: "construct_at T ?p a w1 =
         (if fails T (arg_event a) 1 w1
          then Threw ElemThrow ?wt
          else Returned () ((set_cells (Suc (length (heap w))) ?ds w1)\<lparr>budget := budget ?wt\<rparr>))"
        using construct_at_eq [of ?p w1 "replicate ?n None" T a] ok(3) room by simp
      have f: "fails T (arg_event a) 1 w1 = fails T (arg_event a) 1 w"
        by (rule fails_budget_eq) (cases a; simp add: ok(6))
      have r: "append_k T a v w K1 K2 =
          (case construct_at T ?p a w1 of
             Undefined \<Rightarrow> Undefined
           | Threw e w2 \<Rightarrow> Threw e (v, RawMemory_dtor ?nd w2)
           | Returned _ w2 \<Rightarrow> migrate_k T v ?nd w2 K1)"
        using ok(2) room ak
        by (simp add: RawMemory_plus_def)
      show ?thesis
      proof (cases "fails T (arg_event a) 1 w")
        case True
        show ?thesis
          using True f r c ok \<open>size_m v = capacity_m (data_m v)\<close>
          by (intro ctor_throw_grow [of "RawMemory_dtor ?nd ?wt"])
            (simp_all add: RawMemory_dtor_def)
      next
        case nf: False
        let ?w2 = "(set_cells (Suc (length (heap w))) ?ds w1)\<lparr>budget := budget ?wt\<rparr>"
        have r2: "append_k T a v w K1 K2 = migrate_k T v ?nd ?w2 K1"
          using nf f r c by simp
        have c2: "\<And>b. cells_at b ?w2 =
            (if b = Suc (length (heap w)) then Some ?ds else cells_at b w)"
          using ok(3) by simp
        have s2: "cells_at (buffer_m (data_m v)) ?w2 = cells_at (buffer_m (data_m v)) w"
          using bb by (simp only: c2) simp
        have z2: "sizeof_T ?w2 = sizeof_T w" using ok(7) by simp
        have wf2: "wf v ?w2"
          using wf s2 z2 by (rule wf_same_cells)
        have el2: "elems v ?w2 = elems v w"
          using s2 by (rule elems_cong)
        have b2: "budget ?w2 = budget (snd (elem_ticks T (arg_event a) 1 (snd (tick Alloc w))))"
          using ok(5) by (simp add: elem_ticks_budget)
        have l2: "length (heap ?w2) = Suc (length (heap w))" using ok(4) by simp
        have pre: "cells_at (buffer_m ?nd) ?w2 = Some ?ds"
          "size_m v \<le> length ?ds"
          "buffer_m ?nd \<noteq> buffer_m (data_m v)" "buffer_m ?nd \<noteq> 0"
          using c2 bb by simp_all
        have dr: "drop (size_m v) ?ds = Some (arg_value T a) # replicate (?n - Suc (size_m v)) None"
          using room by (rule drop_replicate_update)
        note m = migrate_result' [OF wf2 pre, of T K1]
        show ?thesis
        proof (cases "fails T (reloc_event T) (size_m v) ?w2")
          case True
          then obtain w' where "migrate_k T v ?nd ?w2 K1 = Threw ElemThrow (v, w')"
            and "copy_constructible T \<longrightarrow>
                   (\<forall>b. b \<noteq> Suc (length (heap w)) \<longrightarrow> cells_at b w' = cells_at b ?w2)"
            and "length (heap w') = length (heap ?w2)"
            and "sizeof_T w' = sizeof_T ?w2"
            using m by auto
          then show ?thesis
            using True nf ok(1) r2 c2 b2 l2 z2 \<open>size_m v = capacity_m (data_m v)\<close>
            by (intro reloc_throw [of ?w2 w']) simp_all
        next
          case False
          then obtain w4 where "migrate_k T v ?nd ?w2 K1 = K1 ?nd (data_m v) w4"
            and "cells_at (Suc (length (heap w))) w4 =
                   Some (map Some (elems v ?w2) @ drop (size_m v) ?ds)"
            and "\<forall>b. b \<noteq> Suc (length (heap w)) \<and> b \<noteq> buffer_m (data_m v) \<longrightarrow>
                   cells_at b w4 = cells_at b ?w2"
            and "cells_at (buffer_m (data_m v)) w4 \<noteq> None"
            and "length (heap w4) = length (heap ?w2)"
            and "budget w4 = budget (snd (elem_ticks T (reloc_event T) (size_m v) ?w2))"
            and "sizeof_T w4 = sizeof_T ?w2"
            using m by auto
          then show ?thesis
            using False nf ok(1) r2 c2 b2 l2 z2 el2 dr \<open>size_m v = capacity_m (data_m v)\<close>
            by (intro grown [of ?w2 w4]) simp_all
        qed
      qed
    qed
  qed
qed

lemma new_cells_unfit_1: "\<not> fits 1 w \<Longrightarrow> new_cells 1 w = 0"
proof (cases "sizeof_T w = 0")
  case True
  then show ?thesis by (simp add: new_cells_def)
next
  case False
  assume "\<not> fits 1 w"
  with False have ge: "size_max \<le> sizeof_T w" by (simp add: fits_def)
  have "sizeof_T w mod size_max < size_max" using size_max_pos by simp
  then have "sizeof_T w mod size_max < sizeof_T w" using ge by (rule less_le_trans)
  then show ?thesis by (simp add: new_cells_def)
qed

lemma new_cells_wrapped:
  assumes old: "fits s w" and pos: "0 < s" and nf: "\<not> fits (s * 2) w"
    and lt: "s * 2 < size_max"
  shows "new_cells (s * 2) w < s"
proof -
  let ?c = "sizeof_T w"
  have c: "0 < ?c" and sc: "s * ?c < size_max" using fits_pos [OF old pos] by simp_all
  have ge: "size_max \<le> s * 2 * ?c" using c pos nf by (simp add: fits_def)
  have lt2: "s * 2 * ?c < 2 * size_max" using sc by simp
  have "s * 2 * ?c mod size_max = s * 2 * ?c - size_max"
    using ge lt2 by (simp add: mod_if)
  moreover have "s * 2 * ?c - size_max < s * ?c" using sc ge by simp
  ultimately have "s * 2 * ?c mod size_max < s * ?c" by simp
  then show ?thesis using c by (simp add: new_cells_def div_less_iff_less_mult)
qed

lemma append_k_overflow:
  assumes wf: "wf v w" and full: "size_m v = capacity_m (data_m v)"
    and nf: "\<not> fits (if size_m v = 0 then 1 else size_m v * 2) w"
  shows "append_k T a v w K1 K2 = Undefined \<or>
         (budget w Alloc = Some 0 \<and>
          (\<exists>wt. append_k T a v w K1 K2 = Threw BadAlloc (v, wt) \<and> heap wt = heap w \<and>
                sizeof_T wt = sizeof_T w))"
proof (cases "size_m v = 0")
  case True
  then have nf1: "\<not> fits 1 w" using nf by simp
  have one: "(1::nat) \<noteq> 0" by simp
  have ak: "append_k T a v w K1 K2 =
        (case RawMemory_ctor 1 w of
           Undefined \<Rightarrow> Undefined
         | Threw e w1 \<Rightarrow> Threw e (v, w1)
         | Returned new_data w1 \<Rightarrow>
             (case RawMemory_plus new_data (size_m v) of
                None \<Rightarrow> Undefined
              | Some p \<Rightarrow>
                  (case construct_at T p a w1 of
                     Undefined \<Rightarrow> Undefined
                   | Threw e w2 \<Rightarrow> Threw e (v, RawMemory_dtor new_data w2)
                   | Returned u w2 \<Rightarrow> migrate_k T v new_data w2 K1)))"
    unfolding append_k_def Capacity_def using full True by (simp only: if_True simp_thms)
  from one show ?thesis
  proof (cases rule: RawMemory_ctor_cases_gen [where w = w])
    case (bad_alloc wt)
    then show ?thesis using ak by simp
  next
    case (ok w1)
    have c: "cells_at (Suc (length (heap w))) w1 = Some []"
      using ok(3) new_cells_unfit_1 [OF nf1] by simp
    have "store_n (Ptr (Suc (length (heap w))) 0) [Some (arg_value T a)] w1 = None"
      using c by (simp add: store_n_cells)
    then have "construct_at T (Ptr (Suc (length (heap w))) 0) a w1 = Undefined"
      by (simp add: construct_at_def)
    then show ?thesis using ak ok(2) True by (simp add: RawMemory_plus_def)
  qed
next
  case s0: False
  let ?s = "size_m v"
  have old: "fits ?s w" using wf full by (simp add: wf_def)
  have sp: "0 < ?s" using s0 by simp
  have slt: "?s < size_max" using old by (rule fits_lt)
  have nf2: "\<not> fits (?s * 2) w" using nf s0 by simp
  let ?n = "?s * 2 mod size_max"
  have ak: "append_k T a v w K1 K2 =
        (case RawMemory_ctor ?n w of
           Undefined \<Rightarrow> Undefined
         | Threw e w1 \<Rightarrow> Threw e (v, w1)
         | Returned new_data w1 \<Rightarrow>
             (case RawMemory_plus new_data ?s of
                None \<Rightarrow> Undefined
              | Some p \<Rightarrow>
                  (case construct_at T p a w1 of
                     Undefined \<Rightarrow> Undefined
                   | Threw e w2 \<Rightarrow> Threw e (v, RawMemory_dtor new_data w2)
                   | Returned u w2 \<Rightarrow> migrate_k T v new_data w2 K1)))"
    unfolding append_k_def Capacity_def using full s0 by (simp only: if_True if_False simp_thms)
  show ?thesis
  proof (cases "?n = 0")
    case True
    then show ?thesis using ak s0 by (simp add: RawMemory_plus_def)
  next
    case False
    from False show ?thesis
    proof (cases rule: RawMemory_ctor_cases_gen [where w = w])
      case (bad_alloc wt)
      then show ?thesis using ak by simp
    next
      case (ok w1)
      show ?thesis
      proof (cases "?s \<le> ?n")
        case False
        then show ?thesis using ak ok(2) by (simp add: RawMemory_plus_def)
      next
        case True
        have lt: "?s * 2 < size_max"
        proof (rule ccontr)
          assume "\<not> ?s * 2 < size_max"
          then have "?n = ?s * 2 - size_max" using slt by (simp add: mod_if)
          with True have "?s \<le> ?s * 2 - size_max" by (simp only:)
          then show False using slt s0 by arith
        qed
        then have n: "?n = ?s * 2" by simp
        have k: "new_cells ?n w < ?s" unfolding n using old sp nf2 lt by (rule new_cells_wrapped)
        have c: "cells_at (Suc (length (heap w))) w1 = Some (replicate (new_cells ?n w) None)"
          using ok(3) by simp
        have "store_n (Ptr (Suc (length (heap w))) ?s) [Some (arg_value T a)] w1 = None"
          using c k by (simp add: store_n_cells)
        then have "construct_at T (Ptr (Suc (length (heap w))) ?s) a w1 = Undefined"
          by (simp add: construct_at_def)
        then show ?thesis using ak ok(2) True by (simp add: RawMemory_plus_def)
      qed
    qed
  qed
qed

lemma no_faults_fails [simp]: "no_faults w \<Longrightarrow> \<not> fails T e n w"
  by (simp add: no_faults_def fails_def)

lemma no_faults_elem_ticks [simp]:
  "no_faults w \<Longrightarrow> budget (snd (elem_ticks T e n w)) = budget w"
  by (simp add: no_faults_def elem_ticks_budget)

lemma no_faults_tick [simp]: "no_faults w \<Longrightarrow> budget (snd (tick e w)) = budget w"
  by (simp add: no_faults_def tick_budget)

lemma no_faults_budget_eq: "budget w' = budget w \<Longrightarrow> no_faults w' = no_faults w"
  by (simp add: no_faults_def)

lemma no_faults_Alloc [simp]: "no_faults w \<Longrightarrow> budget w Alloc \<noteq> Some 0"
  by (simp add: no_faults_def)

lemma wf_intro:
  assumes "cells_at (buffer_m (data_m v)) w = Some (map Some xs @ rest)"
    and "size_m v = length xs"
    and "capacity_m (data_m v) = length xs + length rest"
    and "fits (capacity_m (data_m v)) w"
  shows "wf v w"
  using assms by (simp add: wf_def list_all_iff comp_def)

lemma elems_intro:
  assumes "cells_at (buffer_m (data_m v)) w = Some (map Some xs @ rest)"
    and "size_m v = length xs"
    and "capacity_m (data_m v) = length xs + length rest"
  shows "elems v w = xs"
  using assms by (simp add: elems_def)

lemmas wf_elems_intro = wf_intro elems_intro

lemma wf_shape:
  assumes "wf v w"
  obtains rest where "cells_at (buffer_m (data_m v)) w = Some (map Some (elems v w) @ rest)"
    and "length rest = capacity_m (data_m v) - size_m v"
    and "length (elems v w) = size_m v"
proof -
  obtain cs where cs: "cells_at (buffer_m (data_m v)) w = Some cs"
    and len: "length cs = capacity_m (data_m v)"
    and live: "list_all (\<lambda>c. c \<noteq> None) (take (size_m v) cs)"
    and sz: "size_m v \<le> capacity_m (data_m v)"
    and el: "elems v w = map the (take (size_m v) cs)"
    using assms by (rule wf_cells)
  have "cs = take (size_m v) cs @ drop (size_m v) cs" by simp
  also have "take (size_m v) cs = map Some (elems v w)"
    by (simp only: el map_Some_the [OF live])
  finally have "cells_at (buffer_m (data_m v)) w = Some (map Some (elems v w) @ drop (size_m v) cs)"
    using cs by simp
  moreover have "length (drop (size_m v) cs) = capacity_m (data_m v) - size_m v"
    using len by simp
  moreover have "length (elems v w) = size_m v" using el len sz by simp
  ultimately show ?thesis by (rule that)
qed

lemma PopBack_empty: "size_m v = 0 \<Longrightarrow> PopBack (v, w) = Returned () (v, w)"
  by (simp add: PopBack.simps)

lemma PopBack_result:
  assumes wf: "wf v w" and pos: "0 < size_m v"
  obtains w' where "PopBack (v, w) = Returned () (v\<lparr>size_m := size_m v - 1\<rparr>, w')"
    and "wf (v\<lparr>size_m := size_m v - 1\<rparr>) w'"
    and "elems (v\<lparr>size_m := size_m v - 1\<rparr>) w' = butlast (elems v w)"
    and "\<And>b. b \<noteq> buffer_m (data_m v) \<Longrightarrow> cells_at b w' = cells_at b w"
    and "budget w' = budget w" and "length (heap w') = length (heap w)"
    and "sizeof_T w' = sizeof_T w"
proof -
  obtain rest where cs: "cells_at (buffer_m (data_m v)) w = Some (map Some (elems v w) @ rest)"
    and lr: "length rest = capacity_m (data_m v) - size_m v"
    and lx: "length (elems v w) = size_m v"
    using wf by (rule wf_shape)
  have sz: "size_m v \<le> capacity_m (data_m v)" using wf by (simp add: wf_def)
  obtain ys y where xs: "elems v w = ys @ [y]"
    using lx pos by (cases "elems v w" rule: rev_cases) auto
  have k: "size_m v = Suc (length ys)" using lx xs by simp
  let ?cs = "map Some ys @ Some y # rest"
  have cs': "cells_at (buffer_m (data_m v)) w = Some ?cs" using cs xs by simp
  have bz: "buffer_m (data_m v) \<noteq> 0"
  proof
    assume "buffer_m (data_m v) = 0"
    then show False using cs' by simp
  qed
  let ?p = "Ptr (buffer_m (data_m v)) (length ys)"
  let ?w' = "set_cells (buffer_m (data_m v)) (map Some ys @ None # rest) w"
  have d: "destroy_n ?p 1 w = Some ?w'"
    using destroy_n_eq [of ?p w ?cs 1] cs' by simp
  have r: "PopBack (v, w) = Returned () (v\<lparr>size_m := size_m v - 1\<rparr>, ?w')"
    using k d by (simp add: PopBack.simps ptr_add_def GetAddress_def)
  have c': "cells_at (buffer_m (data_m (v\<lparr>size_m := size_m v - 1\<rparr>))) ?w' =
      Some (map Some ys @ None # rest)"
    using cs' bz by simp
  have w1: "wf (v\<lparr>size_m := size_m v - 1\<rparr>) ?w'"
    by (rule wf_intro [OF c']) (use k lr sz wf_fits [OF wf] in \<open>simp_all add: fits_def\<close>)
  have e1: "elems (v\<lparr>size_m := size_m v - 1\<rparr>) ?w' = butlast (elems v w)"
    using wf_elems_intro(2) [OF c'] k lr sz xs by simp
  have o: "\<And>b. b \<noteq> buffer_m (data_m v) \<Longrightarrow> cells_at b ?w' = cells_at b w"
    using cs' by simp
  show ?thesis
    using r w1 e1 o by (rule that) simp_all
qed

lemma old_storage_kept_heap:
  "heap w' = heap w \<Longrightarrow> sizeof_T w' = sizeof_T w \<Longrightarrow> old_storage_kept w w'"
  using cells_at_heap_eq [of w' w] by (simp add: old_storage_kept_def)


lemma append_k_abstract_aux:
  assumes wf: "wf v w"
    and fits: "size_m v = capacity_m (data_m v) \<longrightarrow>
                 fits (if size_m v = 0 then 1 else size_m v * 2) w"
    and K1: "\<And>w4. K1 \<lparr>buffer_m = Suc (length (heap w)),
                       capacity_m = (if size_m v = 0 then 1 else size_m v * 2)\<rparr> (data_m v) w4 =
               Returned r1
                 (v\<lparr>data_m := \<lparr>buffer_m = Suc (length (heap w)),
                                capacity_m = (if size_m v = 0 then 1 else size_m v * 2)\<rparr>,
                    size_m := size_m v + 1\<rparr>, RawMemory_dtor (data_m v) w4)"
    and K2: "\<And>w1. size_m v < capacity_m (data_m v) \<Longrightarrow>
               K2 w1 = Returned r2 (v\<lparr>size_m := size_m v + 1\<rparr>, w1)"
  obtains
    (threw) e w' where "append_k T a v w K1 K2 = Threw e (v, w')"
      and "copy_constructible T \<Longrightarrow> old_storage_kept w w'"
      and "\<not> no_faults w"
  | (returned) w' where
      "append_k T a v w K1 K2 =
         Returned (if size_m v = capacity_m (data_m v) then r1 else r2)
           (if size_m v = capacity_m (data_m v)
            then v\<lparr>data_m := \<lparr>buffer_m = Suc (length (heap w)),
                               capacity_m = (if size_m v = 0 then 1 else size_m v * 2)\<rparr>,
                   size_m := size_m v + 1\<rparr>
            else v\<lparr>size_m := size_m v + 1\<rparr>, w')"
      and "wf (if size_m v = capacity_m (data_m v)
               then v\<lparr>data_m := \<lparr>buffer_m = Suc (length (heap w)),
                                  capacity_m = (if size_m v = 0 then 1 else size_m v * 2)\<rparr>,
                      size_m := size_m v + 1\<rparr>
               else v\<lparr>size_m := size_m v + 1\<rparr>) w'"
      and "elems (if size_m v = capacity_m (data_m v)
                  then v\<lparr>data_m := \<lparr>buffer_m = Suc (length (heap w)),
                                     capacity_m = (if size_m v = 0 then 1 else size_m v * 2)\<rparr>,
                         size_m := size_m v + 1\<rparr>
                  else v\<lparr>size_m := size_m v + 1\<rparr>) w' = elems v w @ [arg_value T a]"
      and "no_faults w \<Longrightarrow> no_faults w'"
      and "size_m v = capacity_m (data_m v) \<Longrightarrow> buffer_m (data_m v) \<noteq> 0 \<Longrightarrow>
             cells_at (buffer_m (data_m v)) w' = None"
      and "sizeof_T w' = sizeof_T w"
proof -
  have bb: "buffer_m (data_m v) \<le> length (heap w)" using wf by (rule wf_bound)
  have lx: "length (elems v w) = size_m v" using wf by (rule length_elems)
  from wf fits show ?thesis
  proof (cases rule: append_k_cases [where T = T and a = a and ?K1.0 = K1 and ?K2.0 = K2])
    case (bad_alloc wt)
    have "old_storage_kept w wt" using bad_alloc(4,5) by (rule old_storage_kept_heap)
    moreover have "\<not> no_faults w" using bad_alloc(2) by (auto simp: no_faults_def)
    ultimately show ?thesis using bad_alloc(3) by (intro threw [of BadAlloc wt]) simp_all
  next
    case (ctor_throw_grow w')
    have "old_storage_kept w w'" using ctor_throw_grow(5,7) by (simp add: old_storage_kept_def)
    moreover have "\<not> no_faults w" using ctor_throw_grow(3) by auto
    ultimately show ?thesis using ctor_throw_grow(4) by (intro threw [of ElemThrow w']) simp_all
  next
    case (reloc_throw w2 w')
    have "copy_constructible T \<Longrightarrow> old_storage_kept w w'"
      using reloc_throw(7,9) by (simp add: old_storage_kept_def)
    moreover have "\<not> no_faults w"
    proof
      assume nf: "no_faults w"
      have "budget w2 = budget w" using reloc_throw(4) nf by (simp add: no_faults_def elem_ticks_budget tick_budget)
      then have "no_faults w2" using nf by (simp add: no_faults_def)
      then show False using reloc_throw(5) by simp
    qed
    ultimately show ?thesis using reloc_throw(6) by (intro threw [of ElemThrow w']) simp_all
  next
    case (grown w2 w4)
    let ?n = "if size_m v = 0 then 1 else size_m v * 2"
    let ?nd = "\<lparr>buffer_m = Suc (length (heap w)), capacity_m = ?n\<rparr>"
    let ?v' = "v\<lparr>data_m := ?nd, size_m := size_m v + 1\<rparr>"
    let ?w' = "RawMemory_dtor (data_m v) w4"
    have r: "append_k T a v w K1 K2 = Returned r1 (?v', ?w')"
      using grown(6) K1 by simp
    have c: "cells_at (buffer_m (data_m ?v')) ?w' =
        Some (map Some (elems v w @ [arg_value T a]) @ replicate (?n - Suc (size_m v)) None)"
      using grown(7) bb by (simp add: RawMemory_dtor_def)
    have fn: "fits ?n ?w'" using fits grown(1,12) by (simp add: fits_def)
    have w1: "wf ?v' ?w'" by (rule wf_intro [OF c]) (use lx fn in simp_all)
    have e1: "elems ?v' ?w' = elems v w @ [arg_value T a]"
      using wf_elems_intro(2) [OF c] lx by simp
    have nf: "no_faults w \<Longrightarrow> no_faults ?w'"
    proof -
      assume nf: "no_faults w"
      have "budget w2 = budget w" using grown(4) nf by (simp add: no_faults_def elem_ticks_budget tick_budget)
      then have "budget w4 = budget w" using grown(11) nf by (simp add: no_faults_def elem_ticks_budget)
      then show "no_faults ?w'" using nf by (simp add: no_faults_def RawMemory_dtor_def)
    qed
    have fr: "buffer_m (data_m v) \<noteq> 0 \<Longrightarrow> cells_at (buffer_m (data_m v)) ?w' = None"
      by (simp add: RawMemory_dtor_def)
    show ?thesis
      using grown(1,12) r w1 e1 nf fr by (intro returned [of ?w']) simp_all
  next
    case (ctor_throw w')
    have "old_storage_kept w w'" using ctor_throw(4,5) by (rule old_storage_kept_heap)
    moreover have "\<not> no_faults w" using ctor_throw(2) by auto
    ultimately show ?thesis using ctor_throw(3) by (intro threw [of ElemThrow w']) simp_all
  next
    case (plain w1 cs)
    let ?v' = "v\<lparr>size_m := size_m v + 1\<rparr>"
    have r: "append_k T a v w K1 K2 = Returned r2 (?v', w1)"
      using plain(3) K2 [OF plain(1)] by simp
    obtain rest where sh: "cells_at (buffer_m (data_m v)) w = Some (map Some (elems v w) @ rest)"
      and lr: "length rest = capacity_m (data_m v) - size_m v"
      using wf by (rule wf_shape)
    have rne: "rest \<noteq> []" using lr plain(1) by auto
    then obtain c rest' where rest: "rest = c # rest'" by (cases rest) auto
    have cs: "cs = map Some (elems v w) @ c # rest'" using sh plain(4) rest by simp
    have c1: "cells_at (buffer_m (data_m ?v')) w1 =
        Some (map Some (elems v w @ [arg_value T a]) @ rest')"
      using plain(5) cs lx by (simp add: list_update_append)
    have f1: "fits (capacity_m (data_m v)) w1"
      using wf_fits [OF wf] plain(9) by (simp add: fits_def)
    have w1: "wf ?v' w1" by (rule wf_intro [OF c1]) (use lx lr rest plain(1) f1 in simp_all)
    have e1: "elems ?v' w1 = elems v w @ [arg_value T a]"
      using wf_elems_intro(2) [OF c1] lx lr rest plain(1) by simp
    have nf: "no_faults w \<Longrightarrow> no_faults w1"
      using plain(8) by (simp add: no_faults_def elem_ticks_budget)
    show ?thesis
      using plain(1,9) r w1 e1 nf by (intro returned [of w1]) simp_all
  qed
qed

lemma append_k_abstract:
  assumes wf: "wf v w"
    and K1: "\<And>w4. K1 \<lparr>buffer_m = Suc (length (heap w)),
                       capacity_m = (if size_m v = 0 then 1 else size_m v * 2)\<rparr> (data_m v) w4 =
               Returned r1
                 (v\<lparr>data_m := \<lparr>buffer_m = Suc (length (heap w)),
                                capacity_m = (if size_m v = 0 then 1 else size_m v * 2)\<rparr>,
                    size_m := size_m v + 1\<rparr>, RawMemory_dtor (data_m v) w4)"
    and K2: "\<And>w1. size_m v < capacity_m (data_m v) \<Longrightarrow>
               K2 w1 = Returned r2 (v\<lparr>size_m := size_m v + 1\<rparr>, w1)"
  shows "(\<exists>e w'. append_k T a v w K1 K2 = Threw e (v, w') \<and>
            (copy_constructible T \<longrightarrow> old_storage_kept w w') \<and> \<not> no_faults w) \<or>
         (\<exists>w'. append_k T a v w K1 K2 =
              Returned (if size_m v = capacity_m (data_m v) then r1 else r2)
                (if size_m v = capacity_m (data_m v)
                 then v\<lparr>data_m := \<lparr>buffer_m = Suc (length (heap w)),
                                    capacity_m = (if size_m v = 0 then 1 else size_m v * 2)\<rparr>,
                        size_m := size_m v + 1\<rparr>
                 else v\<lparr>size_m := size_m v + 1\<rparr>, w') \<and>
            wf (if size_m v = capacity_m (data_m v)
                then v\<lparr>data_m := \<lparr>buffer_m = Suc (length (heap w)),
                                   capacity_m = (if size_m v = 0 then 1 else size_m v * 2)\<rparr>,
                       size_m := size_m v + 1\<rparr>
                else v\<lparr>size_m := size_m v + 1\<rparr>) w' \<and>
            elems (if size_m v = capacity_m (data_m v)
                   then v\<lparr>data_m := \<lparr>buffer_m = Suc (length (heap w)),
                                      capacity_m = (if size_m v = 0 then 1 else size_m v * 2)\<rparr>,
                          size_m := size_m v + 1\<rparr>
                   else v\<lparr>size_m := size_m v + 1\<rparr>) w' = elems v w @ [arg_value T a] \<and>
            (no_faults w \<longrightarrow> no_faults w') \<and>
            (size_m v = capacity_m (data_m v) \<and> buffer_m (data_m v) \<noteq> 0 \<longrightarrow>
               cells_at (buffer_m (data_m v)) w' = None) \<and>
            sizeof_T w' = sizeof_T w \<and>
            (size_m v = capacity_m (data_m v) \<longrightarrow>
               fits (if size_m v = 0 then 1 else size_m v * 2) w)) \<or>
         (append_k T a v w K1 K2 = Undefined \<and> size_m v = capacity_m (data_m v) \<and>
          \<not> fits (if size_m v = 0 then 1 else size_m v * 2) w)"
proof (cases "size_m v = capacity_m (data_m v) \<longrightarrow>
                 fits (if size_m v = 0 then 1 else size_m v * 2) w")
  case False
  then have full: "size_m v = capacity_m (data_m v)"
    and nf: "\<not> fits (if size_m v = 0 then 1 else size_m v * 2) w" by simp_all
  from append_k_overflow [OF wf full nf, of T a K1 K2] show ?thesis
  proof (elim disjE conjE exE)
    assume "append_k T a v w K1 K2 = Undefined"
    then show ?thesis using full nf by simp
  next
    fix wt
    assume a: "budget w Alloc = Some 0" and r: "append_k T a v w K1 K2 = Threw BadAlloc (v, wt)"
      and h: "heap wt = heap w" and z: "sizeof_T wt = sizeof_T w"
    have "old_storage_kept w wt" using h z by (rule old_storage_kept_heap)
    moreover have "\<not> no_faults w" using a by (auto simp: no_faults_def)
    ultimately show ?thesis using r by blast
  qed
next
  case fits: True
  show ?thesis
proof (rule append_k_abstract_aux [where ?K1.0 = K1 and ?K2.0 = K2 and ?r1.0 = r1 and ?r2.0 = r2
      and v = v and w = w and T = T and a = a, OF wf fits K1 K2])
  fix e w'
  assume "append_k T a v w K1 K2 = Threw e (v, w')"
    and "copy_constructible T \<Longrightarrow> old_storage_kept w w'" and "\<not> no_faults w"
  then show ?thesis by blast
next
  fix w'
  assume "append_k T a v w K1 K2 =
         Returned (if size_m v = capacity_m (data_m v) then r1 else r2)
           (if size_m v = capacity_m (data_m v)
            then v\<lparr>data_m := \<lparr>buffer_m = Suc (length (heap w)),
                               capacity_m = (if size_m v = 0 then 1 else size_m v * 2)\<rparr>,
                   size_m := size_m v + 1\<rparr>
            else v\<lparr>size_m := size_m v + 1\<rparr>, w')"
    and "wf (if size_m v = capacity_m (data_m v)
               then v\<lparr>data_m := \<lparr>buffer_m = Suc (length (heap w)),
                                  capacity_m = (if size_m v = 0 then 1 else size_m v * 2)\<rparr>,
                      size_m := size_m v + 1\<rparr>
               else v\<lparr>size_m := size_m v + 1\<rparr>) w'"
    and "elems (if size_m v = capacity_m (data_m v)
                  then v\<lparr>data_m := \<lparr>buffer_m = Suc (length (heap w)),
                                     capacity_m = (if size_m v = 0 then 1 else size_m v * 2)\<rparr>,
                         size_m := size_m v + 1\<rparr>
                  else v\<lparr>size_m := size_m v + 1\<rparr>) w' = elems v w @ [arg_value T a]"
    and "no_faults w \<Longrightarrow> no_faults w'"
    and "size_m v = capacity_m (data_m v) \<Longrightarrow> buffer_m (data_m v) \<noteq> 0 \<Longrightarrow>
             cells_at (buffer_m (data_m v)) w' = None"
    and "sizeof_T w' = sizeof_T w"
  then show ?thesis using fits by blast
qed
qed

section \<open>The appending members and \<open>Reserve\<close>, abstractly\<close>

lemma PushBack_abstract:
  assumes wf: "wf v w"
  shows "(\<exists>e w'. PushBack T x (v, w) = Threw e (v, w') \<and>
            (copy_constructible T \<longrightarrow> old_storage_kept w w') \<and> \<not> no_faults w) \<or>
         (\<exists>w'. PushBack T x (v, w) = Returned () (appended v w, w') \<and>
            wf (appended v w) w' \<and>
            elems (appended v w) w' =
              elems v w @ [if size_m v = capacity_m (data_m v) then list_init T x else x] \<and>
            (no_faults w \<longrightarrow> no_faults w') \<and>
            (size_m v = capacity_m (data_m v) \<and> buffer_m (data_m v) \<noteq> 0 \<longrightarrow>
               cells_at (buffer_m (data_m v)) w' = None) \<and>
            sizeof_T w' = sizeof_T w \<and>
            (size_m v = capacity_m (data_m v) \<longrightarrow>
               fits (if size_m v = 0 then 1 else size_m v * 2) w)) \<or>
         (PushBack T x (v, w) = Undefined \<and> size_m v = capacity_m (data_m v) \<and>
          \<not> fits (if size_m v = 0 then 1 else size_m v * 2) w)"
proof -
  let ?kg = "\<lambda>d nd w4. Returned () (v\<lparr>data_m := d, size_m := size_m v + 1\<rparr>, RawMemory_dtor nd w4)"
  let ?kp = "\<lambda>w1. Returned () (v\<lparr>size_m := size_m v + 1\<rparr>, w1)"
  let ?a = "if size_m v = Capacity v then ListOf x else CopyOf x"
  have k1: "\<And>w4. ?kg \<lparr>buffer_m = Suc (length (heap w)),
                       capacity_m = (if size_m v = 0 then 1 else size_m v * 2)\<rparr> (data_m v) w4 =
               Returned ()
                 (v\<lparr>data_m := \<lparr>buffer_m = Suc (length (heap w)),
                                capacity_m = (if size_m v = 0 then 1 else size_m v * 2)\<rparr>,
                    size_m := size_m v + 1\<rparr>, RawMemory_dtor (data_m v) w4)"
    by simp
  have k2: "\<And>w1. size_m v < capacity_m (data_m v) \<Longrightarrow>
               ?kp w1 = Returned () (v\<lparr>size_m := size_m v + 1\<rparr>, w1)"
    by simp
  have av: "arg_value T ?a = (if size_m v = capacity_m (data_m v) then list_init T x else x)"
    by (simp add: Capacity_def)
  show ?thesis
    using append_k_abstract [where T = T and a = ?a and ?K1.0 = ?kg and ?K2.0 = ?kp
        and ?r1.0 = "()" and ?r2.0 = "()", OF wf k1 k2]
    unfolding PushBack_append [symmetric] appended_def av by simp
qed

lemma PushBack_rv_abstract:
  assumes wf: "wf v w"
  shows "(\<exists>e w'. PushBack_rv T x (v, w) = Threw e (v, w') \<and>
            (copy_constructible T \<longrightarrow> old_storage_kept w w') \<and> \<not> no_faults w) \<or>
         (\<exists>w'. PushBack_rv T x (v, w) = Returned () (appended v w, w') \<and>
            wf (appended v w) w' \<and> elems (appended v w) w' = elems v w @ [x] \<and>
            (no_faults w \<longrightarrow> no_faults w') \<and>
            (size_m v = capacity_m (data_m v) \<and> buffer_m (data_m v) \<noteq> 0 \<longrightarrow>
               cells_at (buffer_m (data_m v)) w' = None) \<and>
            sizeof_T w' = sizeof_T w \<and>
            (size_m v = capacity_m (data_m v) \<longrightarrow>
               fits (if size_m v = 0 then 1 else size_m v * 2) w)) \<or>
         (PushBack_rv T x (v, w) = Undefined \<and> size_m v = capacity_m (data_m v) \<and>
          \<not> fits (if size_m v = 0 then 1 else size_m v * 2) w)"
proof -
  let ?kg = "\<lambda>d nd w4. Returned () (v\<lparr>data_m := d, size_m := size_m v + 1\<rparr>, RawMemory_dtor nd w4)"
  let ?kp = "\<lambda>w1. Returned () (v\<lparr>size_m := size_m v + 1\<rparr>, w1)"
  have k1: "\<And>w4. ?kg \<lparr>buffer_m = Suc (length (heap w)),
                       capacity_m = (if size_m v = 0 then 1 else size_m v * 2)\<rparr> (data_m v) w4 =
               Returned ()
                 (v\<lparr>data_m := \<lparr>buffer_m = Suc (length (heap w)),
                                capacity_m = (if size_m v = 0 then 1 else size_m v * 2)\<rparr>,
                    size_m := size_m v + 1\<rparr>, RawMemory_dtor (data_m v) w4)"
    by simp
  have k2: "\<And>w1. size_m v < capacity_m (data_m v) \<Longrightarrow>
               ?kp w1 = Returned () (v\<lparr>size_m := size_m v + 1\<rparr>, w1)"
    by simp
  show ?thesis
    using append_k_abstract [where T = T and a = "MoveOf x" and ?K1.0 = ?kg and ?K2.0 = ?kp
        and ?r1.0 = "()" and ?r2.0 = "()", OF wf k1 k2]
    unfolding PushBack_rv_append [symmetric] appended_def by simp
qed

lemma EmplaceBack_abstract:
  assumes wf: "wf v w"
  shows "(\<exists>e w'. EmplaceBack T a (v, w) = Threw e (v, w') \<and>
            (copy_constructible T \<longrightarrow> old_storage_kept w w') \<and> \<not> no_faults w) \<or>
         (\<exists>w'. EmplaceBack T a (v, w) =
              Returned (Ptr (buffer_m (data_m (appended v w))) (size_m v)) (appended v w, w') \<and>
            wf (appended v w) w' \<and> elems (appended v w) w' = elems v w @ [arg_value T a] \<and>
            (no_faults w \<longrightarrow> no_faults w') \<and>
            (size_m v = capacity_m (data_m v) \<and> buffer_m (data_m v) \<noteq> 0 \<longrightarrow>
               cells_at (buffer_m (data_m v)) w' = None) \<and>
            sizeof_T w' = sizeof_T w \<and>
            (size_m v = capacity_m (data_m v) \<longrightarrow>
               fits (if size_m v = 0 then 1 else size_m v * 2) w)) \<or>
         (EmplaceBack T a (v, w) = Undefined \<and> size_m v = capacity_m (data_m v) \<and>
          \<not> fits (if size_m v = 0 then 1 else size_m v * 2) w)"
proof -
  let ?kg = "\<lambda>d nd w4. case RawMemory_index d (size_m v + 1 - 1) of
                     None \<Rightarrow> Undefined
                   | Some r \<Rightarrow>
                       Returned r (v\<lparr>data_m := d, size_m := size_m v + 1\<rparr>, RawMemory_dtor nd w4)"
  let ?kp = "\<lambda>w1. case RawMemory_index (data_m v) (size_m v + 1 - 1) of
                None \<Rightarrow> Undefined
              | Some r \<Rightarrow> Returned r (v\<lparr>size_m := size_m v + 1\<rparr>, w1)"
  have k1: "\<And>w4. ?kg \<lparr>buffer_m = Suc (length (heap w)),
                       capacity_m = (if size_m v = 0 then 1 else size_m v * 2)\<rparr> (data_m v) w4 =
               Returned (Ptr (Suc (length (heap w))) (size_m v))
                 (v\<lparr>data_m := \<lparr>buffer_m = Suc (length (heap w)),
                                capacity_m = (if size_m v = 0 then 1 else size_m v * 2)\<rparr>,
                    size_m := size_m v + 1\<rparr>, RawMemory_dtor (data_m v) w4)"
    by (simp add: RawMemory_index_def)
  have k2: "\<And>w1. size_m v < capacity_m (data_m v) \<Longrightarrow>
               ?kp w1 = Returned (Ptr (buffer_m (data_m v)) (size_m v)) (v\<lparr>size_m := size_m v + 1\<rparr>, w1)"
    by (simp add: RawMemory_index_def)
  note r = append_k_abstract [where T = T and a = a and ?K1.0 = ?kg and ?K2.0 = ?kp
        and ?r1.0 = "Ptr (Suc (length (heap w))) (size_m v)"
        and ?r2.0 = "Ptr (buffer_m (data_m v)) (size_m v)", OF wf k1 k2,
        unfolded EmplaceBack_append [symmetric]]
  show ?thesis
  proof (cases "size_m v = capacity_m (data_m v)")
    case True
    have "appended v w = v\<lparr>data_m := \<lparr>buffer_m = Suc (length (heap w)),
                         capacity_m = (if size_m v = 0 then 1 else size_m v * 2)\<rparr>,
             size_m := size_m v + 1\<rparr>"
      using True by (simp add: appended_def)
    then show ?thesis using r True by (simp only: if_True simp_thms) simp
  next
    case False
    have "appended v w = v\<lparr>size_m := size_m v + 1\<rparr>"
      using False by (simp add: appended_def)
    then show ?thesis using r False by (simp only: if_False simp_thms) simp
  qed
qed

lemma Reserve_small: "n \<le> capacity_m (data_m v) \<Longrightarrow> Reserve T n (v, w) = Returned () (v, w)"
  by (simp add: Reserve.simps)





section \<open>Evaluation on concrete inputs\<close>

lemma size_max_small: "n \<le> 10000 \<Longrightarrow> n < size_max"
  by (simp add: size_max_def)

lemma mod_size_max_small: "n \<le> 10000 \<Longrightarrow> n mod size_max = n"
  by (simp add: size_max_small)

lemma fits_small: "0 < sizeof_T w \<Longrightarrow> sizeof_T w \<le> 64 \<Longrightarrow> n \<le> 1000 \<Longrightarrow> fits n w"
proof -
  assume a: "0 < sizeof_T w" "sizeof_T w \<le> 64" "n \<le> 1000"
  then have "n * sizeof_T w \<le> 1000 * 64" by (rule_tac mult_le_mono) simp_all
  then have "n * sizeof_T w < size_max" by (simp add: size_max_def)
  then show ?thesis using a by (simp add: fits_def)
qed

lemma new_cells_small:
  "0 < sizeof_T w \<Longrightarrow> sizeof_T w \<le> 64 \<Longrightarrow> n \<le> 1000 \<Longrightarrow> new_cells n w = n"
  by (rule new_cells_fits) (rule fits_small)

lemmas exec_simps =
  T_int_def T_throwing_def T_listed_def T_vector_def quiet_def faulty_def vec_def wf_def elems_def
  cells_at_def set_cells_def
  load_n_def store_n_def tick_def elem_ticks_def can_throw_def ticks_None ticks_Some
  uninitialized_copy_n_def uninitialized_move_n_def uninitialized_value_construct_n_def
  destroy_n_def construct_def construct_at_def move_assign_elem_def assign_value_def
  copy_assign_elem_def std_move_def std_move_backward_def distance_def ptr_add_def
  Allocate_def Deallocate_def RawMemory_default_def RawMemory_ctor_def RawMemory_dtor_def
  RawMemory_Swap_def RawMemory_move_ctor_def RawMemory_plus_def RawMemory_index_def
  GetAddress_def Vector_default_def Size_def Capacity_def Vector_begin_def Vector_end_def
  Vector_index_def Vector_move_ctor_def Vector_Swap_def Vector_sized_def Vector_copy_ctor_def
  Vector_dtor_def Reserve.simps Resize.simps PushBack.simps PushBack_rv.simps
  EmplaceBack.simps PopBack.simps Erase.simps Emplace.simps Insert_def Insert_rv_def
  copy_assign.simps move_assign.simps assign_loop.simps numeral_eq_Suc no_faults_def
  old_storage_kept_def fits_small new_cells_small mod_size_max_small

lemma wf_Vector_default: "wf Vector_default w"
  by (simp add: wf_def Vector_default_def RawMemory_default_def)

lemma elems_Vector_default: "elems Vector_default w = []"
  by (simp add: elems_def Vector_default_def RawMemory_default_def)

lemma PopBack_abstract:
  assumes "wf v w"
  shows "\<exists>v' w'. PopBack (v, w) = Returned () (v', w') \<and> wf v' w' \<and>
           elems v' w' = butlast (elems v w) \<and> budget w' = budget w \<and>
           data_m v' = data_m v \<and> size_m v' = size_m v - 1 \<and> sizeof_T w' = sizeof_T w"
proof (cases "size_m v = 0")
  case True
  then have "elems v w = []" using length_elems [OF assms] by simp
  then show ?thesis using True assms by (simp add: PopBack_empty)
next
  case False
  then have "0 < size_m v" by simp
  with assms show ?thesis by (rule PopBack_result) auto
qed

lemma run_Returned:
  assumes lc: "\<And>x. list_init T x = x"
  shows "wf v w \<Longrightarrow> run T ops (v, w) = Returned r (v', w') \<Longrightarrow>
         wf v' w' \<and> elems v' w' = model ops (elems v w)"
proof (induction ops arbitrary: v w)
  case Nil
  then show ?case by simp
next
  case (Cons o1 ops)
  show ?case
  proof (cases o1)
    case (Push x)
    from PushBack_abstract [OF Cons.prems(1), of T x] show ?thesis
    proof (elim disjE exE conjE)
      fix e w1
      assume "PushBack T x (v, w) = Threw e (v, w1)"
      then show ?thesis using Cons.prems(2) Push by simp
    next
      fix w1
      assume p: "PushBack T x (v, w) = Returned () (appended v w, w1)"
        and w1: "wf (appended v w) w1"
        and e1: "elems (appended v w) w1 =
                   elems v w @ [if size_m v = capacity_m (data_m v) then list_init T x else x]"
      have "run T ops (appended v w, w1) = Returned r (v', w')"
        using Cons.prems(2) Push p by simp
      from Cons.IH [OF w1 this] show ?thesis using e1 Push lc by simp
    next
      assume "PushBack T x (v, w) = Undefined"
      then show ?thesis using Cons.prems(2) Push by simp
    qed
  next
    case (PushRv x)
    from PushBack_rv_abstract [OF Cons.prems(1), of T x] show ?thesis
    proof (elim disjE exE conjE)
      fix e w1
      assume "PushBack_rv T x (v, w) = Threw e (v, w1)"
      then show ?thesis using Cons.prems(2) PushRv by simp
    next
      fix w1
      assume p: "PushBack_rv T x (v, w) = Returned () (appended v w, w1)"
        and w1: "wf (appended v w) w1"
        and e1: "elems (appended v w) w1 = elems v w @ [x]"
      have "run T ops (appended v w, w1) = Returned r (v', w')"
        using Cons.prems(2) PushRv p by simp
      from Cons.IH [OF w1 this] show ?thesis using e1 PushRv by simp
    next
      assume "PushBack_rv T x (v, w) = Undefined"
      then show ?thesis using Cons.prems(2) PushRv by simp
    qed
  next
    case Pop
    obtain v1 w1 where p: "PopBack (v, w) = Returned () (v1, w1)" and w1: "wf v1 w1"
      and e1: "elems v1 w1 = butlast (elems v w)"
      using PopBack_abstract [OF Cons.prems(1)] by blast
    have "run T ops (v1, w1) = Returned r (v', w')"
      using Cons.prems(2) Pop p by simp
    from Cons.IH [OF w1 this] show ?thesis using e1 Pop by simp
  qed
qed

lemma size_appended [simp]: "size_m (appended v w) = Suc (size_m v)"
  by (simp add: appended_def)

lemma run_no_faults:
  "wf v w \<Longrightarrow> no_faults w \<Longrightarrow> fits (2 * (size_m v + pushes ops)) w \<Longrightarrow>
   \<exists>v' w'. run T ops (v, w) = Returned () (v', w')"
proof (induction ops arbitrary: v w)
  case Nil
  then show ?case by simp
next
  case (Cons o1 ops)
  have grow: "0 < pushes (o1 # ops) \<Longrightarrow> fits (if size_m v = 0 then 1 else size_m v * 2) w"
  proof -
    assume "0 < pushes (o1 # ops)"
    then have "(if size_m v = 0 then 1 else size_m v * 2) \<le> 2 * (size_m v + pushes (o1 # ops))"
      by simp
    with Cons.prems(3) show ?thesis by (rule fits_mono)
  qed
  show ?case
  proof (cases o1)
    case (Push x)
    from PushBack_abstract [OF Cons.prems(1), of T x] show ?thesis
    proof (elim disjE exE conjE)
      fix e w1
      assume "\<not> no_faults w"
      then show ?thesis using Cons.prems(2) by simp
    next
      fix w1
      assume p: "PushBack T x (v, w) = Returned () (appended v w, w1)"
        and w1: "wf (appended v w) w1" and nf: "no_faults w \<longrightarrow> no_faults w1"
        and z: "sizeof_T w1 = sizeof_T w"
      have n1: "no_faults w1" using nf Cons.prems(2) by simp
      have "fits (2 * (size_m (appended v w) + pushes ops)) w"
        using Cons.prems(3) Push by simp
      then have f1: "fits (2 * (size_m (appended v w) + pushes ops)) w1"
        using fits_sizeof [OF z] by simp
      from Cons.IH [OF w1 n1 f1] show ?thesis using p Push by simp
    next
      assume "\<not> fits (if size_m v = 0 then 1 else size_m v * 2) w"
      then show ?thesis using grow Push by simp
    qed
  next
    case (PushRv x)
    from PushBack_rv_abstract [OF Cons.prems(1), of T x] show ?thesis
    proof (elim disjE exE conjE)
      fix e w1
      assume "\<not> no_faults w"
      then show ?thesis using Cons.prems(2) by simp
    next
      fix w1
      assume p: "PushBack_rv T x (v, w) = Returned () (appended v w, w1)"
        and w1: "wf (appended v w) w1" and nf: "no_faults w \<longrightarrow> no_faults w1"
        and z: "sizeof_T w1 = sizeof_T w"
      have n1: "no_faults w1" using nf Cons.prems(2) by simp
      have "fits (2 * (size_m (appended v w) + pushes ops)) w"
        using Cons.prems(3) PushRv by simp
      then have f1: "fits (2 * (size_m (appended v w) + pushes ops)) w1"
        using fits_sizeof [OF z] by simp
      from Cons.IH [OF w1 n1 f1] show ?thesis using p PushRv by simp
    next
      assume "\<not> fits (if size_m v = 0 then 1 else size_m v * 2) w"
      then show ?thesis using grow PushRv by simp
    qed
  next
    case Pop
    obtain v1 w1 where p: "PopBack (v, w) = Returned () (v1, w1)" and w1: "wf v1 w1"
      and b1: "budget w1 = budget w" and s1: "size_m v1 = size_m v - 1"
      and z: "sizeof_T w1 = sizeof_T w"
      using PopBack_abstract [OF Cons.prems(1)] by blast
    have n1: "no_faults w1" using b1 Cons.prems(2) by (simp add: no_faults_def)
    have "2 * (size_m v1 + pushes ops) \<le> 2 * (size_m v + pushes (o1 # ops))"
      using s1 Pop by simp
    with Cons.prems(3) have "fits (2 * (size_m v1 + pushes ops)) w" by (rule fits_mono)
    then have f1: "fits (2 * (size_m v1 + pushes ops)) w1" using fits_sizeof [OF z] by simp
    from Cons.IH [OF w1 n1 f1] show ?thesis using p Pop by simp
  qed
qed

lemma length_model:
  "never_underflows ops (length xs) \<Longrightarrow>
   int (length (model ops xs)) = int (length xs) + int (pushes ops) - int (pops ops)"
proof (induction ops arbitrary: xs)
  case Nil
  then show ?case by simp
next
  case (Cons o1 ops)
  show ?case
  proof (cases o1)
    case (Push x)
    then have "never_underflows ops (length (xs @ [x]))" using Cons.prems by simp
    from Cons.IH [OF this] show ?thesis using Push by simp
  next
    case (PushRv x)
    then have "never_underflows ops (length (xs @ [x]))" using Cons.prems by simp
    from Cons.IH [OF this] show ?thesis using PushRv by simp
  next
    case Pop
    then have "0 < length xs" and "never_underflows ops (length (butlast xs))"
      using Cons.prems by simp_all
    from Cons.IH [OF this(2)] this(1) show ?thesis using Pop by simp
  qed
qed

lemma Vector_move_ctor_eq:
  "Vector_move_ctor a = (a, \<lparr>data_m = \<lparr>buffer_m = 0, capacity_m = 0\<rparr>, size_m = 0\<rparr>)"
  by (simp add: Vector_move_ctor_def RawMemory_move_ctor_def RawMemory_default_def)

lemma appended_full:
  assumes "size_m v = capacity_m (data_m v)" and "wf v w"
  shows "capacity_m (data_m (appended v w)) =
           (if capacity_m (data_m v) = 0 then 1 else 2 * capacity_m (data_m v))"
    and "size_m (appended v w) = size_m v + 1"
    and "buffer_m (data_m (appended v w)) = Suc (length (heap w))"
    and "cells_at (buffer_m (data_m (appended v w))) w = None"
    and "buffer_m (data_m (appended v w)) \<noteq> buffer_m (data_m v)"
proof -
  have bb: "buffer_m (data_m v) \<le> length (heap w)" using assms(2) by (rule wf_bound)
  show "capacity_m (data_m (appended v w)) =
           (if capacity_m (data_m v) = 0 then 1 else 2 * capacity_m (data_m v))"
    using assms(1) by (simp add: appended_def)
  show "size_m (appended v w) = size_m v + 1" by (simp add: appended_def)
  show b: "buffer_m (data_m (appended v w)) = Suc (length (heap w))"
    using assms(1) by (simp add: appended_def)
  show "cells_at (buffer_m (data_m (appended v w))) w = None"
    by (simp add: b cells_at_def)
  show "buffer_m (data_m (appended v w)) \<noteq> buffer_m (data_m v)"
    using b bb by simp
qed

lemma set_cells_twice [simp]: "set_cells b c2 (set_cells b c1 w) = set_cells b c2 w"
  by (simp add: set_cells_def)

lemma cells_at_nonempty: "cells_at b w = Some cs \<Longrightarrow> cs \<noteq> [] \<Longrightarrow> b \<noteq> 0"
  by (cases "b = 0") auto

lemma elem_ticks_nothrow: "\<not> can_throw T e \<Longrightarrow> elem_ticks T e n w = (n, w)"
  by (simp add: elem_ticks_def)

lemma move_assign_elem_shift:
  assumes nt: "nothrow_move_assignable T"
    and tr: "\<And>d s. fst (move_assigned T d s) = s"
    and cs: "cells_at b w = Some (pre @ Some x0 # Some y # post)"
    and i: "length pre = i"
  shows "move_assign_elem T (Ptr b i) (Ptr b (Suc i)) w =
           Returned () (set_cells b (pre @ Some y # Some (snd (move_assigned T x0 y)) # post) w)"
proof -
  have bz: "b \<noteq> 0" using cs by (rule cells_at_nonempty) simp
  have nc: "\<not> can_throw T MoveAssign" using nt by (simp add: can_throw_def)
  let ?cs = "pre @ Some x0 # Some y # post"
  let ?m = "snd (move_assigned T x0 y)"
  have l1: "load_n (Ptr b (Suc i)) 1 w = Some [y]"
    using cs i by (simp add: load_n_cells)
  have l2: "load_n (Ptr b i) 1 w = Some [x0]"
    using cs i by (simp add: load_n_cells)
  have s1: "store_n (Ptr b i) [Some (fst (move_assigned T x0 y))] w =
      Some (set_cells b (pre @ Some y # Some y # post) w)"
    using cs i tr by (simp add: store_n_cells)
  have c1: "cells_at b (set_cells b (pre @ Some y # Some y # post) w) =
      Some (pre @ Some y # Some y # post)"
    using cs bz by simp
  have s2: "store_n (Ptr b (Suc i)) [Some ?m] (set_cells b (pre @ Some y # Some y # post) w) =
      Some (set_cells b (pre @ Some y # Some ?m # post) w)"
    using c1 i by (simp add: store_n_cells)
  show ?thesis
    using l1 l2 s1 s2 by (simp add: move_assign_elem_def elem_ticks_nothrow [OF nc])
qed

lemma move_n_shift:
  assumes nt: "nothrow_move_assignable T"
    and tr: "\<And>d s. fst (move_assigned T d s) = s"
  shows "cells_at b w = Some (pre @ Some x0 # map Some ys @ post) \<Longrightarrow> length pre = i \<Longrightarrow>
     \<exists>z. move_n T (Ptr b (Suc i)) (Ptr b i) (length ys) w =
       Returned ()
         (if ys = [] then w else set_cells b (pre @ map Some ys @ Some z # post) w)"
proof (induction ys arbitrary: pre x0 i w)
  case Nil
  then show ?case by simp
next
  case (Cons y ys)
  have bz: "b \<noteq> 0" using Cons.prems(1) by (rule cells_at_nonempty) simp
  let ?m = "snd (move_assigned T x0 y)"
  let ?w1 = "set_cells b (pre @ Some y # Some ?m # map Some ys @ post) w"
  have m: "move_assign_elem T (Ptr b i) (Ptr b (Suc i)) w = Returned () ?w1"
    using move_assign_elem_shift [OF nt tr, of b w pre x0 y "map Some ys @ post" i] Cons.prems
    by simp
  have c1: "cells_at b ?w1 = Some ((pre @ [Some y]) @ Some ?m # map Some ys @ post)"
    using Cons.prems(1) bz by simp
  have l1: "length (pre @ [Some y]) = Suc i" using Cons.prems(2) by simp
  obtain z where ih: "move_n T (Ptr b (Suc (Suc i))) (Ptr b (Suc i)) (length ys) ?w1 =
       Returned ()
         (if ys = [] then ?w1
          else set_cells b ((pre @ [Some y]) @ map Some ys @ Some z # post) ?w1)"
    using Cons.IH [OF c1 l1] by blast
  show ?case
  proof (cases "ys = []")
    case True
    then show ?thesis using m ih by (intro exI [of _ ?m]) (simp add: ptr_add_def)
  next
    case False
    then show ?thesis using m ih by (intro exI [of _ z]) (simp add: ptr_add_def)
  qed
qed

lemma Erase_result:
  assumes wf: "wf v w" and nt: "nothrow_move_assignable T"
    and tr: "\<And>d s. fst (move_assigned T d s) = s" and i: "i < size_m v"
  shows "\<exists>w'. Erase T (ptr_add (Vector_begin v) i) (v, w) =
             Returned (ptr_add (Vector_begin v) i) (v\<lparr>size_m := size_m v - 1\<rparr>, w') \<and>
           wf (v\<lparr>size_m := size_m v - 1\<rparr>) w' \<and>
           elems (v\<lparr>size_m := size_m v - 1\<rparr>) w' = take i (elems v w) @ drop (Suc i) (elems v w) \<and>
           load_n (Ptr (buffer_m (data_m v)) (size_m v - 1)) 1 w' = None \<and>
           budget w' = budget w \<and> length (heap w') = length (heap w) \<and>
           (\<forall>b. b \<noteq> buffer_m (data_m v) \<longrightarrow> cells_at b w' = cells_at b w)"
proof -
  obtain rest where cs: "cells_at (buffer_m (data_m v)) w = Some (map Some (elems v w) @ rest)"
    and lr: "length rest = capacity_m (data_m v) - size_m v"
    and lx: "length (elems v w) = size_m v"
    using wf by (rule wf_shape)
  have sz: "size_m v \<le> capacity_m (data_m v)" using wf by (simp add: wf_def)
  let ?b = "buffer_m (data_m v)"
  let ?xs = "elems v w"
  let ?pre = "take i ?xs" and ?suf = "drop (Suc i) ?xs"
  have split: "?xs = ?pre @ ?xs ! i # ?suf"
    using i lx by (simp add: id_take_nth_drop [symmetric])
  have lpre: "length ?pre = i" using i lx by simp
  have lsuf: "length ?suf = size_m v - Suc i" using lx by simp
  have cs': "cells_at ?b w = Some (map Some ?pre @ Some (?xs ! i) # map Some ?suf @ rest)"
    using cs split by (metis append_Cons append_assoc list.simps(9) map_append)
  have bz: "?b \<noteq> 0" using cs' by (rule cells_at_nonempty) simp
  have d0: "distance (Vector_begin v) (ptr_add (Vector_begin v) i) = Some i"
    by (simp add: distance_def Vector_begin_def GetAddress_def ptr_add_def)
  have d1: "distance (ptr_add (Vector_begin v) (i + 1)) (Vector_end v) = Some (length ?suf)"
    using i lsuf by (simp add: distance_def Vector_begin_def Vector_end_def GetAddress_def ptr_add_def)
  have lp': "length (map Some ?pre :: 'a option list) = i" using lpre by simp
  obtain z0 where mn: "move_n T (Ptr ?b (Suc i)) (Ptr ?b i) (length ?suf) w =
       Returned ()
         (if ?suf = [] then w
          else set_cells ?b (map Some ?pre @ map Some ?suf @ Some z0 # rest) w)"
    using move_n_shift [OF nt tr cs' lp'] by blast
  define w1 where "w1 = (if ?suf = [] then w
             else set_cells ?b (map Some ?pre @ map Some ?suf @ Some z0 # rest) w)"
  have mv: "std_move T (ptr_add (Vector_begin v) (i + 1)) (Vector_end v)
               (ptr_add (Vector_begin v) i) w = Returned () w1"
    using mn d1 unfolding w1_def
    by (simp add: std_move_def Vector_begin_def GetAddress_def ptr_add_def)
  define z where "z = (if ?suf = [] then ?xs ! i else z0)"
  have c1: "cells_at ?b w1 = Some (map Some (?pre @ ?suf) @ Some z # rest)"
    using cs' bz unfolding w1_def z_def by simp
  have o1: "\<And>b. b \<noteq> ?b \<Longrightarrow> cells_at b w1 = cells_at b w"
    using cs' unfolding w1_def by simp
  have b1: "budget w1 = budget w" unfolding w1_def by simp
  have h1: "length (heap w1) = length (heap w)" unfolding w1_def by simp
  have z1: "sizeof_T w1 = sizeof_T w" unfolding w1_def by simp
  have lps: "length (?pre @ ?suf) = size_m v - 1" using lpre lsuf i by simp
  let ?p = "Ptr ?b (size_m v - 1)"
  define w2 where "w2 = set_cells ?b (map Some (?pre @ ?suf) @ None # rest) w1"
  have de: "destroy_n ?p 1 w1 = Some w2"
    using destroy_n_eq [of ?p w1 "map Some (?pre @ ?suf) @ Some z # rest" 1] c1 lps
    unfolding w2_def by simp
  let ?v' = "v\<lparr>size_m := size_m v - 1\<rparr>"
  have r: "Erase T (ptr_add (Vector_begin v) i) (v, w) =
      Returned (ptr_add (Vector_begin v) i) (?v', w2)"
  proof (cases "size_m v - 1 > 0")
    case True
    then show ?thesis
      using i nt d0 mv de
      by (simp add: Erase.simps Vector_end_def Vector_begin_def GetAddress_def ptr_add_def)
  next
    case False
    then have "i = 0" and "size_m v = 1" using i by simp_all
    then show ?thesis
      using nt d0 mv de
      by (simp add: Erase.simps Vector_end_def Vector_begin_def GetAddress_def ptr_add_def)
  qed
  define ys where "ys = ?pre @ ?suf"
  have c2: "cells_at (buffer_m (data_m ?v')) w2 = Some (map Some ys @ None # rest)"
    using c1 bz unfolding ys_def w2_def by simp
  have s1: "size_m ?v' = length ys" using lps unfolding ys_def by simp
  have s2: "capacity_m (data_m ?v') = length ys + length (None # rest)"
    using s1 lr sz i by simp
  have f2: "fits (capacity_m (data_m ?v')) w2"
    using wf_fits [OF wf] z1 unfolding w2_def by (simp add: fits_def)
  have w2: "wf ?v' w2" by (rule wf_intro [OF c2 s1 s2 f2])
  have e2: "elems ?v' w2 = ys" by (rule elems_intro [OF c2 s1 s2])
  have raw: "load_n ?p 1 w2 = None"
    using c2 s1 by (simp add: load_n_cells)
  have o2: "\<forall>b. b \<noteq> ?b \<longrightarrow> cells_at b w2 = cells_at b w"
    using c1 o1 unfolding w2_def by simp
  have b2: "budget w2 = budget w" using b1 unfolding w2_def by simp
  have h2: "length (heap w2) = length (heap w)" using h1 unfolding w2_def by simp
  show ?thesis using r w2 e2 raw o2 b2 h2 unfolding ys_def by blast
qed

lemma Vector_dtor_result:
  assumes "wf v w"
  shows "\<exists>w'. Vector_dtor v w = Some w' \<and> budget w' = budget w \<and>
           length (heap w') = length (heap w) \<and>
           (\<forall>a. cells_at a w' =
                (if a = buffer_m (data_m v) \<and> a \<noteq> 0 then None else cells_at a w)) \<and>
           sizeof_T w' = sizeof_T w"
proof -
  obtain cs where cs: "cells_at (buffer_m (data_m v)) w = Some cs"
    and len: "length cs = capacity_m (data_m v)"
    and live: "list_all (\<lambda>c. c \<noteq> None) (take (size_m v) cs)"
    and sz: "size_m v \<le> capacity_m (data_m v)"
    using assms by (rule wf_cells)
  let ?w1 = "set_cells (buffer_m (data_m v)) (replicate (size_m v) None @ drop (size_m v) cs) w"
  have d: "destroy_n (GetAddress (data_m v)) (size_m v) w = Some ?w1"
    using destroy_n_eq [of "GetAddress (data_m v)" w cs "size_m v"] cs len sz live
    by (simp add: GetAddress_def)
  have r: "Vector_dtor v w = Some (Deallocate (buffer_m (data_m v)) ?w1)"
    using d by (simp add: Vector_dtor_def RawMemory_dtor_def)
  have c: "\<forall>a. cells_at a (Deallocate (buffer_m (data_m v)) ?w1) =
                (if a = buffer_m (data_m v) \<and> a \<noteq> 0 then None else cells_at a w)"
    using cs by simp
  show ?thesis using r c by simp
qed

lemma Vector_Swap_eq: "Vector_Swap a b = (b, a)"
  by (simp add: Vector_Swap_def)

lemma wf_distinct_buffers:
  assumes "wf this w" and "wf rhs w" and "capacity_m (data_m this) < size_m rhs"
  shows "buffer_m (data_m rhs) \<noteq> buffer_m (data_m this)"
proof
  assume eq: "buffer_m (data_m rhs) = buffer_m (data_m this)"
  obtain cs where "cells_at (buffer_m (data_m this)) w = Some cs"
    and "length cs = capacity_m (data_m this)"
    using assms(1) by (rule wf_cells)
  moreover obtain ds where "cells_at (buffer_m (data_m rhs)) w = Some ds"
    and "length ds = capacity_m (data_m rhs)" and "size_m rhs \<le> capacity_m (data_m rhs)"
    using assms(2) by (rule wf_cells)
  ultimately show False using eq assms(3) by simp
qed

lemma store_n_lengths:
  assumes "store_n p xs w = Some w'"
  shows "map_option length (cells_at a w') = map_option length (cells_at a w)"
    and "\<exists>cs. cells_at (base p) w = Some cs \<and> off p + length xs \<le> length cs"
proof -
  obtain cs where cs: "cells_at (base p) w = Some cs"
    using assms by (cases "cells_at (base p) w") (simp_all add: store_n_def)
  have b: "off p + length xs \<le> length cs"
    using assms cs by (simp add: store_n_cells split: if_splits)
  have w': "w' = set_cells (base p) (take (off p) cs @ xs @ drop (off p + length xs) cs) w"
    using assms cs b by (simp add: store_n_cells)
  show "map_option length (cells_at a w') = map_option length (cells_at a w)"
    using cs b unfolding w' by (cases "a = base p") auto
  show "\<exists>cs. cells_at (base p) w = Some cs \<and> off p + length xs \<le> length cs"
    using cs b by blast
qed

lemma construct_at_lengths:
  assumes "construct_at T p a w = Returned u w'"
  shows "map_option length (cells_at b w') = map_option length (cells_at b w)"
    and "\<exists>cs. cells_at (base p) w = Some cs \<and> off p < length cs"
proof -
  obtain ws where s: "store_n p [Some (arg_value T a)] w = Some ws"
    using assms by (cases "store_n p [Some (arg_value T a)] w") (simp_all add: construct_at_def)
  have "\<exists>b'. w' = ws\<lparr>budget := b'\<rparr>"
    using assms s by (auto simp: construct_at_def split: outcome.splits)
  then show "map_option length (cells_at b w') = map_option length (cells_at b w)"
    using store_n_lengths(1) [OF s, of b] by auto
  show "\<exists>cs. cells_at (base p) w = Some cs \<and> off p < length cs"
    using store_n_lengths(2) [OF s] by auto
qed

lemma uninitialized_copy_n_lengths:
  assumes "uninitialized_copy_n T src n dst w = Returned u w'"
  shows "map_option length (cells_at b w') = map_option length (cells_at b w)"
    and "\<exists>cs. cells_at (base dst) w = Some cs \<and> off dst + n \<le> length cs"
proof -
  obtain xs where l: "load_n src n w = Some xs"
    using assms by (cases "load_n src n w") (simp_all add: uninitialized_copy_n_def)
  have lx: "length xs = n" using l by (rule load_n_Some_length)
  obtain ws where s: "store_n dst (map Some xs) w = Some ws"
    using assms l by (cases "store_n dst (map Some xs) w") (simp_all add: uninitialized_copy_n_def)
  have "\<exists>b'. w' = ws\<lparr>budget := b'\<rparr>"
    using assms l s by (auto simp: uninitialized_copy_n_def split: prod.splits if_splits)
  then show "map_option length (cells_at b w') = map_option length (cells_at b w)"
    using store_n_lengths(1) [OF s, of b] by auto
  show "\<exists>cs. cells_at (base dst) w = Some cs \<and> off dst + n \<le> length cs"
    using store_n_lengths(2) [OF s] lx by auto
qed

lemma uninitialized_move_n_lengths:
  assumes "uninitialized_move_n T src n dst w = Returned u w'"
  shows "map_option length (cells_at b w') = map_option length (cells_at b w)"
    and "\<exists>cs. cells_at (base dst) w = Some cs \<and> off dst + n \<le> length cs"
proof -
  obtain xs where l: "load_n src n w = Some xs"
    using assms by (cases "load_n src n w") (simp_all add: uninitialized_move_n_def)
  have lx: "length xs = n" using l by (rule load_n_Some_length)
  obtain k wt where t: "elem_ticks T MoveCtor n w = (k, wt)" by (cases "elem_ticks T MoveCtor n w")
  have ct: "\<And>c. cells_at c wt = cells_at c w"
    using cells_at_elem_ticks [of _ T MoveCtor n w] t by simp
  obtain w1 where s1: "store_n src (map (\<lambda>x. Some (moved_from T x)) (take k xs)) wt = Some w1"
    using assms l t
    by (cases "store_n src (map (\<lambda>x. Some (moved_from T x)) (take k xs)) wt")
      (simp_all add: uninitialized_move_n_def)
  obtain w2 where s2: "store_n dst (map Some xs) w1 = Some w2"
    using assms l t s1
    by (cases "store_n dst (map Some xs) w1") (simp_all add: uninitialized_move_n_def)
  have w': "w' = w2"
    using assms l t s1 s2 by (simp add: uninitialized_move_n_def split: if_splits)
  have l1: "\<And>c. map_option length (cells_at c w1) = map_option length (cells_at c w)"
    using store_n_lengths(1) [OF s1] ct by simp
  show "map_option length (cells_at b w') = map_option length (cells_at b w)"
    using store_n_lengths(1) [OF s2, of b] l1 [of b] w' by simp
  obtain cs where c: "cells_at (base dst) w1 = Some cs" and bd: "off dst + length (map Some xs) \<le> length cs"
    using store_n_lengths(2) [OF s2] by blast
  obtain cs0 where c0: "cells_at (base dst) w = Some cs0" and "length cs0 = length cs"
    using l1 [of "base dst"] c by (cases "cells_at (base dst) w") auto
  then show "\<exists>cs. cells_at (base dst) w = Some cs \<and> off dst + n \<le> length cs"
    using bd lx by auto
qed

lemma RawMemory_ctor_block:
  assumes "RawMemory_ctor n w = Returned nd w1"
  shows "capacity_m nd = n"
    and "\<exists>ds. cells_at (buffer_m nd) w1 = Some ds \<and> length ds \<le> n"
proof -
  show "capacity_m nd = n"
    using assms
    by (auto simp: RawMemory_ctor_def Allocate_def split: if_splits prod.splits bool.splits)
  show "\<exists>ds. cells_at (buffer_m nd) w1 = Some ds \<and> length ds \<le> n"
  proof (cases "n = 0")
    case True
    then show ?thesis using assms by auto
  next
    case False
    from False show ?thesis
    proof (cases rule: RawMemory_ctor_cases_gen [where w = w])
      case (bad_alloc wt)
      then show ?thesis using assms by simp
    next
      case (ok w1')
      then have "nd = \<lparr>buffer_m = Suc (length (heap w)), capacity_m = n\<rparr>" and "w1 = w1'"
        using assms by simp_all
      then show ?thesis using ok(3) new_cells_le [of n w] by simp
    qed
  qed
qed

lemma RawMemory_ctor_capacity: "RawMemory_ctor n w = Returned nd w1 \<Longrightarrow> capacity_m nd = n"
  by (auto simp: RawMemory_ctor_def Allocate_def split: if_splits prod.splits bool.splits)

lemma migrate_k_after:
  "after (migrate_k T v nd w K) = Some s \<Longrightarrow>
   fst s = v \<or> (\<exists>w4. after (K nd (data_m v) w4) = Some s)"
  by (auto simp: migrate_k_def split: outcome.splits option.splits if_splits)

lemma Reserve_capacity:
  assumes "after (Reserve T n (v, w)) = Some (v', w')"
  shows "capacity_m (data_m v) \<le> capacity_m (data_m v')"
proof (cases "n \<le> capacity_m (data_m v)")
  case True
  then show ?thesis using assms by (simp add: Reserve_small)
next
  case False
  show ?thesis
  proof (cases "RawMemory_ctor n w")
    case (Returned nd w1)
    have c: "capacity_m nd = n" using Returned by (rule RawMemory_ctor_capacity)
    let ?K = "\<lambda>d nd w3. Returned () (v\<lparr>data_m := d\<rparr>, RawMemory_dtor nd w3)"
    have "after (migrate_k T v nd w1 ?K) = Some (v', w')"
      using assms False Returned by (simp add: Reserve_migrate)
    from migrate_k_after [OF this] show ?thesis using c False by auto
  next
    case (Threw e w1)
    then show ?thesis using assms False by (simp add: Reserve_migrate)
  next
    case Undefined
    then show ?thesis using assms False by (simp add: Reserve_migrate)
  qed
qed

lemma append_k_after:
  "after (append_k T a v w K1 K2) = Some s \<Longrightarrow>
   fst s = v \<or>
   (size_m v = capacity_m (data_m v) \<and>
    (\<exists>nd w4. size_m v \<le> capacity_m nd \<and> after (K1 nd (data_m v) w4) = Some s)) \<or>
   (\<exists>w1. after (K2 w1) = Some s)"
proof (cases "size_m v = capacity_m (data_m v)")
  case False
  assume a: "after (append_k T a v w K1 K2) = Some s"
  then show ?thesis using False
    by (auto simp: append_k_def Capacity_def split: outcome.splits option.splits)
next
  case True
  assume a: "after (append_k T a v w K1 K2) = Some s"
  let ?n = "if size_m v = 0 then 1 else size_m v * 2 mod size_max"
  have ak: "append_k T a v w K1 K2 =
        (case RawMemory_ctor ?n w of
           Undefined \<Rightarrow> Undefined
         | Threw e w1 \<Rightarrow> Threw e (v, w1)
         | Returned new_data w1 \<Rightarrow>
             (case RawMemory_plus new_data (size_m v) of
                None \<Rightarrow> Undefined
              | Some p \<Rightarrow>
                  (case construct_at T p a w1 of
                     Undefined \<Rightarrow> Undefined
                   | Threw e w2 \<Rightarrow> Threw e (v, RawMemory_dtor new_data w2)
                   | Returned u w2 \<Rightarrow> migrate_k T v new_data w2 K1)))"
    unfolding append_k_def Capacity_def using True by (simp only: if_True simp_thms)
  show ?thesis
  proof (cases "RawMemory_ctor ?n w")
    case (Returned nd w1)
    show ?thesis
    proof (cases "RawMemory_plus nd (size_m v)")
      case None
      then show ?thesis using a Returned unfolding ak by simp
    next
      case (Some p)
      have c: "size_m v \<le> capacity_m nd"
        using Some by (simp add: RawMemory_plus_def split: if_splits)
      show ?thesis
      proof (cases "construct_at T p a w1")
        case r2: (Returned u w2)
        have "after (migrate_k T v nd w2 K1) = Some s"
          using a Returned Some r2 unfolding ak by simp
        from migrate_k_after [OF this] show ?thesis using c True by blast
      next
        case (Threw e w2)
        then show ?thesis using a Returned Some unfolding ak by auto
      next
        case Undefined
        then show ?thesis using a Returned Some unfolding ak by simp
      qed
    qed
  next
    case (Threw e w1)
    then show ?thesis using a unfolding ak by auto
  next
    case Undefined
    then show ?thesis using a unfolding ak by simp
  qed
qed

lemma PushBack_capacity:
  assumes "after (PushBack T x (v, w)) = Some (v', w')"
  shows "capacity_m (data_m v) \<le> capacity_m (data_m v')"
  using append_k_after [OF assms [unfolded PushBack_append]] by auto

lemma PushBack_rv_capacity:
  assumes "after (PushBack_rv T x (v, w)) = Some (v', w')"
  shows "capacity_m (data_m v) \<le> capacity_m (data_m v')"
  using append_k_after [OF assms [unfolded PushBack_rv_append]] by auto

lemma EmplaceBack_capacity:
  assumes "after (EmplaceBack T a (v, w)) = Some (v', w')"
  shows "capacity_m (data_m v) \<le> capacity_m (data_m v')"
  using append_k_after [OF assms [unfolded EmplaceBack_append]]
  by (auto split: option.splits)

lemma PopBack_capacity:
  assumes "after (PopBack (v, w)) = Some (v', w')"
  shows "capacity_m (data_m v) \<le> capacity_m (data_m v')"
  using assms by (auto simp: PopBack.simps split: if_splits option.splits)

lemma Erase_capacity:
  assumes "after (Erase T pos (v, w)) = Some (v', w')"
  shows "capacity_m (data_m v) \<le> capacity_m (data_m v')"
  using assms
  by (auto simp: Erase.simps split: if_splits option.splits outcome.splits)

lemma Resize_capacity:
  assumes "after (Resize T n (v, w)) = Some (v', w')"
  shows "capacity_m (data_m v) \<le> capacity_m (data_m v')"
proof -
  obtain v1 w1 where s1: "(if n < size_m v
            then (case destroy_n (ptr_add (GetAddress (data_m v)) n) (size_m v - n) w of
                    None \<Rightarrow> None
                  | Some w1 \<Rightarrow> Some (v\<lparr>size_m := n\<rparr>, w1))
            else Some (v, w)) = Some (v1, w1)"
    using assms by (cases "(if n < size_m v
            then (case destroy_n (ptr_add (GetAddress (data_m v)) n) (size_m v - n) w of
                    None \<Rightarrow> None
                  | Some w1 \<Rightarrow> Some (v\<lparr>size_m := n\<rparr>, w1))
            else Some (v, w))") (auto simp: Resize.simps)
  have d1: "data_m v1 = data_m v" using s1 by (auto split: if_splits option.splits)
  show ?thesis
  proof (cases "n > size_m v1")
    case False
    then show ?thesis using assms s1 d1 by (simp add: Resize.simps)
  next
    case True
    show ?thesis
    proof (cases "Reserve T n (v1, w1)")
      case (Returned u s2)
      obtain v2 w2 where s2: "s2 = (v2, w2)" by (cases s2)
      have "after (Reserve T n (v1, w1)) = Some (v2, w2)" using Returned s2 by simp
      from Reserve_capacity [OF this] have c2: "capacity_m (data_m v) \<le> capacity_m (data_m v2)"
        using d1 by simp
      show ?thesis using assms s1 True Returned s2 c2
        by (auto simp: Resize.simps split: outcome.splits)
    next
      case (Threw e s2)
      obtain v2 w2 where s2: "s2 = (v2, w2)" by (cases s2)
      have "after (Reserve T n (v1, w1)) = Some (v2, w2)" using Threw s2 by simp
      from Reserve_capacity [OF this] have c2: "capacity_m (data_m v) \<le> capacity_m (data_m v2)"
        using d1 by simp
      show ?thesis using assms s1 True Threw s2 c2 by (simp add: Resize.simps)
    next
      case Undefined
      then show ?thesis using assms s1 True by (simp add: Resize.simps)
    qed
  qed
qed

lemma migration_lengths:
  assumes "(if c then uninitialized_move_n T src n dst w
            else uninitialized_copy_n T src n dst w) = Returned u w'"
  shows "map_option length (cells_at b w') = map_option length (cells_at b w)"
    and "\<exists>cs. cells_at (base dst) w = Some cs \<and> off dst + n \<le> length cs"
  using assms uninitialized_move_n_lengths [of T src n dst w u w']
    uninitialized_copy_n_lengths [of T src n dst w u w']
  by (cases c; simp)+

lemma Emplace_grow_bound:
  assumes r: "Emplace T pos a (v, w) = Returned res (v', w')"
    and full: "size_m v = Capacity v \<and> size_m v > 0"
    and al: "RawMemory_ctor (size_m v * 2 mod size_max) w = Returned nd w1"
  shows "size_m v < capacity_m nd \<and> v' = v\<lparr>data_m := nd, size_m := size_m v + 1\<rparr>"
proof -
  let ?c = "nothrow_move_constructible T \<or> \<not> copy_constructible T"
  have cap: "capacity_m nd = size_m v * 2 mod size_max"
    using al by (rule RawMemory_ctor_block(1))
  obtain ds where ds: "cells_at (buffer_m nd) w1 = Some ds"
    and lds: "length ds \<le> size_m v * 2 mod size_max"
    using RawMemory_ctor_block(2) [OF al] by blast
  obtain idx where d: "distance (Vector_begin v) pos = Some idx"
    using r full al by (cases "distance (Vector_begin v) pos") (simp_all add: Emplace.simps)
  obtain p where p: "RawMemory_plus nd idx = Some p"
    using r full al d by (cases "RawMemory_plus nd idx") (simp_all add: Emplace.simps)
  obtain u2 w2 where c2: "construct_at T p a w1 = Returned u2 w2"
    using r full al d p by (cases "construct_at T p a w1") (simp_all add: Emplace.simps)
  let ?m1 = "if ?c then uninitialized_move_n T (GetAddress (data_m v)) idx (GetAddress nd) w2
             else uninitialized_copy_n T (GetAddress (data_m v)) idx (GetAddress nd) w2"
  obtain u3 w3 where m1: "?m1 = Returned u3 w3"
    using r full al d p c2 by (cases ?m1) (simp_all add: Emplace.simps)
  have le: "\<not> size_m v < idx"
    using r full al d p c2 m1 by (auto simp: Emplace.simps split: if_splits)
  let ?m2 = "if ?c then uninitialized_move_n T (ptr_add (GetAddress (data_m v)) idx)
                          (size_m v - idx) (ptr_add (GetAddress nd) (idx + 1)) w3
             else uninitialized_copy_n T (ptr_add (GetAddress (data_m v)) idx)
                          (size_m v - idx) (ptr_add (GetAddress nd) (idx + 1)) w3"
  obtain u4 w4 where m2: "?m2 = Returned u4 w4"
    using r full al d p c2 m1 le by (cases ?m2) (simp_all add: Emplace.simps)
  have v': "v' = v\<lparr>data_m := nd, size_m := size_m v + 1\<rparr>"
    using r full al d p c2 m1 le m2
    by (auto simp: Emplace.simps split: option.splits)
  have l2: "map_option length (cells_at (buffer_m nd) w2) = Some (length ds)"
    using construct_at_lengths(1) [OF c2, of "buffer_m nd"] ds by simp
  have l3: "map_option length (cells_at (buffer_m nd) w3) = Some (length ds)"
    using migration_lengths(1) [OF m1, of "buffer_m nd"] l2 by simp
  obtain cs where cs: "cells_at (buffer_m nd) w3 = Some cs"
    and b: "idx + 1 + (size_m v - idx) \<le> length cs"
    using migration_lengths(2) [OF m2] by (auto simp: ptr_add_def GetAddress_def)
  have "length cs = length ds" using l3 cs by simp
  then have "size_m v + 1 \<le> size_m v * 2 mod size_max" using b le lds by simp
  then show ?thesis using cap v' by simp
qed

lemma Emplace_capacity:
  assumes "after (Emplace T pos a (v, w)) = Some (v', w')"
  shows "capacity_m (data_m v) \<le> capacity_m (data_m v')"
proof (cases "size_m v = Capacity v \<and> size_m v > 0")
  case True
  show ?thesis
  proof (cases "RawMemory_ctor (size_m v * 2 mod size_max) w")
    case (Returned nd w1)
    show ?thesis
    proof (cases "Emplace T pos a (v, w)")
      case r: (Returned res s)
      then have "Emplace T pos a (v, w) = Returned res (v', w')" using assms by simp
      from Emplace_grow_bound [OF this True Returned] show ?thesis
        using True by (simp add: Capacity_def)
    next
      case (Threw e s)
      then have "v' = v"
        using assms True Returned
        by (auto simp: Emplace.simps split: outcome.splits option.splits if_splits)
      then show ?thesis by simp
    next
      case Undefined
      then show ?thesis using assms by simp
    qed
  next
    case (Threw e w1)
    then show ?thesis using assms True by (simp add: Emplace.simps)
  next
    case Undefined
    then show ?thesis using assms True by (simp add: Emplace.simps)
  qed
next
  case False
  show ?thesis
  proof (cases "size_m v > 0")
    case True
    have "data_m v' = data_m v"
      using assms True False
      by (auto simp: Emplace.simps split: outcome.splits option.splits if_splits)
    then show ?thesis by simp
  next
    case z: False
    show ?thesis
    proof (cases "EmplaceBack T a (v, w)")
      case (Returned u s)
      then have "after (EmplaceBack T a (v, w)) = Some (v', w')"
        using assms False z by (cases s) (simp add: Emplace.simps)
      then show ?thesis by (rule EmplaceBack_capacity)
    next
      case (Threw e s)
      then have "after (EmplaceBack T a (v, w)) = Some (v', w')"
        using assms False z by (simp add: Emplace.simps)
      then show ?thesis by (rule EmplaceBack_capacity)
    next
      case Undefined
      then show ?thesis using assms False z by (simp add: Emplace.simps)
    qed
  qed
qed

lemma after_forget [simp]: "after (forget r) = after r"
  by (cases r) (simp_all add: forget_def)

lemma perform_capacity:
  assumes "after (perform T c (v, w)) = Some (v', w')"
  shows "capacity_m (data_m v) \<le> capacity_m (data_m v')"
proof (cases c)
  case (CReserve n)
  then show ?thesis using assms Reserve_capacity by simp
next
  case (CResize n)
  then show ?thesis using assms Resize_capacity by simp
next
  case (CPushBack x)
  then show ?thesis using assms PushBack_capacity by simp
next
  case (CPushBack_rv x)
  then show ?thesis using assms PushBack_rv_capacity by simp
next
  case (CEmplaceBack a)
  then show ?thesis using assms EmplaceBack_capacity by simp
next
  case CPopBack
  then show ?thesis using assms PopBack_capacity by simp
next
  case (CEmplace pos a)
  then show ?thesis using assms Emplace_capacity by simp
next
  case (CInsert pos x)
  then show ?thesis using assms Emplace_capacity by (simp add: Insert_def)
next
  case (CInsert_rv pos x)
  then show ?thesis using assms Emplace_capacity by (simp add: Insert_rv_def)
next
  case (CErase pos)
  then show ?thesis using assms Erase_capacity by simp
qed

lemma Vector_copy_ctor_capacity:
  "Vector_copy_ctor T other w = Returned c w1 \<Longrightarrow> capacity_m (data_m c) = size_m other"
  by (auto simp: Vector_copy_ctor_def split: outcome.splits dest: RawMemory_ctor_capacity)

lemma copy_assign_capacity:
  assumes "after (copy_assign T same (this, rhs, w)) = Some (this', rhs', w')"
  shows "capacity_m (data_m this) \<le> capacity_m (data_m this') \<and> rhs' = rhs"
proof (cases "\<not> same \<and> size_m rhs > capacity_m (data_m this)")
  case True
  show ?thesis
  proof (cases "Vector_copy_ctor T rhs w")
    case (Returned c w1)
    have "capacity_m (data_m c) = size_m rhs" using Returned by (rule Vector_copy_ctor_capacity)
    then show ?thesis
      using assms True Returned
      by (auto simp: copy_assign.simps Vector_Swap_eq split: option.splits)
  next
    case (Threw e w1)
    then show ?thesis using assms True by (simp add: copy_assign.simps)
  next
    case Undefined
    then show ?thesis using assms True by (simp add: copy_assign.simps)
  qed
next
  case False
  then show ?thesis
    using assms
    by (auto simp: copy_assign.simps split: if_splits outcome.splits option.splits)
qed

lemma move_assign_capacity:
  assumes "after (move_assign same (this, rhs, w)) = Some (this', rhs', w')"
    and "size_m rhs \<le> capacity_m (data_m rhs)"
  shows "capacity_m (data_m this) \<le> capacity_m (data_m this')"
  using assms
  by (auto simp: move_assign.simps Vector_move_ctor_eq Vector_Swap_eq
      split: if_splits option.splits)

lemma elem_ticks_compose:
  assumes "\<not> fails T e m w" and "budget w1 = budget (snd (elem_ticks T e m w))"
  shows "fails T e k w1 = fails T e (m + k) w"
    and "budget (snd (elem_ticks T e k w1)) = budget (snd (elem_ticks T e (m + k) w))"
proof -
  show "fails T e k w1 = fails T e (m + k) w"
    using assms by (cases "budget w e") (auto simp: fails_def elem_ticks_budget)
  show "budget (snd (elem_ticks T e k w1)) = budget (snd (elem_ticks T e (m + k) w))"
    using assms by (cases "budget w e") (auto simp: fails_def elem_ticks_budget)
qed

lemma elem_ticks_0 [simp]: "budget (snd (elem_ticks T e 0 w)) = budget w"
  by (cases "budget w e") (simp_all add: elem_ticks_budget fun_upd_idem)

lemma fails_0 [simp]: "\<not> fails T e 0 w"
  by (simp add: fails_def split: option.splits)

lemma take_1_drop: "i < length xs \<Longrightarrow> take (Suc 0) (drop i xs) = [xs ! i]"
proof -
  assume "i < length xs"
  then have "drop i xs = xs ! i # drop (Suc i) xs" by (rule Cons_nth_drop_Suc [symmetric])
  then show ?thesis by simp
qed

lemma copy_assign_elem_eq:
  assumes ds: "cells_at b1 w = Some ds" and cs: "cells_at b2 w = Some cs"
    and i1: "i < length ds" and i2: "i < length cs"
    and l1: "ds ! i \<noteq> None" and l2: "cs ! i = Some x"
  shows "copy_assign_elem T (Ptr b1 i) (Ptr b2 i) w =
     (if fails T CopyAssign 1 w
      then Threw ElemThrow (snd (elem_ticks T CopyAssign 1 w))
      else Returned ()
             (set_cells b1 (ds[i := Some x])
                (snd (elem_ticks T CopyAssign 1 w))))"
proof -
  have ld2: "load_n (Ptr b2 i) 1 w = Some [x]"
    using cs i2 l2 by (simp add: load_n_cells take_1_drop)
  have ld1: "load_n (Ptr b1 i) 1 w \<noteq> None"
    using ds i1 l1 by (simp add: load_n_cells take_1_drop)
  have cw: "cells_at b1 (snd (elem_ticks T CopyAssign 1 w)) = Some ds"
    using ds by simp
  have st: "store_n (Ptr b1 i) (map Some [x]) (snd (elem_ticks T CopyAssign 1 w)) =
      Some (set_cells b1 (ds[i := Some x]) (snd (elem_ticks T CopyAssign 1 w)))"
    using cw i1 by (simp add: store_n_cells upd_conv_take_nth_drop)
  show ?thesis
    using ld1 ld2 st elem_ticks_lt [of T CopyAssign 1 w]
    by (auto simp: copy_assign_elem_def case_prod_beta simp del: One_nat_def)
qed

lemma fails_mono: "fails T e m w \<Longrightarrow> m \<le> n \<Longrightarrow> fails T e n w"
  by (auto simp: fails_def split: option.splits)

lemma take_Suc_drop: "i < length xs \<Longrightarrow> take (Suc k) (drop i xs) = xs ! i # take k (drop (Suc i) xs)"
proof -
  assume "i < length xs"
  then have "drop i xs = xs ! i # drop (Suc i) xs" by (rule Cons_nth_drop_Suc [symmetric])
  then show ?thesis by simp
qed

lemma assign_loop_result:
  assumes ne0: "0 < n \<Longrightarrow> buffer_m d \<noteq> buffer_m r"
    and src: "cells_at (buffer_m r) w0 = Some (map Some xs @ rest2)"
    and nx: "n \<le> length xs" and nd: "n \<le> capacity_m d" and nr: "n \<le> capacity_m r"
  shows "cells_at (buffer_m d) w = Some (map Some dn @ map Some old @ rest) \<Longrightarrow>
     cells_at (buffer_m r) w = cells_at (buffer_m r) w0 \<Longrightarrow>
     length dn = i \<Longrightarrow> i + length old = n \<Longrightarrow>
     (if fails T CopyAssign (length old) w
      then (\<exists>w'. assign_loop T d r i n w = Threw ElemThrow w' \<and>
              (\<forall>a. a \<noteq> buffer_m d \<longrightarrow> cells_at a w' = cells_at a w) \<and>
              length (heap w') = length (heap w) \<and> sizeof_T w' = sizeof_T w)
      else (\<exists>w'. assign_loop T d r i n w = Returned () w' \<and>
              cells_at (buffer_m d) w' =
                Some (map Some dn @ map Some (take (length old) (drop i xs)) @ rest) \<and>
              (\<forall>a. a \<noteq> buffer_m d \<longrightarrow> cells_at a w' = cells_at a w) \<and>
              length (heap w') = length (heap w) \<and>
              budget w' = budget (snd (elem_ticks T CopyAssign (length old) w)) \<and>
              sizeof_T w' = sizeof_T w))"
proof (induction old arbitrary: dn i w)
  case Nil
  then have "assign_loop T d r i n w = Returned () w"
    by (subst assign_loop.simps) simp
  then show ?case using Nil by simp
next
  case (Cons o1 old)
  let ?b1 = "buffer_m d" and ?b2 = "buffer_m r"
  let ?ds = "map Some dn @ map Some (o1 # old) @ rest"
  have lt: "i < n" using Cons.prems(4) by simp
  have ne: "buffer_m d \<noteq> buffer_m r" using ne0 lt by simp
  have ix: "i < length xs" using lt nx by simp
  have i1: "i < length ?ds" using Cons.prems(3) by simp
  have i2: "i < length (map Some xs @ rest2)" using ix by simp
  have l1: "?ds ! i \<noteq> None" using Cons.prems(3) by (simp add: nth_append)
  have l2: "(map Some xs @ rest2) ! i = Some (xs ! i)" using ix by (simp add: nth_append)
  have cs: "cells_at ?b2 w = Some (map Some xs @ rest2)" using Cons.prems(2) src by simp
  have bz: "?b1 \<noteq> 0" using Cons.prems(1) by (rule cells_at_nonempty) simp
  let ?wt = "snd (elem_ticks T CopyAssign 1 w)"
  let ?w1 = "set_cells ?b1 (?ds[i := Some (xs ! i)]) ?wt"
  have ce: "copy_assign_elem T (Ptr ?b1 i) (Ptr ?b2 i) w =
     (if fails T CopyAssign 1 w then Threw ElemThrow ?wt else Returned () ?w1)"
    using copy_assign_elem_eq [OF Cons.prems(1) cs i1 i2 l1 l2, of T] by simp
  have step: "assign_loop T d r i n w =
     (case copy_assign_elem T (Ptr ?b1 i) (Ptr ?b2 i) w of
        Returned _ w' \<Rightarrow> assign_loop T d r (Suc i) n w'
      | Threw e w' \<Rightarrow> Threw e w'
      | Undefined \<Rightarrow> Undefined)"
    using lt nd nr by (subst assign_loop.simps) (simp add: RawMemory_index_def)
  show ?case
  proof (cases "fails T CopyAssign 1 w")
    case True
    then have f: "fails T CopyAssign (length (o1 # old)) w"
      by (rule fails_mono) simp
    have "assign_loop T d r i n w = Threw ElemThrow ?wt" using step ce True by simp
    then show ?thesis using f by simp
  next
    case False
    have r1: "assign_loop T d r i n w = assign_loop T d r (Suc i) n ?w1"
      using step ce False by simp
    have upd: "?ds[i := Some (xs ! i)] = map Some (dn @ [xs ! i]) @ map Some old @ rest"
      using Cons.prems(3) by (simp add: list_update_append)
    have c1: "cells_at ?b1 ?w1 = Some (map Some (dn @ [xs ! i]) @ map Some old @ rest)"
      using Cons.prems(1) bz upd by simp
    have c2: "cells_at ?b2 ?w1 = cells_at ?b2 w0"
      using Cons.prems(1,2) ne by simp
    have o1: "\<And>a. a \<noteq> ?b1 \<Longrightarrow> cells_at a ?w1 = cells_at a w"
      using Cons.prems(1) by simp
    have h1: "length (heap ?w1) = length (heap w)" by simp
    have z1: "sizeof_T ?w1 = sizeof_T w" by simp
    have b1: "budget ?w1 = budget (snd (elem_ticks T CopyAssign 1 w))" by simp
    note cmp = elem_ticks_compose [OF False b1, of "length old"]
    have ln: "length (dn @ [xs ! i]) = Suc i" using Cons.prems(3) by simp
    have sn: "Suc i + length old = n" using Cons.prems(4) by simp
    note ih = Cons.IH [OF c1 c2 ln sn]
    have tk: "map Some (dn @ [xs ! i]) @ map Some (take (length old) (drop (Suc i) xs)) @ rest =
        map Some dn @ map Some (take (length (o1 # old)) (drop i xs)) @ rest"
      using ix by (simp add: take_Suc_drop)
    show ?thesis
    proof (cases "fails T CopyAssign (length old) ?w1")
      case True
      then have f: "fails T CopyAssign (length (o1 # old)) w" using cmp(1) by simp
      obtain w' where "assign_loop T d r (Suc i) n ?w1 = Threw ElemThrow w'"
        and "\<forall>a. a \<noteq> ?b1 \<longrightarrow> cells_at a w' = cells_at a ?w1"
        and "length (heap w') = length (heap ?w1)"
        and "sizeof_T w' = sizeof_T ?w1"
        using ih True by auto
      then show ?thesis using f r1 o1 h1 z1 by auto
    next
      case nf: False
      then have f: "\<not> fails T CopyAssign (length (o1 # old)) w" using cmp(1) by simp
      obtain w' where "assign_loop T d r (Suc i) n ?w1 = Returned () w'"
        and "cells_at ?b1 w' =
                Some (map Some (dn @ [xs ! i]) @ map Some (take (length old) (drop (Suc i) xs)) @ rest)"
        and "\<forall>a. a \<noteq> ?b1 \<longrightarrow> cells_at a w' = cells_at a ?w1"
        and "length (heap w') = length (heap ?w1)"
        and "budget w' = budget (snd (elem_ticks T CopyAssign (length old) ?w1))"
        and "sizeof_T w' = sizeof_T ?w1"
        using ih nf by auto
      then show ?thesis using f r1 o1 h1 z1 tk cmp(2) by auto
    qed
  qed
qed

lemma elem_ticks_spent:
  "\<not> fails T e n w \<Longrightarrow> can_throw T e \<Longrightarrow>
   budget (snd (elem_ticks T e n w)) = (budget w)(e := spent (budget w e) n)"
  by (cases "budget w e") (auto simp: fails_def elem_ticks_budget spent_def)

lemma spent_0 [simp]: "spent b 0 = b"
  by (cases b) (simp_all add: spent_def)

lemma Vector_copy_ctor_result:
  assumes wf: "wf other w" and pos: "0 < size_m other"
  shows "(budget w Alloc = Some 0 \<and>
          (\<exists>w'. Vector_copy_ctor T other w = Threw BadAlloc w' \<and> heap w' = heap w \<and>
             sizeof_T w' = sizeof_T w)) \<or>
         (budget w Alloc \<noteq> Some 0 \<and> fails T CopyCtor (size_m other) w \<and>
          (\<exists>w'. Vector_copy_ctor T other w = Threw ElemThrow w' \<and>
             (\<forall>a. a \<noteq> Suc (length (heap w)) \<longrightarrow> cells_at a w' = cells_at a w) \<and>
             length (heap w') = Suc (length (heap w)) \<and> sizeof_T w' = sizeof_T w)) \<or>
         (budget w Alloc \<noteq> Some 0 \<and> \<not> fails T CopyCtor (size_m other) w \<and>
          (\<exists>w'. Vector_copy_ctor T other w =
               Returned \<lparr>data_m = \<lparr>buffer_m = Suc (length (heap w)), capacity_m = size_m other\<rparr>,
                          size_m = size_m other\<rparr> w' \<and>
             cells_at (Suc (length (heap w))) w' = Some (map Some (elems other w)) \<and>
             (\<forall>a. a \<noteq> Suc (length (heap w)) \<longrightarrow> cells_at a w' = cells_at a w) \<and>
             length (heap w') = Suc (length (heap w)) \<and>
             budget w' = (budget (snd (tick Alloc w)))
                           (CopyCtor := spent (budget w CopyCtor) (size_m other)) \<and>
             sizeof_T w' = sizeof_T w))"
proof -
  let ?n = "size_m other"
  have n0: "?n \<noteq> 0" using pos by simp
  have "?n \<le> capacity_m (data_m other)" using wf by (simp add: wf_def)
  with wf_fits [OF wf] have fn: "fits ?n w" by (rule fits_mono)
  have bb: "buffer_m (data_m other) \<le> length (heap w)" using wf by (rule wf_bound)
  obtain cs where cs: "cells_at (buffer_m (data_m other)) w = Some cs"
    and len: "length cs = capacity_m (data_m other)"
    and live: "list_all (\<lambda>c. c \<noteq> None) (take ?n cs)"
    and sz: "?n \<le> capacity_m (data_m other)"
    and el: "elems other w = map the (take ?n cs)"
    using wf by (rule wf_cells)
  from n0 fn show ?thesis
  proof (cases rule: RawMemory_ctor_cases [where w = w])
    case (bad_alloc wt)
    then show ?thesis by (simp add: Vector_copy_ctor_def)
  next
    case (ok w1)
    let ?nb = "Suc (length (heap w))"
    let ?d = "\<lparr>buffer_m = ?nb, capacity_m = ?n\<rparr>"
    have c1: "cells_at (buffer_m (data_m other)) w1 = Some cs"
      using ok(3) bb cs by simp
    have ld: "load_n (GetAddress (data_m other)) ?n w1 = Some (elems other w)"
      using c1 len live sz el by (simp add: load_n_cells GetAddress_def)
    have dst: "cells_at (base (GetAddress ?d)) w1 = Some (replicate ?n None)"
      using ok(3) by (simp add: GetAddress_def)
    have lx: "length (elems other w) = ?n" using el len sz by simp
    let ?wt = "snd (elem_ticks T CopyCtor ?n w1)"
    let ?w2 = "(set_cells ?nb (map Some (elems other w)) w1)\<lparr>budget := budget ?wt\<rparr>"
    have cp: "uninitialized_copy_n T (GetAddress (data_m other)) ?n (GetAddress ?d) w1 =
       (if fails T CopyCtor ?n w1 then Threw ElemThrow ?wt else Returned () ?w2)"
      using uninitialized_copy_n_eq [OF ld dst, of T] elem_ticks_lt [of T CopyCtor ?n w1]
      by (simp add: GetAddress_def)
    have f: "fails T CopyCtor ?n w1 = fails T CopyCtor ?n w"
      by (rule fails_budget_eq) (simp add: ok(6))
    have r: "Vector_copy_ctor T other w =
       (if fails T CopyCtor ?n w then Threw ElemThrow (RawMemory_dtor ?d ?wt)
        else Returned \<lparr>data_m = ?d, size_m = ?n\<rparr> ?w2)"
      using ok(2) cp f by (simp add: Vector_copy_ctor_def)
    show ?thesis
    proof (cases "fails T CopyCtor ?n w")
      case True
      have "\<forall>a. a \<noteq> ?nb \<longrightarrow> cells_at a (RawMemory_dtor ?d ?wt) = cells_at a w"
        using ok(3) by (simp add: RawMemory_dtor_def)
      moreover have "length (heap (RawMemory_dtor ?d ?wt)) = Suc (length (heap w))"
        using ok(4) by (simp add: RawMemory_dtor_def)
      moreover have "sizeof_T (RawMemory_dtor ?d ?wt) = sizeof_T w" using ok(7) by simp
      ultimately show ?thesis using True r ok(1) by auto
    next
      case False
      have ct: "can_throw T CopyCtor" by (simp add: can_throw_def)
      have nf1: "\<not> fails T CopyCtor ?n w1" using False f by simp
      have b2: "budget ?w2 = (budget (snd (tick Alloc w)))
                           (CopyCtor := spent (budget w CopyCtor) ?n)"
        using elem_ticks_spent [OF nf1 ct] ok(5) ok(6) [of CopyCtor] by simp
      have c2: "cells_at ?nb ?w2 = Some (map Some (elems other w))"
        using ok(3) by simp
      have o2: "\<forall>a. a \<noteq> ?nb \<longrightarrow> cells_at a ?w2 = cells_at a w"
        using ok(3) by simp
      have h2: "length (heap ?w2) = Suc (length (heap w))" using ok(4) by simp
      have z2: "sizeof_T ?w2 = sizeof_T w" using ok(7) by simp
      show ?thesis using False r ok(1) b2 c2 o2 h2 z2 by auto
    qed
  qed
qed

lemma copy_assign_grow:
  assumes wf1: "wf this w" and wf2: "wf rhs w"
    and big: "capacity_m (data_m this) < size_m rhs"
  shows "(budget w Alloc = Some 0 \<and>
          (\<exists>w'. copy_assign T False (this, rhs, w) = Threw BadAlloc (this, rhs, w') \<and>
                heap w' = heap w \<and> sizeof_T w' = sizeof_T w)) \<or>
         (budget w Alloc \<noteq> Some 0 \<and> fails T CopyCtor (size_m rhs) w \<and>
          (\<exists>w'. copy_assign T False (this, rhs, w) = Threw ElemThrow (this, rhs, w') \<and>
             (\<forall>a. a \<noteq> Suc (length (heap w)) \<longrightarrow> cells_at a w' = cells_at a w) \<and>
             sizeof_T w' = sizeof_T w)) \<or>
         (budget w Alloc \<noteq> Some 0 \<and> \<not> fails T CopyCtor (size_m rhs) w \<and>
          (\<exists>w'. copy_assign T False (this, rhs, w) =
               Returned () (\<lparr>data_m = \<lparr>buffer_m = Suc (length (heap w)),
                                        capacity_m = size_m rhs\<rparr>,
                             size_m = size_m rhs\<rparr>, rhs, w') \<and>
             cells_at (Suc (length (heap w))) w' = Some (map Some (elems rhs w)) \<and>
             (\<forall>a. a \<noteq> Suc (length (heap w)) \<longrightarrow>
                  cells_at a w' =
                    (if a = buffer_m (data_m this) \<and> a \<noteq> 0 then None else cells_at a w)) \<and>
             budget w' = (budget (snd (tick Alloc w)))
                           (CopyCtor := spent (budget w CopyCtor) (size_m rhs)) \<and>
             sizeof_T w' = sizeof_T w))"
proof -
  have pos: "0 < size_m rhs" using big by simp
  have b1: "buffer_m (data_m this) \<le> length (heap w)" using wf1 by (rule wf_bound)
  let ?nb = "Suc (length (heap w))"
  let ?c = "\<lparr>data_m = \<lparr>buffer_m = ?nb, capacity_m = size_m rhs\<rparr>, size_m = size_m rhs\<rparr>"
  from Vector_copy_ctor_result [OF wf2 pos, of T] show ?thesis
  proof (elim disjE exE conjE)
    fix w'
    assume "budget w Alloc = Some 0" "Vector_copy_ctor T rhs w = Threw BadAlloc w'"
      "heap w' = heap w" "sizeof_T w' = sizeof_T w"
    then show ?thesis using big by (simp add: copy_assign.simps)
  next
    fix w'
    assume "budget w Alloc \<noteq> Some 0" "fails T CopyCtor (size_m rhs) w"
      "Vector_copy_ctor T rhs w = Threw ElemThrow w'"
      "\<forall>a. a \<noteq> ?nb \<longrightarrow> cells_at a w' = cells_at a w" "sizeof_T w' = sizeof_T w"
    then show ?thesis using big by (simp add: copy_assign.simps)
  next
    fix w1
    assume al: "budget w Alloc \<noteq> Some 0" and nf: "\<not> fails T CopyCtor (size_m rhs) w"
      and r: "Vector_copy_ctor T rhs w = Returned ?c w1"
      and c: "cells_at ?nb w1 = Some (map Some (elems rhs w))"
      and o: "\<forall>a. a \<noteq> ?nb \<longrightarrow> cells_at a w1 = cells_at a w"
      and b: "budget w1 = (budget (snd (tick Alloc w)))
                           (CopyCtor := spent (budget w CopyCtor) (size_m rhs))"
      and z: "sizeof_T w1 = sizeof_T w"
    have s: "cells_at (buffer_m (data_m this)) w1 = cells_at (buffer_m (data_m this)) w"
      using o b1 by simp
    have wf1': "wf this w1" using wf1 s z by (rule wf_same_cells)
    obtain w2 where d: "Vector_dtor this w1 = Some w2" and b2: "budget w2 = budget w1"
      and c2: "\<forall>a. cells_at a w2 =
                (if a = buffer_m (data_m this) \<and> a \<noteq> 0 then None else cells_at a w1)"
      and z2: "sizeof_T w2 = sizeof_T w1"
      using Vector_dtor_result [OF wf1'] by blast
    have r2: "copy_assign T False (this, rhs, w) = Returned () (?c, rhs, w2)"
      using big r d by (simp add: copy_assign.simps Vector_Swap_eq)
    have cn: "cells_at ?nb w2 = Some (map Some (elems rhs w))"
      using c2 c b1 by simp
    have on: "\<forall>a. a \<noteq> ?nb \<longrightarrow>
                  cells_at a w2 =
                    (if a = buffer_m (data_m this) \<and> a \<noteq> 0 then None else cells_at a w)"
      using c2 o by simp
    show ?thesis using al nf r2 cn on b b2 z z2 by simp
  qed
qed

lemma copy_assign_shrink:
  assumes wf1: "wf this w" and wf2: "wf rhs w"
    and small: "size_m rhs \<le> capacity_m (data_m this)"
    and lt: "size_m rhs < size_m this"
    and ne: "buffer_m (data_m this) \<noteq> buffer_m (data_m rhs) \<or> buffer_m (data_m this) = 0"
  shows "(fails T CopyAssign (size_m rhs) w \<and>
          (\<exists>w'. copy_assign T False (this, rhs, w) = Threw ElemThrow (this, rhs, w') \<and>
             (\<forall>a. a \<noteq> buffer_m (data_m this) \<longrightarrow> cells_at a w' = cells_at a w) \<and>
             length (heap w') = length (heap w) \<and> sizeof_T w' = sizeof_T w)) \<or>
         (\<not> fails T CopyAssign (size_m rhs) w \<and>
          (\<exists>w' tail. copy_assign T False (this, rhs, w) =
               Returned () (this\<lparr>size_m := size_m rhs\<rparr>, rhs, w') \<and>
             cells_at (buffer_m (data_m this)) w' =
               Some (map Some (elems rhs w) @ replicate (size_m this - size_m rhs) None @ tail) \<and>
             length tail = capacity_m (data_m this) - size_m this \<and>
             (\<forall>a. a \<noteq> buffer_m (data_m this) \<longrightarrow> cells_at a w' = cells_at a w) \<and>
             length (heap w') = length (heap w) \<and>
             budget w' = (budget w)(CopyAssign := spent (budget w CopyAssign) (size_m rhs)) \<and>
             sizeof_T w' = sizeof_T w))"
proof -
  let ?b1 = "buffer_m (data_m this)"
  let ?b2 = "buffer_m (data_m rhs)"
  let ?m = "size_m rhs"
  let ?ts = "elems this w"
  let ?xs = "elems rhs w"
  obtain rest1 where sh1: "cells_at ?b1 w = Some (map Some ?ts @ rest1)"
    and lr1: "length rest1 = capacity_m (data_m this) - size_m this"
    and lt1: "length ?ts = size_m this"
    using wf1 by (rule wf_shape)
  obtain rest2 where sh2: "cells_at ?b2 w = Some (map Some ?xs @ rest2)"
    and lr2: "length rest2 = capacity_m (data_m rhs) - size_m rhs"
    and lx: "length ?xs = size_m rhs"
    using wf2 by (rule wf_shape)
  have s1: "size_m this \<le> capacity_m (data_m this)" using wf1 by (simp add: wf_def)
  have s2: "size_m rhs \<le> capacity_m (data_m rhs)" using wf2 by (simp add: wf_def)
  have b10: "?b1 \<noteq> 0"
  proof
    assume "?b1 = 0"
    then have "map Some ?ts @ rest1 = []" using sh1 by simp
    then show False using lt1 lt by simp
  qed
  have ne0: "0 < ?m \<Longrightarrow> buffer_m (data_m this) \<noteq> buffer_m (data_m rhs)"
    using ne b10 by simp
  define old where "old = take ?m ?ts"
  define extra where "extra = drop ?m ?ts"
  have ts: "?ts = old @ extra" by (simp add: old_def extra_def)
  have lo: "length old = ?m" using lt lt1 by (simp add: old_def)
  have le: "length extra = size_m this - ?m" using lt1 by (simp add: extra_def)
  have c0: "cells_at (buffer_m (data_m this)) w =
      Some (map Some [] @ map Some old @ (map Some extra @ rest1))"
    using sh1 ts by simp
  have nx: "?m \<le> length ?xs" using lx by simp
  have l0: "length ([] :: 'a list) = 0" by simp
  have l1: "0 + length old = ?m" using lo by simp
  note loop = assign_loop_result [where T = T, OF ne0 sh2 nx small s2 c0 refl l0 l1]
  have cond: "\<not> capacity_m (data_m this) < size_m rhs" using small by simp
  show ?thesis
  proof (cases "fails T CopyAssign ?m w")
    case True
    then obtain w' where r: "assign_loop T (data_m this) (data_m rhs) 0 ?m w = Threw ElemThrow w'"
      and o: "\<forall>a. a \<noteq> ?b1 \<longrightarrow> cells_at a w' = cells_at a w"
      and h: "length (heap w') = length (heap w)"
      and z: "sizeof_T w' = sizeof_T w"
      using loop lo by auto
    have "copy_assign T False (this, rhs, w) = Threw ElemThrow (this, rhs, w')"
      using r cond lt by (simp add: copy_assign.simps)
    then show ?thesis using True o h z by simp
  next
    case False
    then obtain w1 where r: "assign_loop T (data_m this) (data_m rhs) 0 ?m w = Returned () w1"
      and c1: "cells_at ?b1 w1 = Some (map Some ?xs @ map Some extra @ rest1)"
      and o: "\<forall>a. a \<noteq> ?b1 \<longrightarrow> cells_at a w1 = cells_at a w"
      and h: "length (heap w1) = length (heap w)"
      and b: "budget w1 = budget (snd (elem_ticks T CopyAssign ?m w))"
      and z1: "sizeof_T w1 = sizeof_T w"
      using loop lo lx by auto
    let ?p = "ptr_add (GetAddress (data_m this)) ?m"
    let ?cs = "map Some ?xs @ map Some extra @ rest1"
    have pc: "cells_at (base ?p) w1 = Some ?cs"
      using c1 by (simp add: ptr_add_def GetAddress_def)
    have po: "off ?p + (size_m this - ?m) \<le> length ?cs"
      using lx le by (simp add: ptr_add_def GetAddress_def)
    have pl: "list_all (\<lambda>c. c \<noteq> None) (take (size_m this - ?m) (drop (off ?p) ?cs))"
      using lx le by (simp add: ptr_add_def GetAddress_def list_all_iff)
    let ?w2 = "set_cells ?b1 (map Some ?xs @ replicate (size_m this - ?m) None @ rest1) w1"
    have d: "destroy_n ?p (size_m this - ?m) w1 = Some ?w2"
      using destroy_n_eq [OF pc po pl] lx le by (simp add: ptr_add_def GetAddress_def)
    have r2: "copy_assign T False (this, rhs, w) =
        Returned () (this\<lparr>size_m := size_m rhs\<rparr>, rhs, ?w2)"
      using r d cond lt by (simp add: copy_assign.simps)
    have c2: "cells_at ?b1 ?w2 =
        Some (map Some ?xs @ replicate (size_m this - ?m) None @ rest1)"
      using c1 b10 by simp
    have o2: "\<forall>a. a \<noteq> ?b1 \<longrightarrow> cells_at a ?w2 = cells_at a w"
      using o c1 by simp
    have h2: "length (heap ?w2) = length (heap w)"
      using h by (simp add: set_cells_def)
    have ct: "can_throw T CopyAssign" by (simp add: can_throw_def)
    have b2: "budget ?w2 = (budget w)(CopyAssign := spent (budget w CopyAssign) ?m)"
      using b elem_ticks_spent [OF False ct] by (simp add: set_cells_def)
    have z2: "sizeof_T ?w2 = sizeof_T w" using z1 by simp
    show ?thesis using False r2 c2 lr1 o2 h2 b2 z2 by blast
  qed
qed

lemma copy_assign_extend:
  assumes wf1: "wf this w" and wf2: "wf rhs w"
    and small: "size_m rhs \<le> capacity_m (data_m this)"
    and ge: "size_m this \<le> size_m rhs"
    and ne: "buffer_m (data_m this) \<noteq> buffer_m (data_m rhs) \<or> buffer_m (data_m this) = 0"
  shows "((fails T CopyAssign (size_m this) w \<or>
           fails T CopyCtor (size_m rhs - size_m this) w) \<and>
          (\<exists>w'. copy_assign T False (this, rhs, w) = Threw ElemThrow (this, rhs, w') \<and>
             (\<forall>a. a \<noteq> buffer_m (data_m this) \<longrightarrow> cells_at a w' = cells_at a w) \<and>
             length (heap w') = length (heap w) \<and> sizeof_T w' = sizeof_T w)) \<or>
         (\<not> fails T CopyAssign (size_m this) w \<and>
          \<not> fails T CopyCtor (size_m rhs - size_m this) w \<and>
          (\<exists>w' tail. copy_assign T False (this, rhs, w) =
               Returned () (this\<lparr>size_m := size_m rhs\<rparr>, rhs, w') \<and>
             cells_at (buffer_m (data_m this)) w' = Some (map Some (elems rhs w) @ tail) \<and>
             length tail = capacity_m (data_m this) - size_m rhs \<and>
             (\<forall>a. a \<noteq> buffer_m (data_m this) \<longrightarrow> cells_at a w' = cells_at a w) \<and>
             length (heap w') = length (heap w) \<and>
             budget w' = (budget w)(CopyAssign := spent (budget w CopyAssign) (size_m this),
                                     CopyCtor := spent (budget w CopyCtor)
                                                   (size_m rhs - size_m this)) \<and>
             sizeof_T w' = sizeof_T w))"
proof -
  let ?b1 = "buffer_m (data_m this)"
  let ?b2 = "buffer_m (data_m rhs)"
  let ?m = "size_m this"
  let ?n = "size_m rhs"
  let ?ts = "elems this w"
  let ?xs = "elems rhs w"
  obtain rest1 where sh1: "cells_at ?b1 w = Some (map Some ?ts @ rest1)"
    and lr1: "length rest1 = capacity_m (data_m this) - size_m this"
    and lt1: "length ?ts = size_m this"
    using wf1 by (rule wf_shape)
  obtain rest2 where sh2: "cells_at ?b2 w = Some (map Some ?xs @ rest2)"
    and lr2: "length rest2 = capacity_m (data_m rhs) - size_m rhs"
    and lx: "length ?xs = size_m rhs"
    using wf2 by (rule wf_shape)
  have s1: "size_m this \<le> capacity_m (data_m this)" using wf1 by (simp add: wf_def)
  have s2: "size_m rhs \<le> capacity_m (data_m rhs)" using wf2 by (simp add: wf_def)
  have ne0: "0 < ?m \<Longrightarrow> buffer_m (data_m this) \<noteq> buffer_m (data_m rhs)"
  proof -
    assume pos: "0 < ?m"
    have "?b1 \<noteq> 0"
    proof
      assume "?b1 = 0"
      then have "map Some ?ts @ rest1 = []" using sh1 by simp
      then show False using lt1 pos by simp
    qed
    then show ?thesis using ne by simp
  qed
  have c0: "cells_at (buffer_m (data_m this)) w = Some (map Some [] @ map Some ?ts @ rest1)"
    using sh1 by simp
  have nx: "?m \<le> length ?xs" using lx ge by simp
  have nr: "?m \<le> capacity_m (data_m rhs)" using ge s2 by simp
  have l0: "length ([] :: 'a list) = 0" by simp
  have l1: "0 + length ?ts = ?m" using lt1 by simp
  note loop = assign_loop_result [where T = T, OF ne0 sh2 nx s1 nr c0 refl l0 l1]
  have cond: "\<not> capacity_m (data_m this) < size_m rhs" using small by simp
  have cond2: "\<not> size_m rhs < size_m this" using ge by simp
  show ?thesis
  proof (cases "fails T CopyAssign ?m w")
    case True
    then obtain w' where r: "assign_loop T (data_m this) (data_m rhs) 0 ?m w = Threw ElemThrow w'"
      and o: "\<forall>a. a \<noteq> ?b1 \<longrightarrow> cells_at a w' = cells_at a w"
      and h: "length (heap w') = length (heap w)"
      and z: "sizeof_T w' = sizeof_T w"
      using loop lt1 by auto
    have "copy_assign T False (this, rhs, w) = Threw ElemThrow (this, rhs, w')"
      using r cond cond2 by (simp add: copy_assign.simps)
    then show ?thesis using True o h z by simp
  next
    case False
    then obtain w1 where r: "assign_loop T (data_m this) (data_m rhs) 0 ?m w = Returned () w1"
      and c1: "cells_at ?b1 w1 = Some (map Some (take ?m ?xs) @ rest1)"
      and o: "\<forall>a. a \<noteq> ?b1 \<longrightarrow> cells_at a w1 = cells_at a w"
      and h: "length (heap w1) = length (heap w)"
      and b: "budget w1 = budget (snd (elem_ticks T CopyAssign ?m w))"
      and z1: "sizeof_T w1 = sizeof_T w"
      using loop lt1 by auto
    let ?src = "ptr_add (GetAddress (data_m rhs)) ?m"
    let ?dst = "ptr_add (GetAddress (data_m this)) ?m"
    let ?ds = "map Some (take ?m ?xs) @ rest1"
    have c12: "cells_at ?b2 w1 = Some (map Some ?xs @ rest2)"
    proof (cases "?b1 = ?b2")
      case True
      then have z: "?b2 = 0" using ne by simp
      then have "map Some ?xs @ rest2 = []" using sh2 by simp
      then show ?thesis using z by simp
    next
      case False
      then show ?thesis using o sh2 by simp
    qed
    have dr: "drop ?m (map Some ?xs @ rest2) = map Some (drop ?m ?xs) @ rest2"
      using nx by (simp add: drop_map)
    have ld: "load_n ?src (?n - ?m) w1 = Some (drop ?m ?xs)"
      using c12 lx ge dr
      by (simp add: load_n_cells ptr_add_def GetAddress_def list_all_iff)
    have pc: "cells_at (base ?dst) w1 = Some ?ds"
      using c1 by (simp add: ptr_add_def GetAddress_def)
    have po: "off ?dst + (?n - ?m) \<le> length ?ds"
      using lx lr1 ge small s1 by (simp add: ptr_add_def GetAddress_def)
    let ?wt = "snd (elem_ticks T CopyCtor (?n - ?m) w1)"
    let ?w2 = "(set_cells ?b1 (map Some ?xs @ drop (?n - ?m) rest1) w1)\<lparr>budget := budget ?wt\<rparr>"
    have tk: "take ?m (map Some (take ?m ?xs)) = map Some (take ?m ?xs)"
      using nx by simp
    have mm: "map Some (take ?m ?xs) @ map Some (drop ?m ?xs) = map Some ?xs"
      by (simp add: map_append [symmetric] del: map_append)
    have cells: "take (off ?dst) ?ds @ map Some (drop ?m ?xs) @ drop (off ?dst + (?n - ?m)) ?ds =
        map Some ?xs @ drop (?n - ?m) rest1"
      using nx mm by (simp add: ptr_add_def GetAddress_def)
    have cp: "uninitialized_copy_n T ?src (?n - ?m) ?dst w1 =
       (if fails T CopyCtor (?n - ?m) w1 then Threw ElemThrow ?wt else Returned () ?w2)"
      using uninitialized_copy_n_eq [OF ld pc po, of T] elem_ticks_lt [of T CopyCtor "?n - ?m" w1]
      unfolding cells by (simp add: ptr_add_def GetAddress_def)
    have bc: "budget w1 CopyCtor = budget w CopyCtor"
      using b by (simp add: elem_ticks_budget)
    have f: "fails T CopyCtor (?n - ?m) w1 = fails T CopyCtor (?n - ?m) w"
      using bc by (rule fails_budget_eq)
    show ?thesis
    proof (cases "fails T CopyCtor (?n - ?m) w")
      case True
      have r2: "copy_assign T False (this, rhs, w) = Threw ElemThrow (this, rhs, ?wt)"
        using r cp f True cond cond2 by (simp add: copy_assign.simps)
      have o2: "\<forall>a. a \<noteq> ?b1 \<longrightarrow> cells_at a ?wt = cells_at a w" using o by simp
      have h2: "length (heap ?wt) = length (heap w)"
        using h by (simp add: elem_ticks_def ticks_None ticks_Some split: option.splits)
      have z2: "sizeof_T ?wt = sizeof_T w" using z1 by simp
      show ?thesis using True r2 o2 h2 z2 by blast
    next
      case nf2: False
      have r2: "copy_assign T False (this, rhs, w) =
          Returned () (this\<lparr>size_m := size_m rhs\<rparr>, rhs, ?w2)"
        using r cp f nf2 cond cond2 by (simp add: copy_assign.simps)
      have c2: "cells_at ?b1 ?w2 = Some (map Some ?xs @ drop (?n - ?m) rest1)"
      proof (cases "?b1 = 0")
        case True
        then have "map Some (take ?m ?xs) @ rest1 = []" using c1 by simp
        then have "rest1 = []" and "take ?m ?xs = []" by simp_all
        moreover have "capacity_m (data_m this) = 0" using sh1 True lr1 lt1 by simp
        ultimately show ?thesis using True small lx by simp
      next
        case False
        then show ?thesis using c1 by simp
      qed
      have lt2: "length (drop (?n - ?m) rest1) = capacity_m (data_m this) - ?n"
        using lr1 ge by simp
      have o2: "\<forall>a. a \<noteq> ?b1 \<longrightarrow> cells_at a ?w2 = cells_at a w"
        using o c1 by simp
      have h2: "length (heap ?w2) = length (heap w)"
        using h by (simp add: set_cells_def)
      have ct: "can_throw T CopyAssign" "can_throw T CopyCtor" by (simp_all add: can_throw_def)
      have nf1: "\<not> fails T CopyCtor (?n - ?m) w1" using nf2 f by simp
      have b2: "budget ?w2 = (budget w)(CopyAssign := spent (budget w CopyAssign) ?m,
                                     CopyCtor := spent (budget w CopyCtor) (?n - ?m))"
        using b bc elem_ticks_spent [OF False ct(1)] elem_ticks_spent [OF nf1 ct(2)] by simp
      have z2: "sizeof_T ?w2 = sizeof_T w" using z1 by simp
      show ?thesis using False nf2 r2 c2 lt2 o2 h2 b2 z2 by blast
    qed
  qed
qed

lemma spent_tick:
  "budget w e \<noteq> Some 0 \<Longrightarrow> budget (snd (tick e w)) e = spent (budget w e) 1"
  by (cases "budget w e") (auto simp: tick_budget spent_def)

lemma copy_assign_abstract:
  assumes wf1: "wf this w" and wf2: "wf rhs w"
    and ne: "buffer_m (data_m this) \<noteq> buffer_m (data_m rhs) \<or> buffer_m (data_m this) = 0"
  shows "(\<exists>e w'. copy_assign T False (this, rhs, w) = Threw e (this, rhs, w') \<and> \<not> no_faults w) \<or>
         (\<exists>this' w'. copy_assign T False (this, rhs, w) = Returned () (this', rhs, w') \<and>
            elems this' w' = elems rhs w \<and> size_m this' = size_m rhs \<and> wf this' w' \<and>
            elems rhs w' = elems rhs w \<and> wf rhs w' \<and>
            (if capacity_m (data_m this) < size_m rhs
             then capacity_m (data_m this') = size_m rhs \<and>
                  cells_at (buffer_m (data_m this')) w = None \<and>
                  (buffer_m (data_m this) \<noteq> 0 \<longrightarrow>
                     cells_at (buffer_m (data_m this)) w' = None) \<and>
                  budget w' Alloc = spent (budget w Alloc) 1 \<and>
                  budget w' CopyCtor = spent (budget w CopyCtor) (size_m rhs) \<and>
                  budget w' CopyAssign = budget w CopyAssign
             else data_m this' = data_m this \<and>
                  length (heap w') = length (heap w) \<and>
                  budget w' Alloc = budget w Alloc \<and>
                  budget w' CopyAssign =
                    spent (budget w CopyAssign) (min (size_m this) (size_m rhs)) \<and>
                  budget w' CopyCtor = spent (budget w CopyCtor) (size_m rhs - size_m this) \<and>
                  map_option (\<lambda>cs. take (size_m this - size_m rhs) (drop (size_m rhs) cs))
                      (cells_at (buffer_m (data_m this)) w') =
                    Some (replicate (size_m this - size_m rhs) None)))"
proof -
  let ?b1 = "buffer_m (data_m this)"
  let ?b2 = "buffer_m (data_m rhs)"
  have bb1: "?b1 \<le> length (heap w)" using wf1 by (rule wf_bound)
  have bb2: "?b2 \<le> length (heap w)" using wf2 by (rule wf_bound)
  have lx: "length (elems rhs w) = size_m rhs" using wf2 by (rule length_elems)
  have s1: "size_m this \<le> capacity_m (data_m this)" using wf1 by (simp add: wf_def)
  show ?thesis
  proof (cases "capacity_m (data_m this) < size_m rhs")
    case True
    let ?nb = "Suc (length (heap w))"
    let ?v = "\<lparr>data_m = \<lparr>buffer_m = ?nb, capacity_m = size_m rhs\<rparr>, size_m = size_m rhs\<rparr>"
    have d: "?b2 \<noteq> ?b1" using wf1 wf2 True by (rule wf_distinct_buffers)
    from copy_assign_grow [OF wf1 wf2 True, of T] show ?thesis
    proof (elim disjE exE conjE)
      fix w'
      assume "budget w Alloc = Some 0"
        and "copy_assign T False (this, rhs, w) = Threw BadAlloc (this, rhs, w')"
      moreover from this have "\<not> no_faults w" by (auto simp: no_faults_def)
      ultimately show ?thesis by blast
    next
      fix w'
      assume "fails T CopyCtor (size_m rhs) w"
        and "copy_assign T False (this, rhs, w) = Threw ElemThrow (this, rhs, w')"
      moreover from this have "\<not> no_faults w" by auto
      ultimately show ?thesis by blast
    next
      fix w'
      assume al: "budget w Alloc \<noteq> Some 0"
        and r: "copy_assign T False (this, rhs, w) = Returned () (?v, rhs, w')"
        and c: "cells_at ?nb w' = Some (map Some (elems rhs w))"
        and o: "\<forall>a. a \<noteq> ?nb \<longrightarrow>
                  cells_at a w' = (if a = ?b1 \<and> a \<noteq> 0 then None else cells_at a w)"
        and b: "budget w' = (budget (snd (tick Alloc w)))
                           (CopyCtor := spent (budget w CopyCtor) (size_m rhs))"
        and z: "sizeof_T w' = sizeof_T w"
      have cv: "cells_at (buffer_m (data_m ?v)) w' = Some (map Some (elems rhs w) @ [])"
        using c by simp
      have "size_m rhs \<le> capacity_m (data_m rhs)" using wf2 by (simp add: wf_def)
      with wf_fits [OF wf2] have "fits (size_m rhs) w" by (rule fits_mono)
      then have fv: "fits (capacity_m (data_m ?v)) w'" using z by (simp add: fits_def)
      have w1: "wf ?v w'" by (rule wf_intro [OF cv]) (use lx fv in simp_all)
      have e1: "elems ?v w' = elems rhs w" using wf_elems_intro(2) [OF cv] lx by simp
      have c2: "cells_at (buffer_m (data_m rhs)) w' = cells_at (buffer_m (data_m rhs)) w"
        using o bb2 d by simp
      have w2: "wf rhs w'" using wf2 c2 z by (rule wf_same_cells)
      have e2: "elems rhs w' = elems rhs w" using c2 by (rule elems_cong)
      have fr: "cells_at (buffer_m (data_m ?v)) w = None"
        by (simp add: cells_at_def)
      have old: "?b1 \<noteq> 0 \<longrightarrow> cells_at ?b1 w' = None" using o bb1 by simp
      have ba: "budget w' Alloc = spent (budget w Alloc) 1"
        using b spent_tick [OF al] by simp
      have bc: "budget w' CopyCtor = spent (budget w CopyCtor) (size_m rhs)"
        using b by simp
      have bs: "budget w' CopyAssign = budget w CopyAssign"
        using b by (simp add: tick_budget)
      have "elems ?v w' = elems rhs w \<and> size_m ?v = size_m rhs \<and> wf ?v w' \<and>
            elems rhs w' = elems rhs w \<and> wf rhs w' \<and>
            capacity_m (data_m ?v) = size_m rhs \<and>
            cells_at (buffer_m (data_m ?v)) w = None \<and>
            (?b1 \<noteq> 0 \<longrightarrow> cells_at ?b1 w' = None) \<and>
            budget w' Alloc = spent (budget w Alloc) 1 \<and>
            budget w' CopyCtor = spent (budget w CopyCtor) (size_m rhs) \<and>
            budget w' CopyAssign = budget w CopyAssign"
        using w1 e1 w2 e2 fr old ba bc bs by simp
      then show ?thesis using r True by (intro disjI2 exI [of _ ?v] exI [of _ w']) simp
    qed
  next
    case False
    then have small: "size_m rhs \<le> capacity_m (data_m this)" by simp
    let ?v = "this\<lparr>size_m := size_m rhs\<rparr>"
    let ?G = ?thesis
    have fin: "\<And>w' cs. copy_assign T False (this, rhs, w) = Returned () (?v, rhs, w') \<Longrightarrow>
        cells_at ?b1 w' = Some (map Some (elems rhs w) @ cs) \<Longrightarrow>
        length cs = capacity_m (data_m this) - size_m rhs \<Longrightarrow>
        take (size_m this - size_m rhs) cs = replicate (size_m this - size_m rhs) None \<Longrightarrow>
        \<forall>a. a \<noteq> ?b1 \<longrightarrow> cells_at a w' = cells_at a w \<Longrightarrow>
        length (heap w') = length (heap w) \<Longrightarrow>
        budget w' Alloc = budget w Alloc \<Longrightarrow>
        budget w' CopyAssign = spent (budget w CopyAssign) (min (size_m this) (size_m rhs)) \<Longrightarrow>
        budget w' CopyCtor = spent (budget w CopyCtor) (size_m rhs - size_m this) \<Longrightarrow>
        sizeof_T w' = sizeof_T w \<Longrightarrow>
        ?G"
    proof -
      fix w' cs
      assume r: "copy_assign T False (this, rhs, w) = Returned () (?v, rhs, w')"
        and c: "cells_at ?b1 w' = Some (map Some (elems rhs w) @ cs)"
        and lc: "length cs = capacity_m (data_m this) - size_m rhs"
        and raw: "take (size_m this - size_m rhs) cs = replicate (size_m this - size_m rhs) None"
        and o: "\<forall>a. a \<noteq> ?b1 \<longrightarrow> cells_at a w' = cells_at a w"
        and h: "length (heap w') = length (heap w)"
        and ba: "budget w' Alloc = budget w Alloc"
        and bs: "budget w' CopyAssign = spent (budget w CopyAssign) (min (size_m this) (size_m rhs))"
        and bc: "budget w' CopyCtor = spent (budget w CopyCtor) (size_m rhs - size_m this)"
        and z: "sizeof_T w' = sizeof_T w"
      have cv: "cells_at (buffer_m (data_m ?v)) w' = Some (map Some (elems rhs w) @ cs)"
        using c by simp
      have fv: "fits (capacity_m (data_m ?v)) w'"
        using wf_fits [OF wf1] z by (simp add: fits_def)
      have w1: "wf ?v w'" by (rule wf_intro [OF cv]) (use lx lc small fv in simp_all)
      have e1: "elems ?v w' = elems rhs w" using wf_elems_intro(2) [OF cv] lx lc small by simp
      have c2: "cells_at ?b2 w' = cells_at ?b2 w"
      proof (cases "?b1 = ?b2")
        case True
        then have "?b2 = 0" using ne by simp
        then show ?thesis by simp
      next
        case False
        then show ?thesis using o by simp
      qed
      have w2: "wf rhs w'" using wf2 c2 z by (rule wf_same_cells)
      have e2: "elems rhs w' = elems rhs w" using c2 by (rule elems_cong)
      have rw: "map_option (\<lambda>cs. take (size_m this - size_m rhs) (drop (size_m rhs) cs))
                      (cells_at ?b1 w') = Some (replicate (size_m this - size_m rhs) None)"
        using c lx raw by simp
      have "elems ?v w' = elems rhs w \<and> size_m ?v = size_m rhs \<and> wf ?v w' \<and>
            elems rhs w' = elems rhs w \<and> wf rhs w' \<and>
            data_m ?v = data_m this \<and> length (heap w') = length (heap w) \<and>
            budget w' Alloc = budget w Alloc \<and>
            budget w' CopyAssign = spent (budget w CopyAssign) (min (size_m this) (size_m rhs)) \<and>
            budget w' CopyCtor = spent (budget w CopyCtor) (size_m rhs - size_m this) \<and>
            map_option (\<lambda>cs. take (size_m this - size_m rhs) (drop (size_m rhs) cs))
                      (cells_at ?b1 w') = Some (replicate (size_m this - size_m rhs) None)"
        using w1 e1 w2 e2 h ba bs bc rw by simp
      then show ?G using r False by (intro disjI2 exI [of _ ?v] exI [of _ w']) simp
    qed
    show ?thesis
    proof (cases "size_m rhs < size_m this")
      case True
      from copy_assign_shrink [OF wf1 wf2 small True ne, of T] show ?thesis
      proof (elim disjE exE conjE)
        fix w'
        assume "fails T CopyAssign (size_m rhs) w"
          and "copy_assign T False (this, rhs, w) = Threw ElemThrow (this, rhs, w')"
        moreover from this have "\<not> no_faults w" by auto
        ultimately show ?thesis by blast
      next
        fix w' tail
        assume r: "copy_assign T False (this, rhs, w) = Returned () (?v, rhs, w')"
          and c: "cells_at ?b1 w' =
               Some (map Some (elems rhs w) @ replicate (size_m this - size_m rhs) None @ tail)"
          and lt: "length tail = capacity_m (data_m this) - size_m this"
          and o: "\<forall>a. a \<noteq> ?b1 \<longrightarrow> cells_at a w' = cells_at a w"
          and h: "length (heap w') = length (heap w)"
          and b: "budget w' = (budget w)(CopyAssign := spent (budget w CopyAssign) (size_m rhs))"
          and z: "sizeof_T w' = sizeof_T w"
        have l: "length (replicate (size_m this - size_m rhs) (None :: 'a option) @ tail) =
            capacity_m (data_m this) - size_m rhs"
          using lt True s1 by simp
        have m: "min (size_m this) (size_m rhs) = size_m rhs" using True by simp
        have z0: "size_m rhs - size_m this = 0" using True by simp
        show ?thesis
          by (rule fin [OF r c l _ o h]) (simp_all add: b m z0 z)
      qed
    next
      case ge: False
      then have ge': "size_m this \<le> size_m rhs" by simp
      from copy_assign_extend [OF wf1 wf2 small ge' ne, of T] show ?thesis
      proof (elim disjE exE conjE)
        fix w'
        assume "fails T CopyAssign (size_m this) w"
          and "copy_assign T False (this, rhs, w) = Threw ElemThrow (this, rhs, w')"
        moreover from this have "\<not> no_faults w" by auto
        ultimately show ?thesis by blast
      next
        fix w'
        assume "fails T CopyCtor (size_m rhs - size_m this) w"
          and "copy_assign T False (this, rhs, w) = Threw ElemThrow (this, rhs, w')"
        moreover from this have "\<not> no_faults w" by auto
        ultimately show ?thesis by blast
      next
        fix w' tail
        assume r: "copy_assign T False (this, rhs, w) = Returned () (?v, rhs, w')"
          and c: "cells_at ?b1 w' = Some (map Some (elems rhs w) @ tail)"
          and lt: "length tail = capacity_m (data_m this) - size_m rhs"
          and o: "\<forall>a. a \<noteq> ?b1 \<longrightarrow> cells_at a w' = cells_at a w"
          and h: "length (heap w') = length (heap w)"
          and b: "budget w' = (budget w)(CopyAssign := spent (budget w CopyAssign) (size_m this),
                                     CopyCtor := spent (budget w CopyCtor)
                                                   (size_m rhs - size_m this))"
          and z: "sizeof_T w' = sizeof_T w"
        have m: "min (size_m this) (size_m rhs) = size_m this" using ge' by simp
        have z0: "size_m this - size_m rhs = 0" using ge' by simp
        show ?thesis
          by (rule fin [OF r c lt _ o h]) (simp_all add: b m z0 z)
      qed
    qed
  qed
qed

section \<open>The claims\<close>






text \<open>
  C8, as stated, fails: \<open>PopBack\<close> on an empty vector does nothing, so after \<open>PopBack\<close>,
  \<open>PushBack(7)\<close> on an empty vector the size is \<open>1\<close> while pushes minus pops is \<open>0\<close>.
\<close>

theorem push_pop_size_counterexample:
  "run T_int [Pop, Push 7] (Vector_default, quiet []) =
     Returned () (vec 1 1 1, quiet [Block [Some 7]]) \<and>
   int (Size (vec 1 1 1)) \<noteq> int (pushes [Pop, Push (7::int)]) - int (pops [Pop, Push (7::int)])"
  by (simp add: exec_simps)

text \<open>
  C8, amended. For every sequence of \<open>PushBack\<close> calls, of either overload, and \<open>PopBack\<close>
  calls applied to an empty vector of an element type for which \<open>T({value})\<close> is a copy of
  \<open>value\<close>: when the sequence returns, the elements read back in index order are the pushed
  values in insertion order minus the removed ones, a \<open>PopBack\<close> of an empty vector
  removing nothing, and \<open>Size()\<close> is their number; when no \<open>PopBack\<close> meets an empty
  vector, \<open>Size()\<close> is the number of pushes minus the number of pops. With nothing
  scheduled to throw, and an array of twice as many cells as there are pushes having a
  size in bytes that is a value of \<open>size_t\<close>, the sequence does return.
\<close>

theorem push_pop_sequence:
  assumes "\<forall>x. list_init T x = x"
  shows "(\<forall>r v' w'. run T ops (Vector_default, w) = Returned r (v', w') \<longrightarrow>
            elems v' w' = model ops [] \<and> Size v' = length (model ops []) \<and> wf v' w' \<and>
            (never_underflows ops 0 \<longrightarrow> int (Size v') = int (pushes ops) - int (pops ops))) \<and>
         (no_faults w \<and> fits (2 * pushes ops) w \<longrightarrow>
            (\<exists>v' w'. run T ops (Vector_default, w) = Returned () (v', w')))"
proof (intro conjI allI impI)
  fix r v' w'
  assume r: "run T ops (Vector_default, w) = Returned r (v', w')"
  have lc: "\<And>x. list_init T x = x" using assms by simp
  have d: "wf Vector_default w" by (rule wf_Vector_default)
  have a: "wf v' w' \<and> elems v' w' = model ops (elems Vector_default w)"
    using lc d r by (rule run_Returned)
  then show e: "elems v' w' = model ops []" by (simp add: elems_Vector_default)
  show w: "wf v' w'" using a by simp
  show s: "Size v' = length (model ops [])"
    using length_elems [OF w] e by (simp add: Size_def)
  assume "never_underflows ops 0"
  then have "never_underflows ops (length ([] :: 'a list))" by simp
  from length_model [OF this] show "int (Size v') = int (pushes ops) - int (pops ops)"
    using s by simp
next
  assume n: "no_faults w \<and> fits (2 * pushes ops) w"
  have d: "wf Vector_default w" by (rule wf_Vector_default)
  have "fits (2 * (size_m Vector_default + pushes ops)) w"
    using n by (simp add: Vector_default_def)
  with d n show "\<exists>v' w'. run T ops (Vector_default, w) = Returned () (v', w')"
    by (intro run_no_faults) simp_all
qed

theorem push_pop_sequence_witness:
  "(\<forall>x. list_init T_int x = x) \<and>
   no_faults (quiet ([] :: int block list)) \<and>
   fits (2 * pushes [Push 1, PushRv 2, Pop, Push 3, PushRv (4::int)]) (quiet ([] :: int block list)) \<and>
   run T_int [Push 1, PushRv 2, Pop, Push 3, PushRv 4] (Vector_default, quiet []) =
     Returned () (vec 3 4 3, quiet [Freed, Freed, Block [Some 1, Some 3, Some 4, None]]) \<and>
   elems (vec 3 4 3) (quiet [Freed, Freed, Block [Some 1, Some 3, Some 4, None]]) =
     model [Push 1, PushRv 2, Pop, Push 3, PushRv (4::int)] [] \<and>
   model [Push 1, PushRv 2, Pop, Push 3, PushRv (4::int)] [] = [1, 3, 4] \<and>
   never_underflows [Push 1, PushRv 2, Pop, Push 3, PushRv (4::int)] 0 \<and>
   int (Size (vec 3 4 3)) =
     int (pushes [Push 1, PushRv 2, Pop, Push 3, PushRv (4::int)]) -
     int (pops [Push 1, PushRv 2, Pop, Push 3, PushRv (4::int)])"
proof -
  let ?ops = "[Push 1, PushRv 2, Pop, Push 3, PushRv (4::int)]"
  have l: "\<forall>x. list_init T_int x = x" by (simp add: T_int_def)
  have r: "run T_int ?ops (Vector_default, quiet []) =
     Returned () (vec 3 4 3, quiet [Freed, Freed, Block [Some 1, Some 3, Some 4, None]])"
    by (simp add: exec_simps)
  have q: "no_faults (quiet ([] :: int block list))" by (simp add: exec_simps)
  have g: "fits (2 * pushes ?ops) (quiet ([] :: int block list))" by (simp add: exec_simps)
  have n: "never_underflows ?ops 0" by simp
  have m: "model ?ops [] = [1, 3, 4]" by simp
  have "\<forall>r v' w'. run T_int ?ops (Vector_default, quiet []) = Returned r (v', w') \<longrightarrow>
      elems v' w' = model ?ops [] \<and> Size v' = length (model ?ops []) \<and> wf v' w' \<and>
      (never_underflows ?ops 0 \<longrightarrow> int (Size v') = int (pushes ?ops) - int (pops ?ops))"
    using push_pop_sequence [OF l, of ?ops "quiet []"] by (elim conjE)
  from this [rule_format, OF r] n m r l q g show ?thesis by blast
qed

text \<open>
  C10. On an empty vector \<open>Erase\<close> is a no-op for any position argument: it returns
  \<open>end()\<close> and leaves the vector and the store as they are.
\<close>

theorem Erase_empty:
  "Size v = 0 \<Longrightarrow> Erase T pos (v, w) = Returned (Vector_end v) (v, w)"
  by (simp add: Erase.simps Size_def)

theorem Erase_empty_witness:
  "Size (vec 0 0 0) = 0 \<and>
   Erase T_throwing (Ptr 7 3) (vec 0 0 0, quiet [Block [Some 5]]) =
     Returned (Vector_end (vec 0 0 0)) (vec 0 0 0, quiet [Block [Some 5]]) \<and>
   Vector_end (vec 0 0 0) = Ptr 0 0"
proof -
  have h: "Size (vec 0 0 0) = 0" by (simp add: vec_def Size_def)
  show ?thesis
    using Erase_empty [OF h, of T_throwing "Ptr 7 3" "quiet [Block [Some 5]]"] h
    by (simp add: Vector_end_def GetAddress_def ptr_add_def vec_def)
qed

text \<open>
  C7. Move construction cannot fail (it is a total function that touches no element and
  allocates nothing). The new vector has the source's buffer, capacity and size, hence its
  elements; the source is left with no buffer, capacity \<open>0\<close> and size \<open>0\<close>.
\<close>

theorem Vector_move_ctor_spec:
  "Size (fst (Vector_move_ctor a)) = Size a \<and>
   Capacity (fst (Vector_move_ctor a)) = Capacity a \<and>
   data_m (fst (Vector_move_ctor a)) = data_m a \<and>
   elems (fst (Vector_move_ctor a)) w = elems a w \<and>
   wf (fst (Vector_move_ctor a)) w = wf a w \<and>
   Size (snd (Vector_move_ctor a)) = 0 \<and>
   Capacity (snd (Vector_move_ctor a)) = 0 \<and>
   buffer_m (data_m (snd (Vector_move_ctor a))) = 0 \<and>
   elems (snd (Vector_move_ctor a)) w = [] \<and>
   wf (snd (Vector_move_ctor a)) w"
  by (simp add: Vector_move_ctor_eq Size_def Capacity_def elems_def wf_def)

theorem Vector_move_ctor_spec_witness:
  "Vector_move_ctor (vec 1 4 2) = (vec 1 4 2, vec 0 0 0) \<and>
   Size (fst (Vector_move_ctor (vec 1 4 2))) = Size (vec 1 4 2) \<and>
   Capacity (fst (Vector_move_ctor (vec 1 4 2))) = 4 \<and>
   elems (fst (Vector_move_ctor (vec 1 4 2))) (quiet [Block [Some (8::int), Some 9, None, None]]) = [8, 9] \<and>
   Size (snd (Vector_move_ctor (vec 1 4 2))) = 0"
proof -
  have e: "elems (vec 1 4 2) (quiet [Block [Some (8::int), Some 9, None, None]]) = [8, 9]"
    by (simp add: exec_simps)
  have m: "Vector_move_ctor (vec 1 4 2) = (vec 1 4 2, vec 0 0 0)"
    by (simp add: exec_simps)
  have c: "Capacity (vec 1 4 2) = 4" by (simp add: exec_simps)
  show ?thesis
    using Vector_move_ctor_spec [of "vec 1 4 2" "quiet [Block [Some (8::int), Some 9, None, None]]"] e m c
    by simp
qed

text \<open>
  C4. On a vector with \<open>Size() = Capacity()\<close>, whenever \<open>PushBack\<close> (either overload) or
  \<open>EmplaceBack\<close> returns: the buffer is a newly allocated array whose capacity is twice
  the old one, or \<open>1\<close> when the old one was \<open>0\<close>; the old array has been released; the
  elements are the old ones in order followed by one new element; \<open>Size()\<close> has grown by
  exactly one. \<open>EmplaceBack\<close> returns the address of the new last element. The new element
  of \<open>PushBack(T&&)\<close> is the value pushed and that of \<open>EmplaceBack\<close> the value built from
  the arguments. The new element of \<open>PushBack(const T&)\<close> is the value of \<open>T({value})\<close>,
  because that is what the growing branch constructs, where the other branch constructs
  \<open>T(value)\<close>: it is the value pushed for the element types whose list-initialisation
  from one element copies it. With nothing scheduled to throw, and the new capacity having
  a size in bytes that is a value of \<open>size_t\<close>, the three calls do return.
\<close>

theorem append_at_capacity:
  assumes "wf v w" and "Size v = Capacity v"
  shows "(\<forall>r v' w'. PushBack T x (v, w) = Returned r (v', w') \<longrightarrow>
            Capacity v' = (if Capacity v = 0 then 1 else 2 * Capacity v) \<and>
            cells_at (buffer_m (data_m v')) w = None \<and>
            buffer_m (data_m v') \<noteq> buffer_m (data_m v) \<and>
            (buffer_m (data_m v) \<noteq> 0 \<longrightarrow> cells_at (buffer_m (data_m v)) w' = None) \<and>
            elems v' w' = elems v w @ [list_init T x] \<and> Size v' = Size v + 1 \<and> wf v' w') \<and>
         (\<forall>r v' w'. PushBack_rv T x (v, w) = Returned r (v', w') \<longrightarrow>
            Capacity v' = (if Capacity v = 0 then 1 else 2 * Capacity v) \<and>
            cells_at (buffer_m (data_m v')) w = None \<and>
            buffer_m (data_m v') \<noteq> buffer_m (data_m v) \<and>
            (buffer_m (data_m v) \<noteq> 0 \<longrightarrow> cells_at (buffer_m (data_m v)) w' = None) \<and>
            elems v' w' = elems v w @ [x] \<and> Size v' = Size v + 1 \<and> wf v' w') \<and>
         (\<forall>r v' w'. EmplaceBack T a (v, w) = Returned r (v', w') \<longrightarrow>
            Capacity v' = (if Capacity v = 0 then 1 else 2 * Capacity v) \<and>
            cells_at (buffer_m (data_m v')) w = None \<and>
            buffer_m (data_m v') \<noteq> buffer_m (data_m v) \<and>
            (buffer_m (data_m v) \<noteq> 0 \<longrightarrow> cells_at (buffer_m (data_m v)) w' = None) \<and>
            elems v' w' = elems v w @ [arg_value T a] \<and> Size v' = Size v + 1 \<and> wf v' w' \<and>
            r = Ptr (buffer_m (data_m v')) (Size v)) \<and>
         (no_faults w \<and> fits (if Capacity v = 0 then 1 else 2 * Capacity v) w \<longrightarrow>
            (\<exists>v' w'. PushBack T x (v, w) = Returned () (v', w')) \<and>
            (\<exists>v' w'. PushBack_rv T x (v, w) = Returned () (v', w')) \<and>
            (\<exists>r v' w'. EmplaceBack T a (v, w) = Returned r (v', w')))"
proof -
  have full: "size_m v = capacity_m (data_m v)"
    using assms(2) by (simp add: Size_def Capacity_def)
  note ap = appended_full [OF full assms(1)]
  have 1: "\<forall>r v' w'. PushBack T x (v, w) = Returned r (v', w') \<longrightarrow>
            Capacity v' = (if Capacity v = 0 then 1 else 2 * Capacity v) \<and>
            cells_at (buffer_m (data_m v')) w = None \<and>
            buffer_m (data_m v') \<noteq> buffer_m (data_m v) \<and>
            (buffer_m (data_m v) \<noteq> 0 \<longrightarrow> cells_at (buffer_m (data_m v)) w' = None) \<and>
            elems v' w' = elems v w @ [list_init T x] \<and> Size v' = Size v + 1 \<and> wf v' w'"
    using PushBack_abstract [OF assms(1), of T x] ap full
    by (elim disjE exE conjE) (simp_all add: Size_def Capacity_def)
  have 2: "\<forall>r v' w'. PushBack_rv T x (v, w) = Returned r (v', w') \<longrightarrow>
            Capacity v' = (if Capacity v = 0 then 1 else 2 * Capacity v) \<and>
            cells_at (buffer_m (data_m v')) w = None \<and>
            buffer_m (data_m v') \<noteq> buffer_m (data_m v) \<and>
            (buffer_m (data_m v) \<noteq> 0 \<longrightarrow> cells_at (buffer_m (data_m v)) w' = None) \<and>
            elems v' w' = elems v w @ [x] \<and> Size v' = Size v + 1 \<and> wf v' w'"
    using PushBack_rv_abstract [OF assms(1), of T x] ap full
    by (elim disjE exE conjE) (simp_all add: Size_def Capacity_def)
  have 3: "\<forall>r v' w'. EmplaceBack T a (v, w) = Returned r (v', w') \<longrightarrow>
            Capacity v' = (if Capacity v = 0 then 1 else 2 * Capacity v) \<and>
            cells_at (buffer_m (data_m v')) w = None \<and>
            buffer_m (data_m v') \<noteq> buffer_m (data_m v) \<and>
            (buffer_m (data_m v) \<noteq> 0 \<longrightarrow> cells_at (buffer_m (data_m v)) w' = None) \<and>
            elems v' w' = elems v w @ [arg_value T a] \<and> Size v' = Size v + 1 \<and> wf v' w' \<and>
            r = Ptr (buffer_m (data_m v')) (Size v)"
    using EmplaceBack_abstract [OF assms(1), of T a] ap full
    by (elim disjE exE conjE) (simp_all add: Size_def Capacity_def)
  have 4: "no_faults w \<and> fits (if Capacity v = 0 then 1 else 2 * Capacity v) w \<longrightarrow>
            (\<exists>v' w'. PushBack T x (v, w) = Returned () (v', w')) \<and>
            (\<exists>v' w'. PushBack_rv T x (v, w) = Returned () (v', w')) \<and>
            (\<exists>r v' w'. EmplaceBack T a (v, w) = Returned r (v', w'))"
  proof (intro impI, elim conjE)
    assume nf: "no_faults w" and f: "fits (if Capacity v = 0 then 1 else 2 * Capacity v) w"
    have "(if Capacity v = 0 then 1 else 2 * Capacity v) =
          (if size_m v = 0 then 1 else size_m v * 2)"
      using full by (simp add: Capacity_def)
    then have f': "fits (if size_m v = 0 then 1 else size_m v * 2) w" using f by (simp only:)
    have a: "\<exists>v' w'. PushBack T x (v, w) = Returned () (v', w')"
      using PushBack_abstract [OF assms(1), of T x] nf f' by blast
    have b: "\<exists>v' w'. PushBack_rv T x (v, w) = Returned () (v', w')"
      using PushBack_rv_abstract [OF assms(1), of T x] nf f' by blast
    have c: "\<exists>r v' w'. EmplaceBack T a (v, w) = Returned r (v', w')"
      using EmplaceBack_abstract [OF assms(1), of T a] nf f' by blast
    from a b c
    show "(\<exists>v' w'. PushBack T x (v, w) = Returned () (v', w')) \<and>
          (\<exists>v' w'. PushBack_rv T x (v, w) = Returned () (v', w')) \<and>
          (\<exists>r v' w'. EmplaceBack T a (v, w) = Returned r (v', w'))"
      by (intro conjI)
  qed
  show ?thesis using 1 2 3 4 by (intro conjI)
qed

theorem append_at_capacity_witness:
  "wf (vec 1 2 2) (quiet [Block [Some (1::int), Some 2]]) \<and>
   Size (vec 1 2 2) = Capacity (vec 1 2 2) \<and>
   no_faults (quiet [Block [Some (1::int), Some 2]]) \<and>
   fits (if Capacity (vec 1 2 2) = 0 then 1 else 2 * Capacity (vec 1 2 2))
     (quiet [Block [Some (1::int), Some 2]]) \<and>
   PushBack T_int 3 (vec 1 2 2, quiet [Block [Some 1, Some 2]]) =
     Returned () (vec 2 4 3, quiet [Freed, Block [Some 1, Some 2, Some 3, None]]) \<and>
   PushBack_rv T_int 3 (vec 1 2 2, quiet [Block [Some 1, Some 2]]) =
     Returned () (vec 2 4 3, quiet [Freed, Block [Some 1, Some 2, Some 3, None]]) \<and>
   EmplaceBack T_int (Args 3) (vec 1 2 2, quiet [Block [Some 1, Some 2]]) =
     Returned (Ptr 2 2) (vec 2 4 3, quiet [Freed, Block [Some 1, Some 2, Some 3, None]]) \<and>
   Capacity (vec 2 4 3) = (if Capacity (vec 1 2 2) = 0 then 1 else 2 * Capacity (vec 1 2 2)) \<and>
   elems (vec 2 4 3) (quiet [Freed, Block [Some 1, Some 2, Some 3, None]]) =
     elems (vec 1 2 2) (quiet [Block [Some (1::int), Some 2]]) @ [list_init T_int 3] \<and>
   list_init T_int 3 = 3 \<and>
   Size (vec 2 4 3) = Size (vec 1 2 2) + 1"
proof -
  let ?v = "vec 1 2 2" and ?w = "quiet [Block [Some (1::int), Some 2]]"
  let ?w' = "quiet [Freed, Block [Some (1::int), Some 2, Some 3, None]]"
  have h: "wf ?v ?w" by (simp add: exec_simps)
  have f: "Size ?v = Capacity ?v" by (simp add: exec_simps)
  have n: "no_faults ?w" by (simp add: exec_simps)
  have g: "fits (if Capacity ?v = 0 then 1 else 2 * Capacity ?v) ?w" by (simp add: exec_simps)
  have l: "list_init T_int 3 = 3" by (simp add: T_int_def)
  have r: "PushBack T_int 3 (?v, ?w) = Returned () (vec 2 4 3, ?w')"
    by (simp add: exec_simps)
  have r2: "PushBack_rv T_int 3 (?v, ?w) = Returned () (vec 2 4 3, ?w')"
    by (simp add: exec_simps)
  have r3: "EmplaceBack T_int (Args 3) (?v, ?w) = Returned (Ptr 2 2) (vec 2 4 3, ?w')"
    by (simp add: exec_simps)
  have "\<forall>r v' w'. PushBack T_int 3 (?v, ?w) = Returned r (v', w') \<longrightarrow>
            Capacity v' = (if Capacity ?v = 0 then 1 else 2 * Capacity ?v) \<and>
            cells_at (buffer_m (data_m v')) ?w = None \<and>
            buffer_m (data_m v') \<noteq> buffer_m (data_m ?v) \<and>
            (buffer_m (data_m ?v) \<noteq> 0 \<longrightarrow> cells_at (buffer_m (data_m ?v)) w' = None) \<and>
            elems v' w' = elems ?v ?w @ [list_init T_int 3] \<and> Size v' = Size ?v + 1 \<and> wf v' w'"
    using append_at_capacity [OF h f, where T = T_int and x = 3 and a = "Args 3"]
    by (elim conjE)
  from this [rule_format, OF r] h f n g l r r2 r3 show ?thesis by blast
qed

text \<open>
  C4, where the code departs from it. The new element of \<open>PushBack(const T&)\<close> on a full
  vector is not always the value pushed:
  for the element type \<open>T_listed\<close>, whose constructor from an initializer list adds \<open>100\<close>,
  pushing \<open>3\<close> onto the full vector \<open>[1, 2]\<close> leaves \<open>[1, 2, 103]\<close>, while the same call on
  a vector with room, and \<open>PushBack(T&&)\<close> on the full vector, leave \<open>[1, 2, 3]\<close>.
\<close>

theorem PushBack_list_init_counterexample:
  "PushBack T_listed 3 (vec 1 2 2, quiet [Block [Some 1, Some 2]]) =
     Returned () (vec 2 4 3, quiet [Freed, Block [Some 1, Some 2, Some 103, None]]) \<and>
   elems (vec 2 4 3) (quiet [Freed, Block [Some (1::int), Some 2, Some 103, None]]) = [1, 2, 103] \<and>
   PushBack T_listed 3 (vec 1 3 2, quiet [Block [Some 1, Some 2, None]]) =
     Returned () (vec 1 3 3, quiet [Block [Some 1, Some 2, Some 3]]) \<and>
   PushBack_rv T_listed 3 (vec 1 2 2, quiet [Block [Some 1, Some 2]]) =
     Returned () (vec 2 4 3, quiet [Freed, Block [Some 1, Some 2, Some 3, None]])"
  by (simp add: exec_simps)

text \<open>
  C3, as stated, fails for an element type whose move assignment may throw: the shift is
  compiled out (\<open>if constexpr\<close>) and \<open>Erase\<close> destroys the last element instead of the
  one at \<open>pos\<close>. Erasing the first element of \<open>[1, 2]\<close> leaves \<open>[1]\<close>, not \<open>[2]\<close>. It also
  fails for an element type whose move assignment cannot throw but does not give the
  destination the value of the source, as that of \<open>Vector\<close> itself when the capacity of
  the destination suffices: the shift then moves nothing, and erasing the first element of
  the vector of vectors \<open>[[1, 2], [3]]\<close> leaves \<open>[[1, 2]]\<close>, not \<open>[[3]]\<close>.
\<close>

theorem Erase_throwing_counterexample:
  "wf (vec 1 2 2) (quiet [Block [Some (1::int), Some 2]]) \<and>
   \<not> nothrow_move_assignable T_throwing \<and>
   Vector_begin (vec 1 2 2) = Ptr 1 0 \<and>
   elems (vec 1 2 2) (quiet [Block [Some (1::int), Some 2]]) = [1, 2] \<and>
   Erase T_throwing (Ptr 1 0) (vec 1 2 2, quiet [Block [Some 1, Some 2]]) =
     Returned (Ptr 1 0) (vec 1 2 1, quiet [Block [Some 1, None]]) \<and>
   elems (vec 1 2 1) (quiet [Block [Some (1::int), None]]) = [1] \<and>
   wf (vec 1 2 2) (quiet [Block [Some [1::int, 2], Some [3]]]\<lparr>sizeof_T := 24\<rparr>) \<and>
   nothrow_move_assignable T_vector \<and>
   elems (vec 1 2 2) (quiet [Block [Some [1::int, 2], Some [3]]]\<lparr>sizeof_T := 24\<rparr>) =
     [[1, 2], [3]] \<and>
   Erase T_vector (Ptr 1 0)
       (vec 1 2 2, quiet [Block [Some [1, 2], Some [3]]]\<lparr>sizeof_T := 24\<rparr>) =
     Returned (Ptr 1 0) (vec 1 2 1, quiet [Block [Some [1, 2], None]]\<lparr>sizeof_T := 24\<rparr>) \<and>
   elems (vec 1 2 1) (quiet [Block [Some [1::int, 2], None]]\<lparr>sizeof_T := 24\<rparr>) = [[1, 2]]"
  by (simp add: exec_simps)

text \<open>
  C3, amended. For an element type whose move assignment cannot throw and gives the
  destination the value of the source, a well-formed vector and an index \<open>i < Size()\<close>:
  \<open>Erase(begin() + i)\<close> returns (it cannot fail), the elements afterwards are the old ones
  without the one at \<open>i\<close>, in order; the size is one less; the vacated last slot holds no
  object any more; the result is \<open>begin() + i\<close>, which is \<open>end()\<close> when \<open>i\<close> was the last
  index and otherwise addresses the element that followed the erased one.
\<close>

theorem Erase_spec:
  assumes "wf v w" and "nothrow_move_assignable T"
    and "\<forall>d s. fst (move_assigned T d s) = s" and "i < Size v"
  shows "\<exists>w'. Erase T (ptr_add (Vector_begin v) i) (v, w) =
             Returned (ptr_add (Vector_begin v) i) (v\<lparr>size_m := size_m v - 1\<rparr>, w') \<and>
           elems (v\<lparr>size_m := size_m v - 1\<rparr>) w' = take i (elems v w) @ drop (Suc i) (elems v w) \<and>
           Size (v\<lparr>size_m := size_m v - 1\<rparr>) = Size v - 1 \<and>
           wf (v\<lparr>size_m := size_m v - 1\<rparr>) w' \<and>
           load_n (Ptr (buffer_m (data_m v)) (Size v - 1)) 1 w' = None \<and>
           (if Suc i = Size v
            then ptr_add (Vector_begin v) i = Vector_end (v\<lparr>size_m := size_m v - 1\<rparr>)
            else load_n (ptr_add (Vector_begin v) i) 1 w' = Some [elems v w ! Suc i])"
proof -
  let ?v' = "v\<lparr>size_m := size_m v - 1\<rparr>"
  have i: "i < size_m v" using assms(4) by (simp add: Size_def)
  have tr: "\<And>d s. fst (move_assigned T d s) = s" using assms(3) by simp
  obtain w' where r: "Erase T (ptr_add (Vector_begin v) i) (v, w) =
             Returned (ptr_add (Vector_begin v) i) (?v', w')"
    and w: "wf ?v' w'"
    and e: "elems ?v' w' = take i (elems v w) @ drop (Suc i) (elems v w)"
    and raw: "load_n (Ptr (buffer_m (data_m v)) (size_m v - 1)) 1 w' = None"
    using Erase_result [OF assms(1,2) tr i] by blast
  have lx: "length (elems v w) = size_m v" using assms(1) by (rule length_elems)
  have last: "Suc i = size_m v \<Longrightarrow> ptr_add (Vector_begin v) i = Vector_end ?v'"
    by (auto simp: Vector_end_def Vector_begin_def ptr_add_def GetAddress_def)
  have nxt: "load_n (ptr_add (Vector_begin v) i) 1 w' = Some [elems v w ! Suc i]"
    if "Suc i \<noteq> size_m v"
  proof -
    have lt: "Suc i < size_m v" using that i by simp
    obtain rest where cs: "cells_at (buffer_m (data_m ?v')) w' = Some (map Some (elems ?v' w') @ rest)"
      and lx': "length (elems ?v' w') = size_m ?v'"
      using w by (rule wf_shape)
    have n: "elems ?v' w' ! i = elems v w ! Suc i"
      using e lt lx by (simp add: nth_append)
    have li: "i < length (elems ?v' w')" using lx' lt by simp
    have "take 1 (drop i (map Some (elems ?v' w') @ rest)) = [Some (elems ?v' w' ! i)]"
      using li by (simp add: take_Suc_conv_app_nth drop_map [symmetric] Cons_nth_drop_Suc [symmetric] del: drop_map)
    then show ?thesis
      using cs li n
      by (simp add: load_n_cells Vector_begin_def ptr_add_def GetAddress_def del: take_Suc_Cons One_nat_def)
  qed
  show ?thesis
    using r w e raw last nxt by (auto simp: Size_def)
qed

theorem Erase_spec_witness:
  "wf (vec 1 4 3) (quiet [Block [Some (1::int), Some 9, Some 3, None]]) \<and>
   nothrow_move_assignable T_int \<and> (\<forall>d s. fst (move_assigned T_int d s) = s) \<and>
   1 < Size (vec 1 4 3) \<and>
   ptr_add (Vector_begin (vec 1 4 3)) 1 = Ptr 1 1 \<and>
   Erase T_int (Ptr 1 1) (vec 1 4 3, quiet [Block [Some 1, Some 9, Some 3, None]]) =
     Returned (Ptr 1 1) (vec 1 4 2, quiet [Block [Some 1, Some 3, None, None]]) \<and>
   elems (vec 1 4 2) (quiet [Block [Some (1::int), Some 3, None, None]]) = [1, 3] \<and>
   take 1 (elems (vec 1 4 3) (quiet [Block [Some (1::int), Some 9, Some 3, None]])) @
     drop (Suc 1) (elems (vec 1 4 3) (quiet [Block [Some 1, Some 9, Some 3, None]])) = [1, 3]"
proof -
  let ?v = "vec 1 4 3" and ?w = "quiet [Block [Some (1::int), Some 9, Some 3, None]]"
  have h: "wf ?v ?w" by (simp add: exec_simps)
  have n: "nothrow_move_assignable T_int" by (simp add: T_int_def)
  have m: "\<forall>d s. fst (move_assigned T_int d s) = s" by (simp add: T_int_def)
  have i: "1 < Size ?v" by (simp add: exec_simps)
  have p: "ptr_add (Vector_begin ?v) 1 = Ptr 1 1" by (simp add: exec_simps)
  have r: "Erase T_int (Ptr 1 1) (?v, ?w) =
     Returned (Ptr 1 1) (vec 1 4 2, quiet [Block [Some 1, Some 3, None, None]])"
    by (simp add: exec_simps)
  have e: "elems (vec 1 4 2) (quiet [Block [Some (1::int), Some 3, None, None]]) = [1, 3]"
    by (simp add: exec_simps)
  obtain w' where "Erase T_int (ptr_add (Vector_begin ?v) 1) (?v, ?w) =
             Returned (ptr_add (Vector_begin ?v) 1) (?v\<lparr>size_m := size_m ?v - 1\<rparr>, w')"
    and "elems (?v\<lparr>size_m := size_m ?v - 1\<rparr>) w' = take 1 (elems ?v ?w) @ drop (Suc 1) (elems ?v ?w)"
    using Erase_spec [OF h n m i] by blast
  then have "take 1 (elems ?v ?w) @ drop (Suc 1) (elems ?v ?w) = [1, 3]"
    using r p e by (simp add: vec_def)
  then show ?thesis using h n m i p r e by blast
qed

text \<open>
  C2. Move assignment between two distinct well-formed vectors always returns. When the
  source's size exceeds the destination's capacity, the destination takes over the source's
  buffer, capacity and size, and with them its elements; the source is left empty and the
  destination's old elements are destroyed and their array released. When the
  destination's capacity suffices, nothing at all changes: the destination keeps its own
  contents. (Assigning a vector to itself changes nothing either.)
\<close>

theorem move_assign_spec:
  assumes "wf this w" and "wf rhs w"
  shows "(Capacity this < Size rhs \<longrightarrow>
            (\<exists>w'. move_assign False (this, rhs, w) = Returned () (rhs, Vector_default, w') \<and>
               elems rhs w' = elems rhs w \<and> wf rhs w' \<and>
               (buffer_m (data_m this) \<noteq> 0 \<longrightarrow> cells_at (buffer_m (data_m this)) w' = None) \<and>
               budget w' = budget w)) \<and>
         (Size rhs \<le> Capacity this \<longrightarrow>
            move_assign False (this, rhs, w) = Returned () (this, rhs, w)) \<and>
         move_assign True (this, this, w) = Returned () (this, this, w)"
proof (intro conjI impI)
  assume "Capacity this < Size rhs"
  then have big: "capacity_m (data_m this) < size_m rhs" by (simp add: Capacity_def Size_def)
  have ne: "buffer_m (data_m rhs) \<noteq> buffer_m (data_m this)"
    using assms big by (rule wf_distinct_buffers)
  obtain w' where d: "Vector_dtor this w = Some w'" and b: "budget w' = budget w"
    and c: "\<forall>a. cells_at a w' =
                (if a = buffer_m (data_m this) \<and> a \<noteq> 0 then None else cells_at a w)"
    and z: "sizeof_T w' = sizeof_T w"
    using Vector_dtor_result [OF assms(1)] by blast
  have r: "move_assign False (this, rhs, w) = Returned () (rhs, Vector_default, w')"
    using big d
    by (simp add: move_assign.simps Vector_move_ctor_eq Vector_Swap_eq Vector_default_def
        RawMemory_default_def)
  have same: "cells_at (buffer_m (data_m rhs)) w' = cells_at (buffer_m (data_m rhs)) w"
    using c ne by simp
  have "elems rhs w' = elems rhs w" using same by (rule elems_cong)
  moreover have "wf rhs w'" using assms(2) same z by (rule wf_same_cells)
  moreover have "buffer_m (data_m this) \<noteq> 0 \<longrightarrow> cells_at (buffer_m (data_m this)) w' = None"
    using c by simp
  ultimately show "\<exists>w'. move_assign False (this, rhs, w) = Returned () (rhs, Vector_default, w') \<and>
               elems rhs w' = elems rhs w \<and> wf rhs w' \<and>
               (buffer_m (data_m this) \<noteq> 0 \<longrightarrow> cells_at (buffer_m (data_m this)) w' = None) \<and>
               budget w' = budget w"
    using r b by blast
next
  assume "Size rhs \<le> Capacity this"
  then show "move_assign False (this, rhs, w) = Returned () (this, rhs, w)"
    by (simp add: move_assign.simps Capacity_def Size_def)
next
  show "move_assign True (this, this, w) = Returned () (this, this, w)"
    by (simp add: move_assign.simps)
qed

theorem move_assign_spec_witness:
  "wf (vec 1 1 1) (quiet [Block [Some (5::int)], Block [Some (1::int), Some 2]]) \<and>
   wf (vec 2 2 2) (quiet [Block [Some (5::int)], Block [Some (1::int), Some 2]]) \<and>
   wf (vec 1 1 0) (quiet [Block [None], Block [Some (1::int), None]]) \<and>
   wf (vec 2 2 1) (quiet [Block [None], Block [Some (1::int), None]]) \<and>
   move_assign False (vec 1 1 1, vec 2 2 2, quiet [Block [Some (5::int)], Block [Some (1::int), Some 2]]) =
     Returned () (vec 2 2 2, Vector_default, quiet [Freed, Block [Some (1::int), Some 2]]) \<and>
   elems (vec 2 2 2) (quiet [Freed, Block [Some (1::int), Some 2]]) = [1, 2] \<and>
   move_assign False (vec 1 1 0, vec 2 2 1, quiet [Block [None], Block [Some (1::int), None]]) =
     Returned () (vec 1 1 0, vec 2 2 1, quiet [Block [None], Block [Some (1::int), None]]) \<and>
   elems (vec 1 1 0) (quiet [Block [None], Block [Some (1::int), None]]) = [] \<and>
   elems (vec 2 2 1) (quiet [Block [None], Block [Some (1::int), None]]) = [1]"
proof -
  let ?w = "quiet [Block [Some (5::int)], Block [Some (1::int), Some 2]]"
  let ?u = "quiet [Block [None], Block [Some (1::int), None]]"
  have h1: "wf (vec 1 1 1) ?w" and h2: "wf (vec 2 2 2) ?w"
    and h3: "wf (vec 1 1 0) ?u" and h4: "wf (vec 2 2 1) ?u"
    by (simp_all add: exec_simps)
  have r: "move_assign False (vec 1 1 1, vec 2 2 2, ?w) =
     Returned () (vec 2 2 2, Vector_default, quiet [Freed, Block [Some (1::int), Some 2]])"
    by (simp add: exec_simps)
  have e: "elems (vec 2 2 2) (quiet [Freed, Block [Some (1::int), Some 2]]) = [1, 2]"
    "elems (vec 1 1 0) ?u = []" "elems (vec 2 2 1) ?u = [1]"
    by (simp_all add: exec_simps)
  have s: "Size (vec 2 2 1) \<le> Capacity (vec 1 1 0)" by (simp add: exec_simps)
  have "move_assign False (vec 1 1 0, vec 2 2 1, ?u) = Returned () (vec 1 1 0, vec 2 2 1, ?u)"
    using move_assign_spec [OF h3 h4] s by blast
  then show ?thesis using h1 h2 h3 h4 r e by blast
qed

text \<open>
  C9, as stated, fails: a vector that is the source of a move construction is left with
  capacity \<open>0\<close>, and \<open>Swap\<close> with a vector of smaller capacity lowers the capacity.
\<close>

theorem capacity_decreases_counterexample:
  "Capacity (vec 1 4 2) = 4 \<and>
   snd (Vector_move_ctor (vec 1 4 2)) = vec 0 0 0 \<and>
   Capacity (snd (Vector_move_ctor (vec 1 4 2))) = 0 \<and>
   fst (Vector_Swap (vec 1 4 2) (vec 2 1 1)) = vec 2 1 1 \<and>
   Capacity (fst (Vector_Swap (vec 1 4 2) (vec 2 1 1))) = 1"
  by (simp add: exec_simps)

text \<open>
  C9, amended. For every vector and every call of \<open>Reserve\<close>, \<open>Resize\<close>, \<open>PushBack\<close>,
  \<open>EmplaceBack\<close>, \<open>PopBack\<close>, \<open>Emplace\<close>, \<open>Insert\<close> or \<open>Erase\<close> on it, whether the call
  returns or throws, the capacity afterwards is at least the capacity before; the same holds
  for both vectors of a copy assignment and for the destination of a move assignment from
  a source with \<open>Size() \<le> Capacity()\<close>. The source of a move construction, and the source of
  a move assignment that takes its storage, is left with capacity \<open>0\<close>; \<open>Swap\<close> exchanges
  the two capacities.
\<close>

theorem capacity_never_decreases:
  "(after (perform T c (v, w)) = Some (v', w') \<longrightarrow> Capacity v \<le> Capacity v') \<and>
   (after (copy_assign T same (this, rhs, w)) = Some (this', rhs', w') \<longrightarrow>
      Capacity this \<le> Capacity this' \<and> Capacity rhs \<le> Capacity rhs') \<and>
   (Size rhs \<le> Capacity rhs \<and> after (move_assign same (this, rhs, w)) = Some (this', rhs', w') \<longrightarrow>
      Capacity this \<le> Capacity this') \<and>
   (Capacity this < Size rhs \<and> after (move_assign False (this, rhs, w)) = Some (this', rhs', w') \<longrightarrow>
      Capacity rhs' = 0) \<and>
   Capacity (snd (Vector_move_ctor a)) = 0 \<and>
   Capacity (fst (Vector_Swap a b)) = Capacity b \<and>
   Capacity (snd (Vector_Swap a b)) = Capacity a"
proof (intro conjI impI)
  assume "after (perform T c (v, w)) = Some (v', w')"
  then show "Capacity v \<le> Capacity v'"
    unfolding Capacity_def by (rule perform_capacity)
next
  assume a: "after (copy_assign T same (this, rhs, w)) = Some (this', rhs', w')"
  from copy_assign_capacity [OF a] show "Capacity this \<le> Capacity this'"
    by (simp add: Capacity_def)
  from copy_assign_capacity [OF a] show "Capacity rhs \<le> Capacity rhs'"
    by (simp add: Capacity_def)
next
  assume "Size rhs \<le> Capacity rhs \<and> after (move_assign same (this, rhs, w)) = Some (this', rhs', w')"
  then show "Capacity this \<le> Capacity this'"
    using move_assign_capacity [of same this rhs w this' rhs' w']
    by (simp add: Capacity_def Size_def)
next
  assume "Capacity this < Size rhs \<and> after (move_assign False (this, rhs, w)) = Some (this', rhs', w')"
  then show "Capacity rhs' = 0"
    by (auto simp: move_assign.simps Vector_move_ctor_eq Vector_Swap_eq Capacity_def Size_def
        split: if_splits option.splits)
next
  show "Capacity (snd (Vector_move_ctor a)) = 0"
    by (simp add: Vector_move_ctor_eq Capacity_def)
  show "Capacity (fst (Vector_Swap a b)) = Capacity b"
    by (simp add: Vector_Swap_eq)
  show "Capacity (snd (Vector_Swap a b)) = Capacity a"
    by (simp add: Vector_Swap_eq)
qed

theorem capacity_never_decreases_witness:
  "after (perform T_int (CPushBack 3) (vec 1 2 2, quiet [Block [Some (1::int), Some 2]])) =
     Some (vec 2 4 3, quiet [Freed, Block [Some (1::int), Some 2, Some 3, None]]) \<and>
   Capacity (vec 1 2 2) \<le> Capacity (vec 2 4 3) \<and>
   after (perform T_int (CErase (Ptr 2 0)) (vec 2 4 3, quiet [Freed, Block [Some (1::int), Some 2, Some 3, None]])) =
     Some (vec 2 4 2, quiet [Freed, Block [Some (2::int), Some 3, None, None]]) \<and>
   Capacity (vec 2 4 3) \<le> Capacity (vec 2 4 2)"
proof -
  have r: "after (perform T_int (CPushBack 3) (vec 1 2 2, quiet [Block [Some (1::int), Some 2]])) =
     Some (vec 2 4 3, quiet [Freed, Block [Some (1::int), Some 2, Some 3, None]])"
    by (simp add: exec_simps)
  have e: "after (perform T_int (CErase (Ptr 2 0)) (vec 2 4 3, quiet [Freed, Block [Some (1::int), Some 2, Some 3, None]])) =
     Some (vec 2 4 2, quiet [Freed, Block [Some (2::int), Some 3, None, None]])"
    by (simp add: exec_simps forget_def)
  have "Capacity (vec 1 2 2) \<le> Capacity (vec 2 4 3)"
    using capacity_never_decreases [where T = T_int and c = "CPushBack 3" and v = "vec 1 2 2"
        and w = "quiet [Block [Some (1::int), Some 2]]" and v' = "vec 2 4 3"
        and w' = "quiet [Freed, Block [Some (1::int), Some 2, Some 3, None]]"] r
    by blast
  moreover have "Capacity (vec 2 4 3) \<le> Capacity (vec 2 4 2)"
    using capacity_never_decreases [where T = T_int and c = "CErase (Ptr 2 0)" and v = "vec 2 4 3"
        and w = "quiet [Freed, Block [Some (1::int), Some 2, Some 3, None]]" and v' = "vec 2 4 2"
        and w' = "quiet [Freed, Block [Some (2::int), Some 3, None, None]]"] e
    by blast
  ultimately show ?thesis using r e by blast
qed

text \<open>
  C5. Copy assignment between two different vectors (\<open>this != &rhs\<close>; different vectors own
  different arrays, and a vector without an array holds \<open>nullptr\<close>). When the assignment
  returns, the destination has the elements and the size of the source, and the source is as
  before. If the size of the source exceeded the capacity of the destination, the
  destination now owns an array that did not exist before, of capacity the size of the
  source, every element has been copy-constructed once (one allocation, no copy
  assignment), and the former array of the destination has been released: copy-and-swap.
  Otherwise the destination keeps its array and no array is allocated; the elements of the
  common prefix have been copy-assigned (as many as the smaller of the two sizes), the
  elements of the source beyond the former size of the destination have been
  copy-constructed, and the cells of the destination from the size of the source up to its
  former size are raw again. The counts are read off the schedule of throwing operations:
  \<open>spent b n\<close> is the schedule \<open>b\<close> after \<open>n\<close> operations. With nothing scheduled to throw
  the assignment does return, and it is never undefined.
\<close>

theorem copy_assign_spec:
  assumes "wf this w" and "wf rhs w"
    and "buffer_m (data_m this) \<noteq> buffer_m (data_m rhs) \<or> buffer_m (data_m this) = 0"
  shows "(\<forall>r this' rhs' w'. copy_assign T False (this, rhs, w) = Returned r (this', rhs', w') \<longrightarrow>
            elems this' w' = elems rhs w \<and> Size this' = Size rhs \<and> wf this' w' \<and>
            rhs' = rhs \<and> elems rhs w' = elems rhs w \<and> wf rhs w' \<and>
            (if Capacity this < Size rhs
             then Capacity this' = Size rhs \<and>
                  cells_at (buffer_m (data_m this')) w = None \<and>
                  (buffer_m (data_m this) \<noteq> 0 \<longrightarrow>
                     cells_at (buffer_m (data_m this)) w' = None) \<and>
                  budget w' Alloc = spent (budget w Alloc) 1 \<and>
                  budget w' CopyCtor = spent (budget w CopyCtor) (Size rhs) \<and>
                  budget w' CopyAssign = budget w CopyAssign
             else data_m this' = data_m this \<and>
                  length (heap w') = length (heap w) \<and>
                  budget w' Alloc = budget w Alloc \<and>
                  budget w' CopyAssign = spent (budget w CopyAssign) (min (Size this) (Size rhs)) \<and>
                  budget w' CopyCtor = spent (budget w CopyCtor) (Size rhs - Size this) \<and>
                  map_option (\<lambda>cs. take (Size this - Size rhs) (drop (Size rhs) cs))
                      (cells_at (buffer_m (data_m this)) w') =
                    Some (replicate (Size this - Size rhs) None))) \<and>
         (no_faults w \<longrightarrow>
            (\<exists>this' w'. copy_assign T False (this, rhs, w) = Returned () (this', rhs, w'))) \<and>
         copy_assign T False (this, rhs, w) \<noteq> Undefined"
  using copy_assign_abstract [OF assms, of T]
proof (elim disjE exE conjE)
  fix e w'
  assume "copy_assign T False (this, rhs, w) = Threw e (this, rhs, w')" and "\<not> no_faults w"
  then show ?thesis unfolding Size_def Capacity_def by simp
next
  fix this' w'
  assume r: "copy_assign T False (this, rhs, w) = Returned () (this', rhs, w')"
    and "elems this' w' = elems rhs w" and "size_m this' = size_m rhs" and "wf this' w'"
    and "elems rhs w' = elems rhs w" and "wf rhs w'"
    and "if capacity_m (data_m this) < size_m rhs
         then capacity_m (data_m this') = size_m rhs \<and>
              cells_at (buffer_m (data_m this')) w = None \<and>
              (buffer_m (data_m this) \<noteq> 0 \<longrightarrow> cells_at (buffer_m (data_m this)) w' = None) \<and>
              budget w' Alloc = spent (budget w Alloc) 1 \<and>
              budget w' CopyCtor = spent (budget w CopyCtor) (size_m rhs) \<and>
              budget w' CopyAssign = budget w CopyAssign
         else data_m this' = data_m this \<and>
              length (heap w') = length (heap w) \<and>
              budget w' Alloc = budget w Alloc \<and>
              budget w' CopyAssign = spent (budget w CopyAssign) (min (size_m this) (size_m rhs)) \<and>
              budget w' CopyCtor = spent (budget w CopyCtor) (size_m rhs - size_m this) \<and>
              map_option (\<lambda>cs. take (size_m this - size_m rhs) (drop (size_m rhs) cs))
                  (cells_at (buffer_m (data_m this)) w') =
                Some (replicate (size_m this - size_m rhs) None)"
  then show ?thesis unfolding Size_def Capacity_def r by simp
qed

theorem copy_assign_spec_witness:
  "wf (vec 1 4 3) (faulty [Block [Some (1::int), Some 2, Some 3, None], Block [Some (7::int), Some 8]] CopyAssign 5) \<and>
   wf (vec 2 2 2) (faulty [Block [Some (1::int), Some 2, Some 3, None], Block [Some (7::int), Some 8]] CopyAssign 5) \<and>
   copy_assign T_int False
     (vec 1 4 3, vec 2 2 2,
      faulty [Block [Some (1::int), Some 2, Some 3, None], Block [Some (7::int), Some 8]] CopyAssign 5) =
     Returned ()
       (vec 1 4 2, vec 2 2 2,
        faulty [Block [Some (7::int), Some 8, None, None], Block [Some (7::int), Some 8]] CopyAssign 3) \<and>
   elems (vec 1 4 2) (faulty [Block [Some (7::int), Some 8, None, None], Block [Some (7::int), Some 8]] CopyAssign 3) =
     elems (vec 2 2 2) (faulty [Block [Some (1::int), Some 2, Some 3, None], Block [Some (7::int), Some 8]] CopyAssign 5) \<and>
   elems (vec 1 4 2) (faulty [Block [Some (7::int), Some 8, None, None], Block [Some (7::int), Some 8]] CopyAssign 3) =
     [7, 8] \<and>
   Size (vec 1 4 2) = Size (vec 2 2 2) \<and>
   wf (vec 1 4 2) (faulty [Block [Some (7::int), Some 8, None, None], Block [Some (7::int), Some 8]] CopyAssign 3)"
proof -
  let ?w = "faulty [Block [Some (1::int), Some 2, Some 3, None], Block [Some (7::int), Some 8]] CopyAssign 5"
  let ?w' = "faulty [Block [Some (7::int), Some 8, None, None], Block [Some (7::int), Some 8]] CopyAssign 3"
  have h1: "wf (vec 1 4 3) ?w" by (simp add: exec_simps)
  have h2: "wf (vec 2 2 2) ?w" by (simp add: exec_simps)
  have h3: "buffer_m (data_m (vec 1 4 3)) \<noteq> buffer_m (data_m (vec 2 2 2)) \<or>
            buffer_m (data_m (vec 1 4 3)) = 0"
    by (simp add: vec_def)
  have r: "copy_assign T_int False (vec 1 4 3, vec 2 2 2, ?w) =
      Returned () (vec 1 4 2, vec 2 2 2, ?w')"
    by (simp add: exec_simps)
  have e: "elems (vec 1 4 2) ?w' = [7, 8]" by (simp add: exec_simps)
  have "\<forall>r this' rhs' w'. copy_assign T_int False (vec 1 4 3, vec 2 2 2, ?w) =
            Returned r (this', rhs', w') \<longrightarrow>
            elems this' w' = elems (vec 2 2 2) ?w \<and> Size this' = Size (vec 2 2 2) \<and> wf this' w'"
    using copy_assign_spec [OF h1 h2 h3, of T_int] by (elim conjE) blast
  from this [rule_format, OF r] h1 h2 r e show ?thesis by (intro conjI) (elim conjE, assumption)+
qed

end
